(* ===== verification/Prelude.thy ===== *)
theory Prelude
  imports Main
begin

text \<open>
  Shared vocabulary of the development. Every mutating handler of \<open>src/main.py\<close>
  has the same shape: a \<open>for\<close> loop over a list that stops at the first element
  whose key matches, mutates that element in place and returns. The generic
  list operations below name the pieces of that shape (the first index that
  matches, the element found, the list with that element replaced), and the
  lemmas about them are the ones the component theories need: lengths, keys
  and untouched fields are kept, nothing changes when nothing matches, and a
  list of distinct keys is updated at exactly one position.
\<close>

named_theorems read_handler_defs \<open>definitions of the read-only handlers, unfolded together\<close>
named_theorems frame_simps \<open>facts saying which parts of the state a handler leaves alone\<close>

section \<open>Scanning a list for the first match\<close>

fun first_index :: "('a \<Rightarrow> bool) \<Rightarrow> 'a list \<Rightarrow> nat option" where
  "first_index P [] = None"
| "first_index P (x # xs) =
     (if P x then Some 0 else map_option Suc (first_index P xs))"

fun map_first :: "('a \<Rightarrow> bool) \<Rightarrow> ('a \<Rightarrow> 'a) \<Rightarrow> 'a list \<Rightarrow> 'a list" where
  "map_first P f [] = []"
| "map_first P f (x # xs) = (if P x then f x # xs else x # map_first P f xs)"

text \<open>
  A list of records with a key field read as a finite map: the first record with
  a given key wins, as in the source's scan.
\<close>

definition keyed :: "('a \<Rightarrow> 'k) \<Rightarrow> 'a list \<Rightarrow> 'k \<rightharpoonup> 'a" where
  "keyed k xs = map_of (map (\<lambda>x. (k x, x)) xs)"

lemma first_index_None_iff [simp]:
  "first_index P xs = None \<longleftrightarrow> (\<forall>x\<in>set xs. \<not> P x)"
  by (induction xs) auto

lemma first_index_Some:
  "first_index P xs = Some i \<Longrightarrow> i < length xs \<and> P (xs ! i) \<and> (\<forall>k<i. \<not> P (xs ! k))"
proof (induction xs arbitrary: i)
  case Nil
  then show ?case by simp
next
  case (Cons x xs)
  then show ?case
    by (auto split: if_splits simp: less_Suc_eq_0_disj)
qed

lemma first_index_find:
  "find P xs = map_option (nth xs) (first_index P xs)"
  by (induction xs) (simp_all add: option.map_comp comp_def)

lemma map_first_length [simp]: "length (map_first P f xs) = length xs"
  by (induction xs) auto

lemma map_first_no_match [simp]:
  "\<forall>x\<in>set xs. \<not> P x \<Longrightarrow> map_first P f xs = xs"
  by (induction xs) auto

lemma map_first_first_index:
  "first_index P xs = Some i \<Longrightarrow> map_first P f xs = xs[i := f (xs ! i)]"
  by (induction xs arbitrary: i) (auto split: if_splits)

lemma map_map_first_key:
  "(\<And>x. k (f x) = k x) \<Longrightarrow> map k (map_first P f xs) = map k xs"
  by (induction xs) auto

lemma set_map_first:
  "y \<in> set (map_first P f xs) \<Longrightarrow> y \<in> set xs \<or> (\<exists>x\<in>set xs. P x \<and> y = f x)"
  by (induction xs) (auto split: if_splits)

lemma map_first_keeps:
  "x \<in> set xs \<Longrightarrow> x \<in> set (map_first P f xs) \<or> f x \<in> set (map_first P f xs)"
  by (induction xs) auto

lemma list_all_map_first [intro]:
  "list_all Q xs \<Longrightarrow> (\<And>x. Q x \<Longrightarrow> P x \<Longrightarrow> Q (f x)) \<Longrightarrow> list_all Q (map_first P f xs)"
  by (induction xs) auto

text \<open>
  With distinct keys, updating the first element whose key is \<open>k0\<close> updates the
  only such element: the scan that stops early is the same as a pass over the
  whole list.
\<close>

lemma map_first_distinct:
  assumes "distinct (map k xs)"
  shows "map_first (\<lambda>x. k x = k0) f xs = map (\<lambda>x. if k x = k0 then f x else x) xs"
  using assms
proof (induction xs)
  case Nil
  then show ?case by simp
next
  case (Cons x xs)
  show ?case
  proof (cases "k x = k0")
    case True
    with Cons.prems have "\<forall>y\<in>set xs. k y \<noteq> k0" by (auto simp: image_iff)
    then have "map (\<lambda>x. if k x = k0 then f x else x) xs = xs"
      by (induction xs) auto
    with True show ?thesis by simp
  next
    case False
    with Cons show ?thesis by simp
  qed
qed

lemma find_key_distinct:
  "distinct (map k xs) \<Longrightarrow> x \<in> set xs \<Longrightarrow> find (\<lambda>y. k y = k x) xs = Some x"
  by (induction xs) (auto simp: image_iff)

lemma find_key_None:
  "k0 \<notin> k ` set xs \<Longrightarrow> find (\<lambda>y. k y = k0) xs = None"
  by (auto simp: find_None_iff)

lemma find_Some_mem: "find P xs = Some x \<Longrightarrow> x \<in> set xs \<and> P x"
  by (induction xs) (auto split: if_splits)

lemma find_map_first:
  "find P xs = Some x \<Longrightarrow> (\<And>y. P (f y) = P y) \<Longrightarrow> find P (map_first P f xs) = Some (f x)"
  by (induction xs) (auto split: if_splits)

text \<open>
  An in-place write \<open>xs[i].field = v\<close> is \<open>xs[i := f (xs ! i)]\<close>; it keeps a
  property of all elements when the written element has it (past the end the
  update changes nothing).
\<close>

lemma list_all_update_nth:
  "list_all P xs \<Longrightarrow> (i < length xs \<Longrightarrow> P (f (xs ! i))) \<Longrightarrow> list_all P (xs[i := f (xs ! i)])"
  by (cases "i < length xs") (auto simp: list_all_iff list_update_beyond dest: set_update_subset_insert [THEN subsetD])

lemma nth_update_in:
  "j < length xs \<Longrightarrow> xs[i := x] ! j = (if i = j then x else xs ! j)"
  by (cases "i < length xs") (auto simp: nth_list_update list_update_beyond)

subsection \<open>Association lists keyed by a field\<close>

lemma keyed_Nil [simp]: "keyed k [] = Map.empty"
  by (simp add: keyed_def)

lemma keyed_Cons [simp]: "keyed k (x # xs) = (keyed k xs)(k x \<mapsto> x)"
  by (simp add: keyed_def)

lemma keyed_append [simp]: "keyed k (xs @ ys) = keyed k ys ++ keyed k xs"
  by (simp add: keyed_def)

lemma keyed_find: "keyed k xs k0 = find (\<lambda>x. k x = k0) xs"
  by (induction xs) auto

lemma dom_keyed [simp]: "dom (keyed k xs) = k ` set xs"
  by (simp add: keyed_def dom_map_of_conv_image_fst image_image)

lemma keyed_map_first:
  "(\<And>x. k (f x) = k x) \<Longrightarrow>
   keyed k (map_first (\<lambda>x. k x = k0) f xs) =
     (case keyed k xs k0 of None \<Rightarrow> keyed k xs | Some x \<Rightarrow> (keyed k xs)(k0 \<mapsto> f x))"
  by (induction xs) (auto simp: fun_upd_twist split: option.splits)

end
