(* ===== verification/Store.thy ===== *)
theory Store
  imports Prelude
begin

text \<open>
  The data model and the in-memory database of \<open>src/main.py\<close>: the pydantic
  models \<open>Job\<close>, \<open>JobCreate\<close> and \<open>Driver\<close> as records, the three module-level
  globals \<open>drivers\<close>, \<open>jobs\<close> and \<open>next_job_id\<close> as one state record, their
  seed values, the two read-only handlers, and the well-formedness invariant the
  handlers keep. Python's \<open>int\<close> is unbounded and is modelled as \<open>int\<close>; \<open>str\<close>
  as \<open>string\<close>. \<open>Job.status\<close> is a plain \<open>str\<close> in the source, so it is a
  \<open>string\<close> here as well, and "it is one of the three literals" is part of the
  invariant rather than of the type.
\<close>

section \<open>Data models\<close>

text \<open>\<open>class Job(BaseModel)\<close>; the field \<open>id\<close> is \<open>job_id\<close> here.\<close>

record job =
  job_id :: int
  pickup_location :: string
  dropoff_location :: string
  load_description :: string
  status :: string
  driver_id :: "int option"

text \<open>\<open>class JobCreate(BaseModel)\<close>: the body of \<open>POST /jobs\<close>.\<close>

record job_create =
  jc_pickup_location :: string
  jc_dropoff_location :: string
  jc_load_description :: string

text \<open>\<open>class Driver(BaseModel)\<close>; the field \<open>id\<close> is \<open>drv_id\<close> here.\<close>

record driver =
  drv_id :: int
  name :: string
  current_location :: string

text \<open>
  The pydantic constructor \<open>Job(...)\<close> with its defaults \<open>status = "available"\<close>
  and \<open>driver_id = None\<close>.
\<close>

definition Job :: "int \<Rightarrow> string \<Rightarrow> string \<Rightarrow> string \<Rightarrow> job" where
  "Job i p d l = \<lparr>job_id = i, pickup_location = p, dropoff_location = d,
                  load_description = l, status = ''available'', driver_id = None\<rparr>"

section \<open>The in-memory database\<close>

text \<open>The module-level globals \<open>drivers\<close>, \<open>jobs\<close> and \<open>next_job_id\<close>.\<close>

record db =
  drivers :: "driver list"
  jobs :: "job list"
  next_job_id :: int

definition seed_drivers :: "driver list" where
  "seed_drivers =
     [\<lparr>drv_id = 1, name = ''John Doe'', current_location = ''Seattle''\<rparr>,
      \<lparr>drv_id = 2, name = ''Sarah Lee'', current_location = ''Bellevue''\<rparr>]"

definition seed_jobs :: "job list" where
  "seed_jobs =
     [Job 1 ''Amazon SODO'' ''Bellevue Downtown'' ''Pallet of boxes'',
      Job 2 ''Port of Seattle Terminal 18'' ''Redmond Microsoft Campus'' ''Electronics container'']"

definition initial_db :: db where
  "initial_db = \<lparr>drivers = seed_drivers, jobs = seed_jobs, next_job_id = 3\<rparr>"

section \<open>Read-only handlers\<close>

text \<open>\<open>GET /jobs\<close> and \<open>GET /drivers\<close> return the global lists as they are.\<close>

definition get_jobs :: "db \<Rightarrow> job list \<times> db" where
  "get_jobs s = (jobs s, s)"

definition get_drivers :: "db \<Rightarrow> driver list \<times> db" where
  "get_drivers s = (drivers s, s)"

definition home :: "db \<Rightarrow> string \<times> db" where
  "home s = (''Last-Mile Logistics API is live!'', s)"

declare get_jobs_def [read_handler_defs] get_drivers_def [read_handler_defs] home_def [read_handler_defs]

section \<open>Well-formedness of the database\<close>

text \<open>
  The status literals the handlers write. A status is valid when it is one of
  them.
\<close>

definition valid_status :: "string \<Rightarrow> bool" where
  "valid_status st \<longleftrightarrow> st = ''available'' \<or> st = ''assigned'' \<or> st = ''completed''"

text \<open>
  What the code keeps true between its globals: job ids are distinct and all below
  the counter (so the counter hands out fresh ids); every status is one of the three
  literals; a job carries a driver only once it has left \<open>available\<close>.
\<close>

definition ids_fresh :: "db \<Rightarrow> bool" where
  "ids_fresh s \<longleftrightarrow> distinct (map job_id (jobs s)) \<and> list_all (\<lambda>j. job_id j < next_job_id s) (jobs s)"

definition job_ok :: "job \<Rightarrow> bool" where
  "job_ok j \<longleftrightarrow> valid_status (status j) \<and> (driver_id j \<noteq> None \<longrightarrow> status j \<noteq> ''available'')"

definition wf_db :: "db \<Rightarrow> bool" where
  "wf_db s \<longleftrightarrow> ids_fresh s \<and> list_all job_ok (jobs s)"

lemma job_ok_Job [simp]: "job_ok (Job i p d l)"
  by (simp add: job_ok_def Job_def valid_status_def)

lemma job_id_Job [simp]: "job_id (Job i p d l) = i"
  and status_Job [simp]: "status (Job i p d l) = ''available''"
  and driver_id_Job [simp]: "driver_id (Job i p d l) = None"
  and pickup_location_Job [simp]: "pickup_location (Job i p d l) = p"
  and dropoff_location_Job [simp]: "dropoff_location (Job i p d l) = d"
  and load_description_Job [simp]: "load_description (Job i p d l) = l"
  by (simp_all add: Job_def)

end
