(* ===== verification/Jobs.thy ===== *)
theory Jobs
  imports Store
begin

text \<open>
  The job repository of \<open>src/main.py\<close>: the handlers \<open>create_job\<close>,
  \<open>accept_job\<close>, \<open>assign_driver\<close> and \<open>complete_job\<close>. Each handler takes
  the database (the module globals) and returns its result with the new
  database. The \<open>for job in jobs\<close> loops are structural recursions over the job
  list (\<open>accept_loop\<close>, \<open>assign_loop\<close>, \<open>complete_loop\<close>) that mutate the first
  job whose id matches: since the list holds the job objects themselves, the
  in-place mutation is the list with that element replaced. A raised
  \<open>HTTPException\<close> is an \<open>Inl\<close> value; the older routes return a dictionary
  with an \<open>error\<close> key, which is the constructor \<open>LegacyError\<close>.
\<close>

section \<open>Results\<close>

text \<open>\<open>fastapi.HTTPException(status_code, detail)\<close>.\<close>

datatype http_exception = HTTPException nat string

text \<open>
  The dictionaries returned by \<open>assign_driver\<close> and \<open>complete_job\<close>:
  \<open>{"message": m, "job": job}\<close> or \<open>{"error": e}\<close>.
\<close>

datatype legacy_response = LegacyMessage string job | LegacyError string

section \<open>Handlers\<close>

text \<open>\<open>POST /jobs\<close>: build the job from the counter, append it, bump the counter.\<close>

definition create_job :: "db \<Rightarrow> job_create \<Rightarrow> job \<times> db" where
  "create_job s jc =
     (let new_job = \<lparr>job_id = next_job_id s,
                     pickup_location = jc_pickup_location jc,
                     dropoff_location = jc_dropoff_location jc,
                     load_description = jc_load_description jc,
                     status = ''available'',
                     driver_id = None\<rparr>;
          s' = s\<lparr>jobs := jobs s @ [new_job]\<rparr>
      in (new_job, s'\<lparr>next_job_id := next_job_id s' + 1\<rparr>))"

text \<open>\<open>POST /jobs/{job_id}/accept\<close>: the loop, then the handler.\<close>

fun accept_loop :: "job list \<Rightarrow> int \<Rightarrow> int option \<Rightarrow> http_exception + (job \<times> job list)" where
  "accept_loop [] jid did = Inl (HTTPException 404 ''Job not found'')"
| "accept_loop (j # js) jid did =
     (if job_id j = jid then
        (if status j \<noteq> ''available''
         then Inl (HTTPException 400 ''Job already assigned or completed'')
         else (let j' = j\<lparr>status := ''assigned''\<rparr>\<lparr>driver_id := did\<rparr> in Inr (j', j' # js)))
      else (case accept_loop js jid did of
              Inl e \<Rightarrow> Inl e
            | Inr (r, js') \<Rightarrow> Inr (r, j # js')))"

definition accept_job :: "db \<Rightarrow> int \<Rightarrow> int option \<Rightarrow> (http_exception + job) \<times> db" where
  "accept_job s jid did =
     (case accept_loop (jobs s) jid did of
        Inl e \<Rightarrow> (Inl e, s)
      | Inr (j, js) \<Rightarrow> (Inr j, s\<lparr>jobs := js\<rparr>))"

text \<open>\<open>POST /assign/{job_id}/{driver_id}\<close>: no status check.\<close>

fun assign_loop :: "job list \<Rightarrow> int \<Rightarrow> int \<Rightarrow> (job \<times> job list) option" where
  "assign_loop [] jid did = None"
| "assign_loop (j # js) jid did =
     (if job_id j = jid then
        (let j' = j\<lparr>status := ''assigned''\<rparr>\<lparr>driver_id := Some did\<rparr> in Some (j', j' # js))
      else map_option (\<lambda>(r, js'). (r, j # js')) (assign_loop js jid did))"

definition assign_driver :: "db \<Rightarrow> int \<Rightarrow> int \<Rightarrow> legacy_response \<times> db" where
  "assign_driver s jid did =
     (case assign_loop (jobs s) jid did of
        None \<Rightarrow> (LegacyError ''Job not found'', s)
      | Some (j, js) \<Rightarrow> (LegacyMessage ''Driver assigned'' j, s\<lparr>jobs := js\<rparr>))"

text \<open>\<open>POST /complete/{job_id}\<close>: no status check either.\<close>

fun complete_loop :: "job list \<Rightarrow> int \<Rightarrow> (job \<times> job list) option" where
  "complete_loop [] jid = None"
| "complete_loop (j # js) jid =
     (if job_id j = jid then
        (let j' = j\<lparr>status := ''completed''\<rparr> in Some (j', j' # js))
      else map_option (\<lambda>(r, js'). (r, j # js')) (complete_loop js jid))"

definition complete_job :: "db \<Rightarrow> int \<Rightarrow> legacy_response \<times> db" where
  "complete_job s jid =
     (case complete_loop (jobs s) jid of
        None \<Rightarrow> (LegacyError ''Job not found'', s)
      | Some (j, js) \<Rightarrow> (LegacyMessage ''Job completed'' j, s\<lparr>jobs := js\<rparr>))"

text \<open>The predicate of the loops' \<open>if job.id == job_id\<close>.\<close>

abbreviation has_id :: "int \<Rightarrow> job \<Rightarrow> bool" where
  "has_id jid j \<equiv> job_id j = jid"

section \<open>Abstract specification: jobs as a finite map\<close>

text \<open>
  What the repository promises, stated without the list: the jobs form a finite
  map from id to job, and each route is a lookup followed by at most one map
  update. The abstraction reads the job list as a map in which the first job
  with an id wins (the job the scans find), paired with the id counter.
\<close>

type_synonym job_map = "(int \<rightharpoonup> job) \<times> int"

definition abs_db :: "db \<Rightarrow> job_map" where
  "abs_db s = (keyed job_id (jobs s), next_job_id s)"

definition create_spec :: "job_map \<Rightarrow> job_create \<Rightarrow> job \<times> job_map" where
  "create_spec m jc =
     (let j = Job (snd m) (jc_pickup_location jc) (jc_dropoff_location jc) (jc_load_description jc)
      in (j, ((fst m)(snd m \<mapsto> j), snd m + 1)))"

definition accept_spec :: "job_map \<Rightarrow> int \<Rightarrow> int option \<Rightarrow> (http_exception + job) \<times> job_map" where
  "accept_spec m jid did =
     (case fst m jid of
        None \<Rightarrow> (Inl (HTTPException 404 ''Job not found''), m)
      | Some j \<Rightarrow>
          if status j = ''available''
          then (let j' = j\<lparr>status := ''assigned'', driver_id := did\<rparr>
                in (Inr j', ((fst m)(jid \<mapsto> j'), snd m)))
          else (Inl (HTTPException 400 ''Job already assigned or completed''), m))"

definition assign_spec :: "job_map \<Rightarrow> int \<Rightarrow> int \<Rightarrow> legacy_response \<times> job_map" where
  "assign_spec m jid did =
     (case fst m jid of
        None \<Rightarrow> (LegacyError ''Job not found'', m)
      | Some j \<Rightarrow>
          (let j' = j\<lparr>status := ''assigned'', driver_id := Some did\<rparr>
           in (LegacyMessage ''Driver assigned'' j', ((fst m)(jid \<mapsto> j'), snd m))))"

definition complete_spec :: "job_map \<Rightarrow> int \<Rightarrow> legacy_response \<times> job_map" where
  "complete_spec m jid =
     (case fst m jid of
        None \<Rightarrow> (LegacyError ''Job not found'', m)
      | Some j \<Rightarrow>
          (let j' = j\<lparr>status := ''completed''\<rparr>
           in (LegacyMessage ''Job completed'' j', ((fst m)(jid \<mapsto> j'), snd m))))"

section \<open>The loops against their reference forms\<close>

text \<open>
  Each loop is a \<open>find\<close> for the first job with the id, followed by
  \<open>map_first\<close> with the loop body's mutation: the early-exit scan computes the
  same thing as the two library operations.
\<close>

lemma accept_loop_eq:
  "accept_loop js jid did =
     (case find (has_id jid) js of
        None \<Rightarrow> Inl (HTTPException 404 ''Job not found'')
      | Some j \<Rightarrow>
          if status j \<noteq> ''available''
          then Inl (HTTPException 400 ''Job already assigned or completed'')
          else Inr (j\<lparr>status := ''assigned'', driver_id := did\<rparr>,
                    map_first (has_id jid) (\<lambda>j. j\<lparr>status := ''assigned'', driver_id := did\<rparr>) js))"
  by (induction js) (auto simp: Let_def split: option.splits sum.splits)

lemma assign_loop_eq:
  "assign_loop js jid did =
     map_option (\<lambda>j. (j\<lparr>status := ''assigned'', driver_id := Some did\<rparr>,
                      map_first (has_id jid) (\<lambda>j. j\<lparr>status := ''assigned'', driver_id := Some did\<rparr>) js))
       (find (has_id jid) js)"
  by (induction js) (auto simp: Let_def option.map_comp comp_def)

lemma complete_loop_eq:
  "complete_loop js jid =
     map_option (\<lambda>j. (j\<lparr>status := ''completed''\<rparr>,
                      map_first (has_id jid) (\<lambda>j. j\<lparr>status := ''completed''\<rparr>) js))
       (find (has_id jid) js)"
  by (induction js) (auto simp: Let_def option.map_comp comp_def)

lemmas loop_eqs = accept_loop_eq assign_loop_eq complete_loop_eq

section \<open>The handlers in reference form\<close>

lemma accept_job_eq:
  "accept_job s jid did =
     (case find (has_id jid) (jobs s) of
        None \<Rightarrow> (Inl (HTTPException 404 ''Job not found''), s)
      | Some j \<Rightarrow>
          if status j \<noteq> ''available''
          then (Inl (HTTPException 400 ''Job already assigned or completed''), s)
          else (Inr (j\<lparr>status := ''assigned'', driver_id := did\<rparr>),
                s\<lparr>jobs := map_first (has_id jid) (\<lambda>j. j\<lparr>status := ''assigned'', driver_id := did\<rparr>) (jobs s)\<rparr>))"
  by (simp add: accept_job_def accept_loop_eq split: option.split)

lemma assign_driver_eq:
  "assign_driver s jid did =
     (case find (has_id jid) (jobs s) of
        None \<Rightarrow> (LegacyError ''Job not found'', s)
      | Some j \<Rightarrow>
          (LegacyMessage ''Driver assigned'' (j\<lparr>status := ''assigned'', driver_id := Some did\<rparr>),
           s\<lparr>jobs := map_first (has_id jid) (\<lambda>j. j\<lparr>status := ''assigned'', driver_id := Some did\<rparr>) (jobs s)\<rparr>))"
  by (simp add: assign_driver_def assign_loop_eq split: option.split)

lemma complete_job_eq:
  "complete_job s jid =
     (case find (has_id jid) (jobs s) of
        None \<Rightarrow> (LegacyError ''Job not found'', s)
      | Some j \<Rightarrow>
          (LegacyMessage ''Job completed'' (j\<lparr>status := ''completed''\<rparr>),
           s\<lparr>jobs := map_first (has_id jid) (\<lambda>j. j\<lparr>status := ''completed''\<rparr>) (jobs s)\<rparr>))"
  by (simp add: complete_job_def complete_loop_eq split: option.split)

lemma create_job_eq:
  "create_job s jc =
     (let j = Job (next_job_id s) (jc_pickup_location jc) (jc_dropoff_location jc) (jc_load_description jc)
      in (j, s\<lparr>jobs := jobs s @ [j], next_job_id := next_job_id s + 1\<rparr>))"
  by (simp add: create_job_def Job_def Let_def)

lemmas handler_eqs = accept_job_eq assign_driver_eq complete_job_eq

section \<open>Frame: what the handlers leave alone\<close>

lemma handlers_drivers [frame_simps]:
  "drivers (snd (create_job s jc)) = drivers s"
  "drivers (snd (accept_job s jid d)) = drivers s"
  "drivers (snd (assign_driver s jid did)) = drivers s"
  "drivers (snd (complete_job s jid)) = drivers s"
  by (simp_all add: create_job_def Let_def handler_eqs split: option.split)

lemma handlers_next_job_id [frame_simps]:
  "next_job_id (snd (accept_job s jid d)) = next_job_id s"
  "next_job_id (snd (assign_driver s jid did)) = next_job_id s"
  "next_job_id (snd (complete_job s jid)) = next_job_id s"
  by (simp_all add: handler_eqs split: option.split)

lemma handlers_job_ids [frame_simps]:
  "map job_id (jobs (snd (accept_job s jid d))) = map job_id (jobs s)"
  "map job_id (jobs (snd (assign_driver s jid did))) = map job_id (jobs s)"
  "map job_id (jobs (snd (complete_job s jid))) = map job_id (jobs s)"
  by (simp_all add: handler_eqs map_map_first_key split: option.split)

section \<open>Well-formedness is kept\<close>

text \<open>
  The three mutating scans replace one job by an updated copy with the same id;
  such an update keeps the invariant as soon as the updated job is well-formed.
\<close>

lemma wf_db_map_first:
  assumes "wf_db s" and "\<And>x. job_id (f x) = job_id x" and "\<And>x. job_ok x \<Longrightarrow> job_ok (f x)"
  shows "wf_db (s\<lparr>jobs := map_first P f (jobs s)\<rparr>)"
proof -
  have "map job_id (map_first P f (jobs s)) = map job_id (jobs s)"
    using assms(2) by (rule map_map_first_key)
  moreover have "list_all (\<lambda>j. job_id j < next_job_id s) (map_first P f (jobs s))"
    using assms(1,2) by (intro list_all_map_first) (auto simp: wf_db_def ids_fresh_def)
  moreover have "list_all job_ok (map_first P f (jobs s))"
    using assms(1,3) by (intro list_all_map_first) (auto simp: wf_db_def)
  ultimately show ?thesis
    using assms(1) by (simp add: wf_db_def ids_fresh_def)
qed

lemma job_ok_assigned [simp]: "job_ok (j\<lparr>status := ''assigned'', driver_id := d\<rparr>)"
  by (simp add: job_ok_def valid_status_def)

lemma job_ok_completed [simp]: "job_ok j \<Longrightarrow> job_ok (j\<lparr>status := ''completed''\<rparr>)"
  by (simp add: job_ok_def valid_status_def)

section \<open>Functional behaviour of each route, errors included\<close>

text \<open>
  C3: accepting a job whose id no job has raises \<open>HTTPException(404, "Job not
  found")\<close> and leaves the database as it was.
\<close>

theorem accept_job_not_found:
  "jid \<notin> job_id ` set (jobs s) \<Longrightarrow>
   accept_job s jid did = (Inl (HTTPException 404 ''Job not found''), s)"
  by (simp add: accept_job_eq find_key_None)

theorem accept_job_not_found_witness:
  "9 \<notin> job_id ` set (jobs initial_db) \<and>
   accept_job initial_db 9 None = (Inl (HTTPException 404 ''Job not found''), initial_db)"
  using accept_job_not_found [of 9 initial_db None]
  by (simp add: initial_db_def seed_jobs_def)

text \<open>
  C4: accepting a job that is no longer \<open>available\<close> raises
  \<open>HTTPException(400, "Job already assigned or completed")\<close> and changes nothing:
  the check comes before either write of the loop body.
\<close>

theorem accept_job_not_available:
  "distinct (map job_id (jobs s)) \<Longrightarrow> j \<in> set (jobs s) \<Longrightarrow> status j \<noteq> ''available'' \<Longrightarrow>
   accept_job s (job_id j) did = (Inl (HTTPException 400 ''Job already assigned or completed''), s)"
  by (simp add: accept_job_eq find_key_distinct)

theorem accept_job_not_available_witness:
  "distinct (map job_id [Job 1 ''a'' ''b'' ''c''\<lparr>status := ''completed''\<rparr>]) \<and>
   Job 1 ''a'' ''b'' ''c''\<lparr>status := ''completed''\<rparr> \<in> set [Job 1 ''a'' ''b'' ''c''\<lparr>status := ''completed''\<rparr>] \<and>
   status (Job 1 ''a'' ''b'' ''c''\<lparr>status := ''completed''\<rparr>) \<noteq> ''available'' \<and>
   accept_job (initial_db\<lparr>jobs := [Job 1 ''a'' ''b'' ''c''\<lparr>status := ''completed''\<rparr>]\<rparr>) 1 (Some 2) =
     (Inl (HTTPException 400 ''Job already assigned or completed''),
      initial_db\<lparr>jobs := [Job 1 ''a'' ''b'' ''c''\<lparr>status := ''completed''\<rparr>]\<rparr>)"
  using accept_job_not_available
          [of "initial_db\<lparr>jobs := [Job 1 ''a'' ''b'' ''c''\<lparr>status := ''completed''\<rparr>]\<rparr>"
              "Job 1 ''a'' ''b'' ''c''\<lparr>status := ''completed''\<rparr>" "Some 2"]
  by simp

text \<open>
  C5: accepting an \<open>available\<close> job (ids being distinct) returns the job with
  status \<open>assigned\<close> and the given, unchecked, driver id, and the job list is
  the old one with exactly that job replaced.
\<close>

theorem accept_job_available:
  "distinct (map job_id (jobs s)) \<Longrightarrow> j \<in> set (jobs s) \<Longrightarrow> status j = ''available'' \<Longrightarrow>
   accept_job s (job_id j) did =
     (Inr (j\<lparr>status := ''assigned'', driver_id := did\<rparr>),
      s\<lparr>jobs := map (\<lambda>x. if job_id x = job_id j then x\<lparr>status := ''assigned'', driver_id := did\<rparr> else x)
                   (jobs s)\<rparr>)"
  by (simp add: accept_job_eq find_key_distinct map_first_distinct)

theorem accept_job_available_witness:
  "distinct (map job_id (jobs initial_db)) \<and> hd seed_jobs \<in> set (jobs initial_db) \<and>
   status (hd seed_jobs) = ''available'' \<and>
   accept_job initial_db 1 (Some 7) =
     (Inr ((hd seed_jobs)\<lparr>status := ''assigned'', driver_id := Some 7\<rparr>),
      initial_db\<lparr>jobs := [(hd seed_jobs)\<lparr>status := ''assigned'', driver_id := Some 7\<rparr>, seed_jobs ! 1]\<rparr>)"
  using accept_job_available [of initial_db "hd seed_jobs" "Some 7"]
  by (simp add: initial_db_def seed_jobs_def)

text \<open>
  C6: creating a job (the ids being fresh) returns a job whose id is strictly
  greater than every id issued before, with status \<open>available\<close>, no driver
  and the body's three strings; it is appended at the end of the job list, so
  \<open>GET /jobs\<close> lists it afterwards, and the counter moves past it.
\<close>

theorem create_job_fresh:
  assumes "ids_fresh s" and "create_job s jc = (j, s')"
  shows "(\<forall>i\<in>set (jobs s). job_id i < job_id j) \<and> status j = ''available'' \<and> driver_id j = None \<and>
         pickup_location j = jc_pickup_location jc \<and> dropoff_location j = jc_dropoff_location jc \<and>
         load_description j = jc_load_description jc \<and>
         jobs s' = jobs s @ [j] \<and> next_job_id s' = job_id j + 1 \<and> drivers s' = drivers s"
  using assms by (auto simp: create_job_eq Let_def ids_fresh_def list_all_iff)

theorem create_job_fresh_witness:
  "ids_fresh initial_db \<and>
   create_job initial_db \<lparr>jc_pickup_location = ''A'', jc_dropoff_location = ''B'', jc_load_description = ''C''\<rparr> =
     (Job 3 ''A'' ''B'' ''C'',
      initial_db\<lparr>jobs := seed_jobs @ [Job 3 ''A'' ''B'' ''C''], next_job_id := 4\<rparr>) \<and>
   list_all (\<lambda>i. job_id i < job_id (Job 3 ''A'' ''B'' ''C'')) (jobs initial_db)"
proof -
  have fresh: "ids_fresh initial_db"
    by (simp add: ids_fresh_def initial_db_def seed_jobs_def)
  have run: "create_job initial_db \<lparr>jc_pickup_location = ''A'', jc_dropoff_location = ''B'', jc_load_description = ''C''\<rparr> =
     (Job 3 ''A'' ''B'' ''C'', initial_db\<lparr>jobs := seed_jobs @ [Job 3 ''A'' ''B'' ''C''], next_job_id := 4\<rparr>)"
    by (simp add: create_job_eq Let_def initial_db_def)
  show ?thesis
    using fresh run create_job_fresh [OF fresh run] by (simp add: list_all_iff)
qed

text \<open>
  C7: the older \<open>assign_driver\<close> route has no status precondition: on any job
  with the id, \<open>completed\<close> ones included, it sets status \<open>assigned\<close> and the
  driver, and answers with the message-wrapped job.
\<close>

theorem assign_driver_found:
  "distinct (map job_id (jobs s)) \<Longrightarrow> j \<in> set (jobs s) \<Longrightarrow>
   assign_driver s (job_id j) did =
     (LegacyMessage ''Driver assigned'' (j\<lparr>status := ''assigned'', driver_id := Some did\<rparr>),
      s\<lparr>jobs := map (\<lambda>x. if job_id x = job_id j then x\<lparr>status := ''assigned'', driver_id := Some did\<rparr> else x)
                   (jobs s)\<rparr>)"
  by (simp add: assign_driver_eq find_key_distinct map_first_distinct)

theorem assign_driver_found_witness:
  "distinct (map job_id [Job 1 ''a'' ''b'' ''c''\<lparr>status := ''completed''\<rparr>]) \<and>
   Job 1 ''a'' ''b'' ''c''\<lparr>status := ''completed''\<rparr> \<in> set [Job 1 ''a'' ''b'' ''c''\<lparr>status := ''completed''\<rparr>] \<and>
   assign_driver (initial_db\<lparr>jobs := [Job 1 ''a'' ''b'' ''c''\<lparr>status := ''completed''\<rparr>]\<rparr>) 1 5 =
     (LegacyMessage ''Driver assigned'' (Job 1 ''a'' ''b'' ''c''\<lparr>status := ''assigned'', driver_id := Some 5\<rparr>),
      initial_db\<lparr>jobs := [Job 1 ''a'' ''b'' ''c''\<lparr>status := ''assigned'', driver_id := Some 5\<rparr>]\<rparr>)"
  using assign_driver_found
          [of "initial_db\<lparr>jobs := [Job 1 ''a'' ''b'' ''c''\<lparr>status := ''completed''\<rparr>]\<rparr>"
              "Job 1 ''a'' ''b'' ''c''\<lparr>status := ''completed''\<rparr>" 5]
  by simp

text \<open>
  C8: \<open>complete_job\<close> has no status precondition either: it sets
  \<open>completed\<close> on any job with the id, an \<open>available\<close> one that was never
  accepted included, and keeps its driver as it was.
\<close>

theorem complete_job_found:
  "distinct (map job_id (jobs s)) \<Longrightarrow> j \<in> set (jobs s) \<Longrightarrow>
   complete_job s (job_id j) =
     (LegacyMessage ''Job completed'' (j\<lparr>status := ''completed''\<rparr>),
      s\<lparr>jobs := map (\<lambda>x. if job_id x = job_id j then x\<lparr>status := ''completed''\<rparr> else x) (jobs s)\<rparr>)"
  by (simp add: complete_job_eq find_key_distinct map_first_distinct)

theorem complete_job_found_witness:
  "distinct (map job_id (jobs initial_db)) \<and> seed_jobs ! 1 \<in> set (jobs initial_db) \<and>
   status (seed_jobs ! 1) = ''available'' \<and>
   complete_job initial_db 2 =
     (LegacyMessage ''Job completed'' ((seed_jobs ! 1)\<lparr>status := ''completed''\<rparr>),
      initial_db\<lparr>jobs := [hd seed_jobs, (seed_jobs ! 1)\<lparr>status := ''completed''\<rparr>]\<rparr>)"
  using complete_job_found [of initial_db "seed_jobs ! 1"]
  by (simp add: initial_db_def seed_jobs_def)

text \<open>
  C9: on an unknown id the two older routes answer with the error payload
  \<open>{"error": "Job not found"}\<close> (a normal response, not an HTTP error) and leave
  the database unchanged.
\<close>

theorem legacy_routes_not_found:
  "jid \<notin> job_id ` set (jobs s) \<Longrightarrow>
   assign_driver s jid did = (LegacyError ''Job not found'', s) \<and>
   complete_job s jid = (LegacyError ''Job not found'', s)"
  by (simp add: assign_driver_eq complete_job_eq find_key_None)

theorem legacy_routes_not_found_witness:
  "0 \<notin> job_id ` set (jobs initial_db) \<and>
   assign_driver initial_db 0 1 = (LegacyError ''Job not found'', initial_db) \<and>
   complete_job initial_db 0 = (LegacyError ''Job not found'', initial_db)"
  using legacy_routes_not_found [of 0 initial_db 1]
  by (simp add: initial_db_def seed_jobs_def)

section \<open>Each handler keeps the invariant\<close>

text \<open>
  \<open>create_job\<close> keeps the database well-formed: the counter's value is an id
  no job has, and the new job is \<open>available\<close> with no driver. The three
  scans keep it on every branch: an accepted or assigned job gets a valid status
  that is not \<open>available\<close>, so storing the (unchecked, possibly absent) driver
  id is consistent, and \<open>completed\<close> keeps whatever driver the job had
  consistent too.
\<close>

lemma create_job_wf: "wf_db s \<Longrightarrow> wf_db (snd (create_job s jc))"
  by (auto simp: create_job_eq Let_def wf_db_def ids_fresh_def list_all_iff)


lemma accept_job_wf: "wf_db s \<Longrightarrow> wf_db (snd (accept_job s jid did))"
  by (auto simp: accept_job_eq intro: wf_db_map_first split: option.split)


lemma assign_driver_wf: "wf_db s \<Longrightarrow> wf_db (snd (assign_driver s jid did))"
  by (auto simp: assign_driver_eq intro: wf_db_map_first split: option.split)


lemma complete_job_wf: "wf_db s \<Longrightarrow> wf_db (snd (complete_job s jid))"
  by (auto simp: complete_job_eq intro: wf_db_map_first split: option.split)

lemmas handlers_wf = create_job_wf accept_job_wf assign_driver_wf complete_job_wf


section \<open>Refinement of the map specification\<close>

text \<open>
  The scans read the first job with the id, and the abstraction reads the list
  the same way, so the three scanning routes implement their map specifications
  on every database, without any hypothesis on the ids.
\<close>

lemma abs_db_map_first:
  "(\<And>x. job_id (f x) = job_id x) \<Longrightarrow>
   abs_db (s\<lparr>jobs := map_first (has_id jid) f (jobs s)\<rparr>) =
     (case find (has_id jid) (jobs s) of
        None \<Rightarrow> abs_db s
      | Some j \<Rightarrow> ((fst (abs_db s))(jid \<mapsto> f j), snd (abs_db s)))"
  by (simp add: abs_db_def keyed_map_first keyed_find split: option.split)

text \<open>
  C10: \<open>accept_job\<close> refines \<open>accept_spec\<close>: mapping the abstraction over
  the handler's new database gives the specification's result and map.
\<close>

theorem accept_job_refines:
  "map_prod id abs_db (accept_job s jid did) = accept_spec (abs_db s) jid did"
  by (simp add: accept_job_eq accept_spec_def abs_db_map_first Let_def split: option.split)
     (auto simp: abs_db_def keyed_find)

text \<open>C11: \<open>assign_driver\<close> refines \<open>assign_spec\<close>.\<close>

theorem assign_driver_refines:
  "map_prod id abs_db (assign_driver s jid did) = assign_spec (abs_db s) jid did"
  by (simp add: assign_driver_eq assign_spec_def abs_db_map_first Let_def split: option.split)
     (simp add: abs_db_def keyed_find)

text \<open>C12: \<open>complete_job\<close> refines \<open>complete_spec\<close>.\<close>

theorem complete_job_refines:
  "map_prod id abs_db (complete_job s jid) = complete_spec (abs_db s) jid"
  by (simp add: complete_job_eq complete_spec_def abs_db_map_first Let_def split: option.split)
     (simp add: abs_db_def keyed_find)

text \<open>
  C13: \<open>create_job\<close> refines \<open>create_spec\<close> as long as the counter is
  fresh: appending to the list is a map update only because no job has the
  counter's id yet.
\<close>

theorem create_job_refines:
  "ids_fresh s \<Longrightarrow> map_prod id abs_db (create_job s jc) = create_spec (abs_db s) jc"
proof -
  assume fresh: "ids_fresh s"
  then have "next_job_id s \<notin> dom (keyed job_id (jobs s))"
    by (auto simp: ids_fresh_def list_all_iff)
  then show ?thesis
    by (simp add: create_job_eq create_spec_def abs_db_def Let_def map_add_upd_left)
qed

theorem create_job_refines_witness:
  "ids_fresh initial_db \<and>
   map_prod id abs_db (create_job initial_db \<lparr>jc_pickup_location = ''A'', jc_dropoff_location = ''B'', jc_load_description = ''C''\<rparr>) =
   create_spec (abs_db initial_db) \<lparr>jc_pickup_location = ''A'', jc_dropoff_location = ''B'', jc_load_description = ''C''\<rparr>"
proof -
  have fresh: "ids_fresh initial_db"
    by (simp add: ids_fresh_def initial_db_def seed_jobs_def)
  show ?thesis using fresh create_job_refines [OF fresh] by simp
qed

end
