(* ===== verification/Router.thy ===== *)
theory Router
  imports Jobs "HOL-Library.Monad_Syntax"
begin

text \<open>
  The request router of \<open>src/main.py\<close>: the seven \<open>@app.get\<close>/\<open>@app.post\<close>
  routes as a datatype of requests, the JSON wire format of the pydantic models,
  the dispatcher \<open>handle\<close> that runs one handler and serialises its result with
  its status code, sequential runs of requests, and the states the server can
  reach from its seed data. Path and query parameters arrive already converted
  to \<open>int\<close> (FastAPI's conversion is not modelled); the body of \<open>POST /jobs\<close>
  arrives as JSON and is validated against \<open>JobCreate\<close>, and a body that does
  not validate is answered with 422 without reaching \<open>create_job\<close>.
\<close>

section \<open>JSON values and the models' encodings\<close>

datatype json = JNull | JInt int | JStr string | JArr "json list" | JObj "(string \<times> json) list"

text \<open>The JSON object a \<open>Job\<close> serialises to: its fields, \<open>driver_id\<close> as \<open>null\<close> when absent.\<close>

definition job_json :: "job \<Rightarrow> json" where
  "job_json j =
     JObj [(''id'', JInt (job_id j)),
           (''pickup_location'', JStr (pickup_location j)),
           (''dropoff_location'', JStr (dropoff_location j)),
           (''load_description'', JStr (load_description j)),
           (''status'', JStr (status j)),
           (''driver_id'', case driver_id j of None \<Rightarrow> JNull | Some d \<Rightarrow> JInt d)]"

definition driver_json :: "driver \<Rightarrow> json" where
  "driver_json d =
     JObj [(''id'', JInt (drv_id d)), (''name'', JStr (name d)),
           (''current_location'', JStr (current_location d))]"

definition job_create_json :: "job_create \<Rightarrow> json" where
  "job_create_json jc =
     JObj [(''pickup_location'', JStr (jc_pickup_location jc)),
           (''dropoff_location'', JStr (jc_dropoff_location jc)),
           (''load_description'', JStr (jc_load_description jc))]"

text \<open>
  Validation of a JSON value against a model, field by field: a required field
  must be present with the declared type, a field with a default may be absent.
  Only the canonical JSON type of each field is accepted (pydantic's lax
  coercions, such as a numeric string for an \<open>int\<close>, are not modelled).
\<close>

text \<open>
  A field of a JSON object: \<open>json.loads\<close> keeps the last of repeated keys.
\<close>

definition json_field :: "(string \<times> json) list \<Rightarrow> string \<Rightarrow> json option" where
  [simp]: "json_field kvs k = map_of (rev kvs) k"

fun req_str :: "json option \<Rightarrow> string option" where
  "req_str (Some (JStr x)) = Some x"
| "req_str _ = None"

fun req_int :: "json option \<Rightarrow> int option" where
  "req_int (Some (JInt x)) = Some x"
| "req_int _ = None"

fun str_default :: "string \<Rightarrow> json option \<Rightarrow> string option" where
  "str_default dflt None = Some dflt"
| "str_default dflt (Some (JStr x)) = Some x"
| "str_default dflt (Some _) = None"

fun opt_int :: "json option \<Rightarrow> int option option" where
  "opt_int None = Some None"
| "opt_int (Some JNull) = Some None"
| "opt_int (Some (JInt x)) = Some (Some x)"
| "opt_int (Some _) = None"

fun parse_job_create :: "json \<Rightarrow> job_create option" where
  "parse_job_create (JObj kvs) =
     do { p \<leftarrow> req_str (json_field kvs ''pickup_location'');
          d \<leftarrow> req_str (json_field kvs ''dropoff_location'');
          l \<leftarrow> req_str (json_field kvs ''load_description'');
          Some \<lparr>jc_pickup_location = p, jc_dropoff_location = d, jc_load_description = l\<rparr> }"
| "parse_job_create _ = None"

fun parse_job :: "json \<Rightarrow> job option" where
  "parse_job (JObj kvs) =
     do { i \<leftarrow> req_int (json_field kvs ''id'');
          p \<leftarrow> req_str (json_field kvs ''pickup_location'');
          d \<leftarrow> req_str (json_field kvs ''dropoff_location'');
          l \<leftarrow> req_str (json_field kvs ''load_description'');
          st \<leftarrow> str_default ''available'' (json_field kvs ''status'');
          did \<leftarrow> opt_int (json_field kvs ''driver_id'');
          Some \<lparr>job_id = i, pickup_location = p, dropoff_location = d,
                load_description = l, status = st, driver_id = did\<rparr> }"
| "parse_job _ = None"

fun parse_driver :: "json \<Rightarrow> driver option" where
  "parse_driver (JObj kvs) =
     do { i \<leftarrow> req_int (json_field kvs ''id'');
          n \<leftarrow> req_str (json_field kvs ''name'');
          c \<leftarrow> req_str (json_field kvs ''current_location'');
          Some \<lparr>drv_id = i, name = n, current_location = c\<rparr> }"
| "parse_driver _ = None"

section \<open>Requests and responses\<close>

text \<open>One constructor per route, in the order of the source.\<close>

datatype request =
    Home
  | GetJobs
  | PostJobs json
  | AcceptJob int "int option"
  | AssignDriver int int
  | CompleteJob int
  | GetDrivers

text \<open>
  A response is a status code with a JSON body, FastAPI's request-validation
  failure (status 422; its list of error details is not modelled), or one of
  the documentation pages FastAPI generates for the application from its
  metadata (\<open>/openapi.json\<close>, \<open>/docs\<close>, \<open>/docs/oauth2-redirect\<close>,
  \<open>/redoc\<close>; status 200, their content is not modelled), or Starlette's
  redirect (status 307) to the same URL with another path, given with the query,
  or the internal server error (status 500) that FastAPI's
  \<open>ResponseValidationError\<close> becomes when a route's return value does not
  validate against its \<open>response_model\<close>.
\<close>

record app_info =
  app_title :: string
  app_description :: string
  app_version :: string

datatype docs_page = OpenApiJson | SwaggerUI | SwaggerUIOAuth2Redirect | ReDoc

datatype response =
    Response nat json
  | UnprocessableEntity
  | DocsPage docs_page app_info
  | RedirectResponse string "(string \<times> string) list"
  | InternalServerError

fun status_code_of :: "response \<Rightarrow> nat" where
  "status_code_of (Response c _) = c"
| "status_code_of UnprocessableEntity = 422"
| "status_code_of (DocsPage p i) = 200"
| "status_code_of (RedirectResponse p q) = 307"
| "status_code_of InternalServerError = 500"

text \<open>FastAPI renders a raised \<open>HTTPException\<close> as its code with body \<open>{"detail": ...}\<close>.\<close>

fun http_exception_response :: "http_exception \<Rightarrow> response" where
  "http_exception_response (HTTPException c d) = Response c (JObj [(''detail'', JStr d)])"

fun legacy_json :: "legacy_response \<Rightarrow> json" where
  "legacy_json (LegacyMessage m j) = JObj [(''message'', JStr m), (''job'', job_json j)]"
| "legacy_json (LegacyError e) = JObj [(''error'', JStr e)]"

section \<open>Dispatch\<close>

fun handle :: "db \<Rightarrow> request \<Rightarrow> response \<times> db" where
  "handle s Home = (let (m, s') = home s in (Response 200 (JObj [(''message'', JStr m)]), s'))"
| "handle s GetJobs = (let (js, s') = get_jobs s in (Response 200 (JArr (map job_json js)), s'))"
| "handle s (PostJobs body) =
     (case parse_job_create body of
        None \<Rightarrow> (UnprocessableEntity, s)
      | Some jc \<Rightarrow> (let (j, s') = create_job s jc in (Response 200 (job_json j), s')))"
| "handle s (AcceptJob jid did) =
     (case accept_job s jid did of
        (Inl e, s') \<Rightarrow> (http_exception_response e, s')
      | (Inr j, s') \<Rightarrow> (Response 200 (job_json j), s'))"
| "handle s (AssignDriver jid did) =
     (let (r, s') = assign_driver s jid did in (Response 200 (legacy_json r), s'))"
| "handle s (CompleteJob jid) =
     (let (r, s') = complete_job s jid in (Response 200 (legacy_json r), s'))"
| "handle s GetDrivers =
     (let (ds, s') = get_drivers s in (Response 200 (JArr (map driver_json ds)), s'))"

text \<open>Requests served one after the other, each handler running to completion.\<close>

fun run :: "db \<Rightarrow> request list \<Rightarrow> response list \<times> db" where
  "run s [] = ([], s)"
| "run s (r # rs) = (let (a, s') = handle s r; (as, s'') = run s' rs in (a # as, s''))"

text \<open>The states the server reaches from its seed data.\<close>

inductive reachable :: "db \<Rightarrow> bool" where
  init: "reachable initial_db"
| step: "reachable s \<Longrightarrow> reachable (snd (handle s r))"

text \<open>The routes that only read.\<close>

fun read_only :: "request \<Rightarrow> bool" where
  "read_only Home = True"
| "read_only GetJobs = True"
| "read_only GetDrivers = True"
| "read_only _ = False"

text \<open>
  FastAPI validates what a route with a \<open>response_model\<close> returns against that
  model before it serialises it, and answers 500 when validation fails:
  \<open>GET /jobs\<close> and \<open>GET /drivers\<close> declare lists of \<open>Job\<close> and \<open>Driver\<close>,
  \<open>POST /jobs\<close> and the accept route a \<open>Job\<close>; the other routes declare none.
\<close>

fun response_model_ok :: "request \<Rightarrow> json \<Rightarrow> bool" where
  "response_model_ok GetJobs (JArr vs) = list_all (\<lambda>v. parse_job v \<noteq> None) vs"
| "response_model_ok GetJobs _ = False"
| "response_model_ok (PostJobs b) v = (parse_job v \<noteq> None)"
| "response_model_ok (AcceptJob jid did) v = (parse_job v \<noteq> None)"
| "response_model_ok GetDrivers (JArr vs) = list_all (\<lambda>v. parse_driver v \<noteq> None) vs"
| "response_model_ok GetDrivers _ = False"
| "response_model_ok _ v = True"

text \<open>
  FastAPI's \<open>serialize_response\<close>, applied to what a route returns (an
  answer 200; a raised \<open>HTTPException\<close> or a 422 does not reach it): the
  value is validated against the route's \<open>response_model\<close>, and a value that
  does not validate raises \<open>ResponseValidationError\<close>, a 500. The handler's
  effect on the state has already happened.
\<close>

definition serialize_response :: "request \<Rightarrow> response \<times> db \<Rightarrow> response \<times> db" where
  "serialize_response r x =
     (case x of
        (Response c b, s') \<Rightarrow> if c = 200 \<and> \<not> response_model_ok r b then (InternalServerError, s') else x
      | _ \<Rightarrow> x)"

section \<open>The state effect of a request\<close>

text \<open>Which handler's state a request leaves behind; the responses play no part.\<close>

lemma handle_state:
  "snd (handle s r) =
     (case r of
        PostJobs body \<Rightarrow> (case parse_job_create body of None \<Rightarrow> s | Some jc \<Rightarrow> snd (create_job s jc))
      | AcceptJob jid did \<Rightarrow> snd (accept_job s jid did)
      | AssignDriver jid did \<Rightarrow> snd (assign_driver s jid did)
      | CompleteJob jid \<Rightarrow> snd (complete_job s jid)
      | _ \<Rightarrow> s)"
  by (cases r)
     (auto simp: read_handler_defs split_def Let_def split: option.split sum.split)

lemma handle_wf: "wf_db s \<Longrightarrow> wf_db (snd (handle s r))"
  by (simp add: handle_state handlers_wf split: request.split option.split)

lemma handle_ids_upto:
  assumes "map job_id (jobs s) = [1..next_job_id s - 1]" and "1 \<le> next_job_id s"
  shows "map job_id (jobs (snd (handle s r))) = [1..next_job_id (snd (handle s r)) - 1] \<and>
         1 \<le> next_job_id (snd (handle s r))"
  using assms
  by (auto simp: handle_state frame_simps create_job_eq Let_def
                 upto_rec2 [of 1 "next_job_id s"] split: request.split option.split)

lemma handle_drivers: "drivers (snd (handle s r)) = drivers s"
  by (simp add: handle_state frame_simps split: request.split option.split)

text \<open>
  Everything the reachable states have in common, proved in one rule induction:
  the database is well-formed, the ids are \<open>1, 2, \<dots>\<close> up to one below the
  counter, in order (jobs are only ever appended, with the counter's id), and
  the drivers are the seed drivers.
\<close>

lemma reachable_inv:
  "reachable s \<Longrightarrow> wf_db s \<and> map job_id (jobs s) = [1..next_job_id s - 1] \<and> 1 \<le> next_job_id s \<and>
                   drivers s = seed_drivers"
proof (induction rule: reachable.induct)
  case init
  show ?case
    by (simp add: initial_db_def seed_jobs_def wf_db_def ids_fresh_def upto.simps)
next
  case (step s r)
  then show ?case
    by (simp add: handle_wf handle_ids_upto handle_drivers)
qed

lemma run_reachable: "reachable s \<Longrightarrow> reachable (snd (run s rs))"
  by (induction rs arbitrary: s) (auto simp: split_def Let_def intro: reachable.step)

lemma parse_job_create_None:
  "parse_job_create (JObj kvs) = None \<longleftrightarrow>
   req_str (json_field kvs ''pickup_location'') = None \<or> req_str (json_field kvs ''dropoff_location'') = None \<or>
   req_str (json_field kvs ''load_description'') = None"
  by (auto split: Option.bind_splits)

lemma parse_driver_json [simp]: "parse_driver (driver_json d) = Some d"
  by (simp add: driver_json_def json_field_def)

lemma parse_job_json [simp]: "parse_job (job_json j) = Some j"
  by (cases "driver_id j") (simp_all add: job_json_def json_field_def)

lemma accept_job_error_not_ok:
  "fst (accept_job s jid did) = Inl e \<Longrightarrow> http_exception_response e \<noteq> Response 200 b"
  by (auto simp: accept_job_eq split: option.splits if_splits)

text \<open>What a handler returns always validates against its route's model, so \<open>serialize_response\<close> passes it on.\<close>

lemma serialize_handle [simp]: "serialize_response r (handle s r) = handle s r"
  by (cases r)
     (auto simp: serialize_response_def read_handler_defs list_all_iff split_def Let_def accept_job_error_not_ok
           split: option.splits sum.splits prod.splits response.splits)

lemma handle_status: "status_code_of (fst (handle s r)) \<in> {200, 400, 404, 422}"
  by (cases r) (auto simp: accept_job_eq split_def Let_def split: option.splits if_splits)

lemma req_str_None: "req_str x = None \<longleftrightarrow> (\<forall>v. x \<noteq> Some (JStr v))"
  by (cases x rule: req_str.cases) auto

section \<open>Properties of the router\<close>

text \<open>
  C1: in every state the server can reach, the database is well-formed: job ids
  are distinct and below the id counter, every status is one of
  \<open>available\<close>, \<open>assigned\<close>, \<open>completed\<close>, and no \<open>available\<close> job has a
  driver.
\<close>

theorem reachable_wf: "reachable s \<Longrightarrow> wf_db s"
  by (simp add: reachable_inv)

theorem reachable_wf_witness:
  "reachable (snd (handle initial_db (AcceptJob 1 (Some 2)))) \<and>
   wf_db (snd (handle initial_db (AcceptJob 1 (Some 2))))"
proof -
  have r: "reachable (snd (handle initial_db (AcceptJob 1 (Some 2))))"
    by (rule reachable.step [OF reachable.init])
  show ?thesis using r reachable_wf [OF r] by simp
qed

text \<open>
  The read-only routes (\<open>GET /\<close>, \<open>GET /jobs\<close>, \<open>GET /drivers\<close>) do not
  change the state, and repeating one of them any number of times gives the same
  response every time.
\<close>

theorem read_only_idempotent:
  "read_only r \<Longrightarrow> snd (handle s r) = s \<and> run s (replicate n r) = (replicate n (fst (handle s r)), s)"
proof -
  assume ro: "read_only r"
  then have same: "snd (handle s r) = s"
    by (auto simp: handle_state split: request.split)
  have "run s (replicate n r) = (replicate n (fst (handle s r)), s)"
  proof (induction n)
    case 0
    then show ?case by simp
  next
    case (Suc n)
    then show ?case
      using same by (simp add: split_def Let_def)
  qed
  with same show ?thesis by simp
qed

theorem read_only_idempotent_witness:
  "read_only GetJobs \<and> snd (handle initial_db GetJobs) = initial_db \<and>
   run initial_db [GetJobs, GetJobs] =
     ([fst (handle initial_db GetJobs), fst (handle initial_db GetJobs)], initial_db)"
  using read_only_idempotent [of GetJobs initial_db 2]
  by (simp add: numeral_2_eq_2)

text \<open>
  The body of \<open>POST /jobs\<close> that a client builds from a \<open>JobCreate\<close>
  validates back to the same \<open>JobCreate\<close>.
\<close>

theorem parse_job_create_roundtrip: "parse_job_create (job_create_json jc) = Some jc"
  by (simp add: job_create_json_def json_field_def)

text \<open>
  The JSON a \<open>Job\<close> is served as validates against the \<open>Job\<close> model and
  gives back the same job, \<open>driver_id\<close> included whether it is set or null.
\<close>

theorem parse_job_roundtrip: "parse_job (job_json j) = Some j"
  by (rule parse_job_json)

text \<open>
  A \<open>POST /jobs\<close> body that lacks one of the three fields, or has one that
  is not a string (the last value counting when a key is repeated), is refused
  with 422 before \<open>create_job\<close> runs: nothing is appended and the id counter
  does not move.
\<close>

theorem post_jobs_invalid_body:
  "\<exists>f\<in>{''pickup_location'', ''dropoff_location'', ''load_description''}. \<forall>v. json_field kvs f \<noteq> Some (JStr v) \<Longrightarrow>
   handle s (PostJobs (JObj kvs)) = (UnprocessableEntity, s)"
proof -
  assume "\<exists>f\<in>{''pickup_location'', ''dropoff_location'', ''load_description''}. \<forall>v. json_field kvs f \<noteq> Some (JStr v)"
  then have "parse_job_create (JObj kvs) = None"
    unfolding parse_job_create_None req_str_None by blast
  then show ?thesis by simp
qed

theorem post_jobs_invalid_body_witness:
  "json_field [(''pickup_location'', JStr ''A''), (''dropoff_location'', JStr ''B''), (''load_description'', JStr ''C''),
               (''dropoff_location'', JInt 5)] ''dropoff_location'' = Some (JInt 5) \<and>
   handle initial_db (PostJobs (JObj [(''pickup_location'', JStr ''A''), (''dropoff_location'', JStr ''B''),
                                      (''load_description'', JStr ''C''), (''dropoff_location'', JInt 5)])) =
     (UnprocessableEntity, initial_db)"
proof -
  have h: "\<exists>f\<in>{''pickup_location'', ''dropoff_location'', ''load_description''}.
      \<forall>v. json_field [(''pickup_location'', JStr ''A''), (''dropoff_location'', JStr ''B''), (''load_description'', JStr ''C''),
                       (''dropoff_location'', JInt 5)] f \<noteq> Some (JStr v)"
    by (simp add: json_field_def)
  show ?thesis using post_jobs_invalid_body [OF h, of initial_db] by (simp add: json_field_def)
qed

text \<open>
  C15: in every reachable state the job ids are exactly \<open>1, 2, \<dots>, next_job_id - 1\<close>,
  in list order: every id is positive and below the counter, none is missing or
  repeated, and \<open>GET /jobs\<close> lists the jobs by increasing id.
\<close>

theorem reachable_ids_consecutive: "reachable s \<Longrightarrow> map job_id (jobs s) = [1..next_job_id s - 1]"
  by (simp add: reachable_inv)

theorem reachable_ids_consecutive_witness:
  "reachable (snd (handle initial_db (PostJobs (job_create_json
      \<lparr>jc_pickup_location = ''A'', jc_dropoff_location = ''B'', jc_load_description = ''C''\<rparr>)))) \<and>
   map job_id (jobs (snd (handle initial_db (PostJobs (job_create_json
      \<lparr>jc_pickup_location = ''A'', jc_dropoff_location = ''B'', jc_load_description = ''C''\<rparr>))))) = [1, 2, 3]"
proof -
  have r: "reachable (snd (handle initial_db (PostJobs (job_create_json
      \<lparr>jc_pickup_location = ''A'', jc_dropoff_location = ''B'', jc_load_description = ''C''\<rparr>))))"
    by (rule reachable.step [OF reachable.init])
  show ?thesis
    using r reachable_ids_consecutive [OF r]
    by (simp add: initial_db_def create_job_def job_create_json_def seed_jobs_def Job_def Let_def upto.simps)
qed

text \<open>
  The driver directory is immutable: in every reachable state
  \<open>GET /drivers\<close> answers with the two seed drivers.
\<close>

theorem reachable_drivers_seed:
  "reachable s \<Longrightarrow> handle s GetDrivers = (Response 200 (JArr (map driver_json seed_drivers)), s)"
  by (simp add: reachable_inv get_drivers_def)

theorem reachable_drivers_seed_witness:
  "reachable (snd (handle initial_db (CompleteJob 2))) \<and>
   handle (snd (handle initial_db (CompleteJob 2))) GetDrivers =
     (Response 200 (JArr (map driver_json seed_drivers)), snd (handle initial_db (CompleteJob 2)))"
proof -
  have r: "reachable (snd (handle initial_db (CompleteJob 2)))"
    by (rule reachable.step [OF reachable.init])
  show ?thesis using r reachable_drivers_seed [OF r] by simp
qed

text \<open>
  C27: FastAPI's validation of a route's return value against its
  \<open>response_model\<close> never fails: whenever a route answers 200, its body
  validates against the declared model (a \<open>Job\<close>, or a list of \<open>Job\<close> or
  \<open>Driver\<close>), so the server never turns a handler's result into a 500.
\<close>

theorem handle_response_model: "handle s r = (Response 200 b, s') \<Longrightarrow> response_model_ok r b"
  using serialize_handle [of r s] by (simp add: serialize_response_def split: if_splits)

theorem handle_response_model_witness:
  "response_model_ok GetDrivers (JArr (map driver_json seed_drivers))"
  using handle_response_model [of initial_db GetDrivers "JArr (map driver_json seed_drivers)" initial_db]
  by (simp add: get_drivers_def initial_db_def)

end
