(* ===== verification/Interleaving.thy ===== *)
theory Interleaving
  imports Router
begin

text \<open>
  Concurrent dispatch. FastAPI runs a plain \<open>def\<close> endpoint in a thread pool,
  so several handlers of \<open>src/main.py\<close> may run at once against the shared
  globals, with no lock. This theory splits each mutating handler into the
  atomic steps the Python code performs on shared state, gives every in-flight
  request a thread state, and lets a schedule (a list of thread indices) choose
  which thread moves next:
  \<^item> \<open>accept_job\<close>: the scan with its status check (one step; it only reads),
    the write \<open>job.status = "assigned"\<close>, the write \<open>job.driver_id = driver_id\<close>;
  \<^item> \<open>assign_driver\<close>: the scan, the status write, the driver write;
  \<^item> \<open>complete_job\<close>: the scan, the status write;
  \<^item> \<open>create_job\<close>: building \<open>new_job\<close> from \<open>next_job_id\<close>, \<open>jobs.append\<close>,
    and \<open>next_job_id += 1\<close> as a load of the global followed by a store of the
    loaded value plus one;
  \<^item> \<open>GET /\<close>, \<open>GET /drivers\<close> (the driver list is never written) and the
    body validation of \<open>POST /jobs\<close>: one step;
  \<^item> \<open>get_jobs\<close> returns the list object \<open>jobs\<close> itself; FastAPI then
    serialises it item by item (its \<open>_prepare_response_content\<close> iterates the
    list, dumping one \<open>Job\<close> at a time), so each item is one step, read from
    the list as it is then, and the iteration ends when the index reaches the
    list's current length;
  \<^item> after a handler returns a job (\<open>accept_job\<close>, \<open>create_job\<close>) or a
    dictionary holding one (\<open>assign_driver\<close>, \<open>complete_job\<close>), FastAPI
    serialises it in a later step, reading the job object as it is then.
  A scan remembers the position of the job it found, which identifies the job
  object: the list is only ever appended to, so positions are stable.
\<close>

section \<open>Threads and their steps\<close>

datatype tstate =
    Start request
  | AcceptWriteStatus nat "int option"
  | AcceptWriteDriver nat "int option"
  | AssignWriteStatus nat int
  | AssignWriteDriver nat int
  | CompleteWrite nat
  | CreateAppend job
  | CreateIncRead nat
  | CreateIncWrite nat int
  | SerializeJob nat
  | SerializeLegacy string nat
  | SerializeJobs nat "json list"
  | Done response

fun tstep :: "db \<Rightarrow> tstate \<Rightarrow> tstate \<times> db" where
  "tstep s (Start (PostJobs body)) =
     (case parse_job_create body of
        None \<Rightarrow> (Done UnprocessableEntity, s)
      | Some jc \<Rightarrow>
          (CreateAppend \<lparr>job_id = next_job_id s, pickup_location = jc_pickup_location jc,
                         dropoff_location = jc_dropoff_location jc,
                         load_description = jc_load_description jc,
                         status = ''available'', driver_id = None\<rparr>, s))"
| "tstep s (Start (AcceptJob jid did)) =
     (case first_index (has_id jid) (jobs s) of
        None \<Rightarrow> (Done (http_exception_response (HTTPException 404 ''Job not found'')), s)
      | Some i \<Rightarrow>
          if status (jobs s ! i) \<noteq> ''available''
          then (Done (http_exception_response (HTTPException 400 ''Job already assigned or completed'')), s)
          else (AcceptWriteStatus i did, s))"
| "tstep s (Start (AssignDriver jid did)) =
     (case first_index (has_id jid) (jobs s) of
        None \<Rightarrow> (Done (Response 200 (legacy_json (LegacyError ''Job not found''))), s)
      | Some i \<Rightarrow> (AssignWriteStatus i did, s))"
| "tstep s (Start (CompleteJob jid)) =
     (case first_index (has_id jid) (jobs s) of
        None \<Rightarrow> (Done (Response 200 (legacy_json (LegacyError ''Job not found''))), s)
      | Some i \<Rightarrow> (CompleteWrite i, s))"
| "tstep s (Start GetJobs) = (SerializeJobs 0 [], s)"
| "tstep s (Start r) = (Done (fst (handle s r)), s)"
| "tstep s (AcceptWriteStatus i did) =
     (AcceptWriteDriver i did, s\<lparr>jobs := (jobs s)[i := (jobs s ! i)\<lparr>status := ''assigned''\<rparr>]\<rparr>)"
| "tstep s (AcceptWriteDriver i did) =
     (SerializeJob i, s\<lparr>jobs := (jobs s)[i := (jobs s ! i)\<lparr>driver_id := did\<rparr>]\<rparr>)"
| "tstep s (AssignWriteStatus i did) =
     (AssignWriteDriver i did, s\<lparr>jobs := (jobs s)[i := (jobs s ! i)\<lparr>status := ''assigned''\<rparr>]\<rparr>)"
| "tstep s (AssignWriteDriver i did) =
     (SerializeLegacy ''Driver assigned'' i, s\<lparr>jobs := (jobs s)[i := (jobs s ! i)\<lparr>driver_id := Some did\<rparr>]\<rparr>)"
| "tstep s (CompleteWrite i) =
     (SerializeLegacy ''Job completed'' i, s\<lparr>jobs := (jobs s)[i := (jobs s ! i)\<lparr>status := ''completed''\<rparr>]\<rparr>)"
| "tstep s (CreateAppend j) = (CreateIncRead (length (jobs s)), s\<lparr>jobs := jobs s @ [j]\<rparr>)"
| "tstep s (CreateIncRead i) = (CreateIncWrite i (next_job_id s), s)"
| "tstep s (CreateIncWrite i v) = (SerializeJob i, s\<lparr>next_job_id := v + 1\<rparr>)"
| "tstep s (SerializeJob i) = (Done (Response 200 (job_json (jobs s ! i))), s)"
| "tstep s (SerializeLegacy m i) = (Done (Response 200 (legacy_json (LegacyMessage m (jobs s ! i)))), s)"
| "tstep s (SerializeJobs i acc) =
     (if i < length (jobs s) then (SerializeJobs (Suc i) (acc @ [job_json (jobs s ! i)]), s)
      else (Done (Response 200 (JArr acc)), s))"
| "tstep s (Done r) = (Done r, s)"

section \<open>The server with many requests in flight\<close>

record conc =
  cstore :: db
  threads :: "tstate list"

text \<open>Thread \<open>i\<close> takes one step; an index with no thread changes nothing.\<close>

definition step_at :: "conc \<Rightarrow> nat \<Rightarrow> conc" where
  "step_at c i =
     (if i < length (threads c)
      then (let (t', s') = tstep (cstore c) (threads c ! i)
            in c\<lparr>cstore := s', threads := (threads c)[i := t']\<rparr>)
      else c)"

text \<open>A schedule is the sequence of threads that move.\<close>

fun exec :: "conc \<Rightarrow> nat list \<Rightarrow> conc" where
  "exec c [] = c"
| "exec c (i # is) = exec (step_at c i) is"

definition spawn :: "db \<Rightarrow> request list \<Rightarrow> conc" where
  "spawn s rs = \<lparr>cstore = s, threads = map Start rs\<rparr>"

text \<open>
  Every state the server reaches when requests arrive at any time and the
  scheduler interleaves their steps in any order.
\<close>

inductive conc_reach :: "conc \<Rightarrow> bool" where
  init: "conc_reach \<lparr>cstore = initial_db, threads = []\<rparr>"
| arrive: "conc_reach c \<Longrightarrow> conc_reach (c\<lparr>threads := threads c @ [Start r]\<rparr>)"
| move: "conc_reach c \<Longrightarrow> conc_reach (step_at c i)"

text \<open>
  The schedule that serves \<open>n\<close> threads from \<open>k\<close> on one at a time, \<open>m\<close>
  steps each (enough, when \<open>m\<close> is large enough, for every handler with its
  serialisation).
\<close>

fun serial_schedule :: "nat \<Rightarrow> nat \<Rightarrow> nat \<Rightarrow> nat list" where
  "serial_schedule m k 0 = []"
| "serial_schedule m k (Suc n) = replicate m k @ serial_schedule m (Suc k) n"

section \<open>An invariant that interleaving keeps\<close>

text \<open>
  What a thread relies on between its steps: the position its scan found, or
  its append made, is in the list, and once it has written \<open>assigned\<close> the job is not \<open>available\<close>
  (no step ever writes \<open>available\<close> into an existing job); a job about to be
  appended is well-formed. \<open>db_le\<close> is how the store may change under a
  thread's feet: drivers untouched, jobs only appended, and a job that has
  left \<open>available\<close> never returns to it.
\<close>

fun tinv :: "db \<Rightarrow> tstate \<Rightarrow> bool" where
  "tinv s (AcceptWriteStatus i did) = (i < length (jobs s))"
| "tinv s (AcceptWriteDriver i did) = (i < length (jobs s) \<and> status (jobs s ! i) \<noteq> ''available'')"
| "tinv s (AssignWriteStatus i did) = (i < length (jobs s))"
| "tinv s (AssignWriteDriver i did) = (i < length (jobs s) \<and> status (jobs s ! i) \<noteq> ''available'')"
| "tinv s (CompleteWrite i) = (i < length (jobs s))"
| "tinv s (CreateAppend j) = job_ok j"
| "tinv s (CreateIncRead i) = (i < length (jobs s))"
| "tinv s (CreateIncWrite i v) = (i < length (jobs s))"
| "tinv s (SerializeJob i) = (i < length (jobs s))"
| "tinv s (SerializeLegacy m i) = (i < length (jobs s))"
| "tinv s _ = True"

definition conc_inv :: "conc \<Rightarrow> bool" where
  "conc_inv c \<longleftrightarrow> list_all job_ok (jobs (cstore c)) \<and> drivers (cstore c) = seed_drivers \<and>
                   list_all (tinv (cstore c)) (threads c)"

definition db_le :: "db \<Rightarrow> db \<Rightarrow> bool" where
  "db_le s s' \<longleftrightarrow> drivers s' = drivers s \<and> length (jobs s) \<le> length (jobs s') \<and>
     (\<forall>i<length (jobs s). status (jobs s ! i) \<noteq> ''available'' \<longrightarrow> status (jobs s' ! i) \<noteq> ''available'')"

section \<open>Lemmas\<close>

lemma exec_append: "exec c (xs @ ys) = exec (exec c xs) ys"
  by (induction xs arbitrary: c) auto

lemma tinv_mono: "tinv s t \<Longrightarrow> db_le s s' \<Longrightarrow> tinv s' t"
  by (cases "(s, t)" rule: tinv.cases) (auto simp: db_le_def)

lemma tstep_db_le: "tstep s t = (t', s') \<Longrightarrow> db_le s s'"
  by (cases "(s, t)" rule: tstep.cases)
     (auto simp: db_le_def nth_update_in nth_append Let_def split: option.splits if_splits)

lemma job_ok_status_assigned [simp]: "job_ok j \<Longrightarrow> job_ok (j\<lparr>status := ''assigned''\<rparr>)"
  by (simp add: job_ok_def valid_status_def)

lemma job_ok_driver [simp]: "job_ok j \<Longrightarrow> status j \<noteq> ''available'' \<Longrightarrow> job_ok (j\<lparr>driver_id := d\<rparr>)"
  by (simp add: job_ok_def)

lemma tstep_jobs_ok:
  assumes "tstep s t = (t', s')" and "list_all job_ok (jobs s)" and "tinv s t"
  shows "list_all job_ok (jobs s')"
proof -
  have ok: "\<And>i. i < length (jobs s) \<Longrightarrow> job_ok (jobs s ! i)"
    using assms(2) by (simp add: list_all_length)
  show ?thesis
    using assms ok
    by (cases "(s, t)" rule: tstep.cases)
       (auto simp: Let_def split: option.splits if_splits intro!: list_all_update_nth)
qed

lemma tstep_tinv:
  assumes "tstep s t = (t', s')" and "tinv s t"
  shows "tinv s' t'"
  using assms
  by (cases "(s, t)" rule: tstep.cases)
     (auto simp: Let_def nth_update_in job_ok_def valid_status_def
           simp del: first_index_None_iff dest: first_index_Some split: option.splits if_splits)

lemma step_at_inv:
  assumes "conc_inv c"
  shows "conc_inv (step_at c i)"
proof (cases "i < length (threads c)")
  case True
  obtain t' s' where st: "tstep (cstore c) (threads c ! i) = (t', s')"
    by (cases "tstep (cstore c) (threads c ! i)")
  have ti: "tinv (cstore c) (threads c ! i)"
    using assms True by (simp add: conc_inv_def list_all_length)
  have le: "db_le (cstore c) s'"
    using st by (rule tstep_db_le)
  have "list_all (tinv s') (threads c)"
    using assms le by (auto simp: conc_inv_def list_all_iff intro: tinv_mono)
  moreover have "tinv s' t'"
    using st ti by (rule tstep_tinv)
  moreover have "list_all job_ok (jobs s')"
    using st assms ti by (auto simp: conc_inv_def intro: tstep_jobs_ok)
  ultimately show ?thesis
    using True st assms le
    by (auto simp: step_at_def conc_inv_def db_le_def list_all_iff
             dest: set_update_subset_insert [THEN subsetD])
next
  case False
  with assms show ?thesis by (simp add: step_at_def)
qed

lemma conc_reach_inv: "conc_reach c \<Longrightarrow> conc_inv c"
proof (induction rule: conc_reach.induct)
  case init
  show ?case by (simp add: conc_inv_def initial_db_def seed_jobs_def)
next
  case (arrive c r)
  then show ?case by (simp add: conc_inv_def)
next
  case (move c i)
  then show ?case by (simp add: step_at_inv)
qed

lemma conc_reach_exec: "conc_reach c \<Longrightarrow> conc_reach (exec c is)"
  by (induction "is" arbitrary: c) (auto intro: conc_reach.move)

lemma conc_reach_spawn: "conc_reach (spawn initial_db rs)"
proof (induction rs rule: rev_induct)
  case Nil
  then show ?case by (simp add: spawn_def conc_reach.init)
next
  case (snoc r rs)
  then have "conc_reach ((spawn initial_db rs)\<lparr>threads := threads (spawn initial_db rs) @ [Start r]\<rparr>)"
    by (rule conc_reach.arrive)
  then show ?case by (simp add: spawn_def)
qed

section \<open>Properties of concurrent dispatch\<close>

text \<open>
  The lost update of the specification's section 5. Two requests accept
  job 1, for drivers 1 and 2. Served one after the other, in either order, the
  second is refused with 400. Interleaved so that both scans run before either
  write, both answer 200; the first client is told it holds the job with
  driver 1, and the store ends with driver 2.
\<close>

theorem conc_lost_update:
  "threads (exec (spawn initial_db [AcceptJob 1 (Some 1), AcceptJob 1 (Some 2)]) [0, 1, 0, 0, 0, 1, 1, 1]) =
     [Done (Response 200 (job_json ((hd seed_jobs)\<lparr>status := ''assigned'', driver_id := Some 1\<rparr>))),
      Done (Response 200 (job_json ((hd seed_jobs)\<lparr>status := ''assigned'', driver_id := Some 2\<rparr>)))] \<and>
   jobs (cstore (exec (spawn initial_db [AcceptJob 1 (Some 1), AcceptJob 1 (Some 2)]) [0, 1, 0, 0, 0, 1, 1, 1])) =
     [(hd seed_jobs)\<lparr>status := ''assigned'', driver_id := Some 2\<rparr>, seed_jobs ! 1] \<and>
   map status_code_of (fst (run initial_db [AcceptJob 1 (Some 1), AcceptJob 1 (Some 2)])) = [200, 400] \<and>
   map status_code_of (fst (run initial_db [AcceptJob 1 (Some 2), AcceptJob 1 (Some 1)])) = [200, 400]"
  by (simp add: spawn_def step_at_def initial_db_def seed_jobs_def Job_def accept_job_def Let_def)

text \<open>
  \<open>next_job_id\<close> is read, and later incremented, without a lock, so two
  concurrent \<open>POST /jobs\<close> can both read 3: the server reaches a state with
  two jobs of id 3, one increment lost, and the id invariant that every
  sequential run keeps (C1) broken.
\<close>

theorem conc_duplicate_ids:
  "conc_reach (exec (spawn initial_db
       [PostJobs (job_create_json \<lparr>jc_pickup_location = ''A'', jc_dropoff_location = ''B'', jc_load_description = ''C''\<rparr>),
        PostJobs (job_create_json \<lparr>jc_pickup_location = ''D'', jc_dropoff_location = ''E'', jc_load_description = ''F''\<rparr>)])
     [0, 1, 0, 1, 0, 1, 0, 1]) \<and>
   map job_id (jobs (cstore (exec (spawn initial_db
       [PostJobs (job_create_json \<lparr>jc_pickup_location = ''A'', jc_dropoff_location = ''B'', jc_load_description = ''C''\<rparr>),
        PostJobs (job_create_json \<lparr>jc_pickup_location = ''D'', jc_dropoff_location = ''E'', jc_load_description = ''F''\<rparr>)])
     [0, 1, 0, 1, 0, 1, 0, 1]))) = [1, 2, 3, 3] \<and>
   next_job_id (cstore (exec (spawn initial_db
       [PostJobs (job_create_json \<lparr>jc_pickup_location = ''A'', jc_dropoff_location = ''B'', jc_load_description = ''C''\<rparr>),
        PostJobs (job_create_json \<lparr>jc_pickup_location = ''D'', jc_dropoff_location = ''E'', jc_load_description = ''F''\<rparr>)])
     [0, 1, 0, 1, 0, 1, 0, 1])) = 4 \<and>
   \<not> wf_db (cstore (exec (spawn initial_db
       [PostJobs (job_create_json \<lparr>jc_pickup_location = ''A'', jc_dropoff_location = ''B'', jc_load_description = ''C''\<rparr>),
        PostJobs (job_create_json \<lparr>jc_pickup_location = ''D'', jc_dropoff_location = ''E'', jc_load_description = ''F''\<rparr>)])
     [0, 1, 0, 1, 0, 1, 0, 1]))"
proof -
  have "conc_reach (exec (spawn initial_db
       [PostJobs (job_create_json \<lparr>jc_pickup_location = ''A'', jc_dropoff_location = ''B'', jc_load_description = ''C''\<rparr>),
        PostJobs (job_create_json \<lparr>jc_pickup_location = ''D'', jc_dropoff_location = ''E'', jc_load_description = ''F''\<rparr>)])
     [0, 1, 0, 1, 0, 1, 0, 1])"
    by (rule conc_reach_exec [OF conc_reach_spawn])
  then show ?thesis
    by (simp add: spawn_def step_at_def initial_db_def seed_jobs_def Job_def job_create_json_def
                  wf_db_def ids_fresh_def)
qed

text \<open>
  C17: not everything is lost under interleaving: in every state of the
  concurrent server every status is one of the three literals, no
  \<open>available\<close> job has a driver, and the drivers are the seed drivers. The
  proof strengthens the property with what each in-flight thread relies on
  (\<open>tinv\<close>) and shows that no step of another thread can take it away.
\<close>

theorem conc_reach_jobs_ok:
  "conc_reach c \<Longrightarrow> list_all job_ok (jobs (cstore c)) \<and> drivers (cstore c) = seed_drivers"
  by (simp add: conc_reach_inv [THEN conc_inv_def [THEN iffD1]])

theorem conc_reach_jobs_ok_witness:
  "conc_reach (exec (spawn initial_db [AcceptJob 1 (Some 1), AcceptJob 1 (Some 2)]) [0, 1, 0]) \<and>
   list_all job_ok (jobs (cstore (exec (spawn initial_db [AcceptJob 1 (Some 1), AcceptJob 1 (Some 2)]) [0, 1, 0]))) \<and>
   drivers (cstore (exec (spawn initial_db [AcceptJob 1 (Some 1), AcceptJob 1 (Some 2)]) [0, 1, 0])) = seed_drivers"
proof -
  have r: "conc_reach (exec (spawn initial_db [AcceptJob 1 (Some 1), AcceptJob 1 (Some 2)]) [0, 1, 0])"
    by (rule conc_reach_exec [OF conc_reach_spawn])
  show ?thesis using r conc_reach_jobs_ok [OF r] by simp
qed

text \<open>
  A \<open>complete_job\<close> that runs between the status check of an
  \<open>accept_job\<close> and its writes is undone: both clients get 200, the second
  is told the job is completed, and the job ends \<open>assigned\<close>. Served one after
  the other, accept then complete ends \<open>completed\<close>, and complete then accept
  refuses the accept with 400.
\<close>

theorem conc_complete_undone:
  "threads (exec (spawn initial_db [AcceptJob 1 (Some 2), CompleteJob 1]) [0, 1, 1, 1, 0, 0, 0]) =
     [Done (Response 200 (job_json ((hd seed_jobs)\<lparr>status := ''assigned'', driver_id := Some 2\<rparr>))),
      Done (Response 200 (legacy_json (LegacyMessage ''Job completed'' ((hd seed_jobs)\<lparr>status := ''completed''\<rparr>))))] \<and>
   map status (jobs (cstore (exec (spawn initial_db [AcceptJob 1 (Some 2), CompleteJob 1]) [0, 1, 1, 1, 0, 0, 0]))) =
     [''assigned'', ''available''] \<and>
   map status (jobs (snd (run initial_db [AcceptJob 1 (Some 2), CompleteJob 1]))) = [''completed'', ''available''] \<and>
   map status_code_of (fst (run initial_db [CompleteJob 1, AcceptJob 1 (Some 2)])) = [200, 400]"
  by (simp add: spawn_def step_at_def initial_db_def seed_jobs_def Job_def accept_job_def complete_job_def Let_def)

end
