(* ===== verification/Progress.thy ===== *)
theory Progress
  imports Interleaving
begin

text \<open>
  Termination and progress of the handlers under concurrent dispatch. None of
  the handlers of \<open>src/main.py\<close> waits for anything: each is a bounded
  sequence of statements, at most four of which touch the shared globals
  (\<open>create_job\<close>: build \<open>new_job\<close>, append, load and store the counter),
  followed by the serialisation of the returned job: five steps in all. The
  exception is \<open>GET /jobs\<close>, whose serialisation takes one step per job of
  the list as it stands, plus one to return and one to end the iteration.
  \<open>tsteps_left\<close> counts the steps a thread still has to take in a given
  store; it falls with every step the thread takes. Other threads can only
  raise it by appending to \<open>jobs\<close> under a \<open>GET /jobs\<close> that is being
  serialised, and each creation appends once: \<open>appends_left\<close> counts the
  appends still to come, and steps left plus appends left is a variant no
  step of another thread raises. \<open>finish\<close> runs a thread uninterrupted to
  its answer; it is defined by well-founded recursion on \<open>tsteps_left\<close>, and
  from a fresh request it is the atomic handler \<open>handle\<close>.
\<close>

section \<open>The remaining work of a thread\<close>

fun is_done :: "tstate \<Rightarrow> bool" where
  "is_done (Done r) = True"
| "is_done _ = False"

fun tsteps_left :: "db \<Rightarrow> tstate \<Rightarrow> nat" where
  "tsteps_left s (Start GetJobs) = length (jobs s) + 2"
| "tsteps_left s (Start r) = 5"
| "tsteps_left s (AcceptWriteStatus i did) = 3"
| "tsteps_left s (AcceptWriteDriver i did) = 2"
| "tsteps_left s (AssignWriteStatus i did) = 3"
| "tsteps_left s (AssignWriteDriver i did) = 2"
| "tsteps_left s (CompleteWrite i) = 2"
| "tsteps_left s (CreateAppend j) = 4"
| "tsteps_left s (CreateIncRead i) = 3"
| "tsteps_left s (CreateIncWrite i v) = 2"
| "tsteps_left s (SerializeJob i) = 1"
| "tsteps_left s (SerializeLegacy m i) = 1"
| "tsteps_left s (SerializeJobs i acc) = length (jobs s) - i + 1"
| "tsteps_left s (Done r) = 0"

text \<open>The threads that will still append to \<open>jobs\<close>: a \<open>POST /jobs\<close> not yet validated, or about to append.\<close>

fun will_append :: "tstate \<Rightarrow> bool" where
  "will_append (Start (PostJobs b)) = True"
| "will_append (CreateAppend j) = True"
| "will_append _ = False"

definition appends_left :: "conc \<Rightarrow> nat" where
  "appends_left c = length (filter will_append (threads c))"

section \<open>Running a thread to its answer\<close>

function finish :: "db \<Rightarrow> tstate \<Rightarrow> response \<times> db" where
  "finish s t = (case t of Done r \<Rightarrow> (r, s) | _ \<Rightarrow> finish (snd (tstep s t)) (fst (tstep s t)))"
  by pat_completeness auto
termination
  apply (relation "measure (\<lambda>(s, t). tsteps_left s t)")
   apply simp
  subgoal for s t r by (cases r) (auto simp: Let_def split: option.splits if_splits)
  apply (auto simp: Let_def)
  done

lemma tsteps_left_zero [simp]: "tsteps_left s t = 0 \<longleftrightarrow> is_done t"
  by (cases "(s, t)" rule: tsteps_left.cases) simp_all

lemma tsteps_left_done: "is_done t \<Longrightarrow> tsteps_left s t = 0"
  by simp

lemma tsteps_left_le: "tsteps_left s t \<le> length (jobs s) + 5"
  by (cases "(s, t)" rule: tsteps_left.cases) simp_all

text \<open>The store enters the count only through the length of \<open>jobs\<close>, and only to raise it.\<close>

lemma tsteps_left_mono:
  "length (jobs s) \<le> length (jobs s') \<Longrightarrow> tsteps_left s' t \<le> tsteps_left s t + (length (jobs s') - length (jobs s))"
  by (cases "(s, t)" rule: tsteps_left.cases) auto

lemma tstep_rank: "\<not> is_done t \<Longrightarrow> tsteps_left (snd (tstep s t)) (fst (tstep s t)) < tsteps_left s t"
proof (cases t)
  case (Start r)
  then show ?thesis by (cases r) (auto simp: Let_def split: option.splits if_splits)
qed (auto simp: Let_def)

lemma tstep_is_done: "is_done t \<Longrightarrow> tstep s t = (t, s)"
  by (cases t) simp_all

lemma tstep_length_mono: "length (jobs s) \<le> length (jobs (snd (tstep s t)))"
  using tstep_db_le [of s t "fst (tstep s t)" "snd (tstep s t)"] by (simp add: db_le_def)

text \<open>A step appends at most once, and only a thread that was going to append does.\<close>

lemma tstep_appends:
  "length (jobs (snd (tstep s t))) + (if will_append (fst (tstep s t)) then 1 else 0) \<le>
   length (jobs s) + (if will_append t then 1 else 0)"
  by (cases "(s, t)" rule: tstep.cases) (auto simp: Let_def split: option.splits if_splits)

declare finish.simps [simp del]

lemma finish_Done [simp]: "finish s (Done r) = (r, s)"
  by (simp add: finish.simps)

lemma finish_step: "\<not> is_done t \<Longrightarrow> finish s t = finish (snd (tstep s t)) (fst (tstep s t))"
  by (subst finish.simps) (cases t; simp add: Let_def)

text \<open>Serialising the list alone: one item per step, from the index to the end.\<close>

lemma finish_serialize_jobs:
  "finish s (SerializeJobs i acc) = (Response 200 (JArr (acc @ map job_json (drop i (jobs s)))), s)"
proof (induction "length (jobs s) - i" arbitrary: i acc)
  case 0
  then show ?case by (simp add: finish_step)
next
  case (Suc n)
  then have i: "i < length (jobs s)" by arith
  then have d: "drop i (jobs s) = jobs s ! i # drop (Suc i) (jobs s)"
    by (simp add: Cons_nth_drop_Suc)
  have "finish s (SerializeJobs i acc) = finish s (SerializeJobs (Suc i) (acc @ [job_json (jobs s ! i)]))"
    using i by (simp add: finish_step [of "SerializeJobs i acc"])
  then show ?case
    using Suc.hyps(1) [of "Suc i" "acc @ [job_json (jobs s ! i)]"] Suc.hyps(2) d by simp
qed

lemma finish_handle: "finish s (Start r) = handle s r"
proof (cases r)
  case (PostJobs body)
  then show ?thesis
    by (cases "parse_job_create body") (simp_all add: finish_step create_job_eq Job_def Let_def)
next
  case (AcceptJob jid did)
  then show ?thesis
    by (cases "first_index (has_id jid) (jobs s)")
       (auto simp: finish_step accept_job_eq first_index_find map_first_first_index Let_def
             simp del: first_index_None_iff dest: first_index_Some)
next
  case (AssignDriver jid did)
  then show ?thesis
    by (cases "first_index (has_id jid) (jobs s)")
       (auto simp: finish_step assign_driver_eq first_index_find map_first_first_index Let_def
             simp del: first_index_None_iff dest: first_index_Some)
next
  case (CompleteJob jid)
  then show ?thesis
    by (cases "first_index (has_id jid) (jobs s)")
       (auto simp: finish_step complete_job_eq first_index_find map_first_first_index Let_def
             simp del: first_index_None_iff dest: first_index_Some)
qed (simp_all add: finish_step finish_serialize_jobs read_handler_defs)

lemma handle_length: "length (jobs (snd (handle s r))) \<le> Suc (length (jobs s))"
  by (auto simp: handle_state create_job_eq accept_job_eq assign_driver_eq complete_job_eq Let_def
           split: request.split option.split if_splits)

section \<open>Progress under any interleaving\<close>

lemma length_step_at [simp]: "length (threads (step_at c i)) = length (threads c)"
  by (simp add: step_at_def split_def Let_def)

lemma threads_step_at_other: "i \<noteq> k \<Longrightarrow> threads (step_at c i) ! k = threads c ! k"
  by (simp add: step_at_def split_def Let_def)

lemma threads_step_at_self:
  "k < length (threads c) \<Longrightarrow> threads (step_at c k) ! k = fst (tstep (cstore c) (threads c ! k))"
  by (simp add: step_at_def split_def Let_def)

lemma length_filter_update:
  "i < length xs \<Longrightarrow>
   length (filter P (xs[i := x])) + (if P (xs ! i) then 1 else 0) = length (filter P xs) + (if P x then 1 else 0)"
proof (induction xs arbitrary: i)
  case (Cons y ys)
  show ?case
  proof (cases i)
    case (Suc j)
    then show ?thesis using Cons.IH [of j] Cons.prems by simp
  qed simp
qed simp

lemma appends_left_step_at:
  "i < length (threads c) \<Longrightarrow>
   appends_left (step_at c i) + (if will_append (threads c ! i) then 1 else 0) =
   appends_left c + (if will_append (fst (tstep (cstore c) (threads c ! i))) then 1 else 0)"
  using length_filter_update [of i "threads c" will_append]
  by (simp add: appends_left_def step_at_def split_def Let_def)

lemma cstore_step_at:
  "i < length (threads c) \<Longrightarrow> cstore (step_at c i) = snd (tstep (cstore c) (threads c ! i))"
  by (simp add: step_at_def split_def Let_def)

text \<open>Steps left plus appends left: another thread's step never raises it, the thread's own step lowers it.\<close>

lemma potential_other:
  assumes "i \<noteq> k"
  shows "tsteps_left (cstore (step_at c i)) (threads (step_at c i) ! k) + appends_left (step_at c i) \<le>
         tsteps_left (cstore c) (threads c ! k) + appends_left c"
proof (cases "i < length (threads c)")
  case True
  let ?t = "threads c ! i" and ?s = "cstore c"
  have "tsteps_left (snd (tstep ?s ?t)) (threads c ! k) \<le>
        tsteps_left ?s (threads c ! k) + (length (jobs (snd (tstep ?s ?t))) - length (jobs ?s))"
    by (rule tsteps_left_mono [OF tstep_length_mono])
  then show ?thesis
    using appends_left_step_at [OF True] tstep_appends [of ?s ?t] tstep_length_mono [of ?s ?t] assms True
    by (simp add: threads_step_at_other cstore_step_at split: if_splits)
next
  case False
  then show ?thesis by (simp add: step_at_def)
qed

lemma potential_self:
  assumes "k < length (threads c)" and "\<not> is_done (threads c ! k)"
  shows "tsteps_left (cstore (step_at c k)) (threads (step_at c k) ! k) + appends_left (step_at c k) <
         tsteps_left (cstore c) (threads c ! k) + appends_left c"
  using tstep_rank [OF assms(2), of "cstore c"] appends_left_step_at [OF assms(1)]
        tstep_appends [of "cstore c" "threads c ! k"] tstep_length_mono [of "cstore c" "threads c ! k"] assms(1)
  by (simp add: threads_step_at_self cstore_step_at split: if_splits)

lemma exec_done_stays: "is_done (threads c ! k) \<Longrightarrow> is_done (threads (exec c sched) ! k)"
proof (induction sched arbitrary: c)
  case (Cons i sched)
  have d: "is_done (threads (step_at c i) ! k)"
    using Cons.prems
    by (cases "i = k") (auto simp: step_at_def split_def Let_def tstep_is_done nth_list_update)
  show ?case using Cons.IH [OF d] by simp
qed simp

lemma exec_progress:
  "k < length (threads c) \<Longrightarrow> tsteps_left (cstore c) (threads c ! k) + appends_left c \<le> count_list sched k \<Longrightarrow>
   is_done (threads (exec c sched) ! k)"
proof (induction sched arbitrary: c)
  case Nil
  then show ?case by simp
next
  case (Cons i sched)
  have len: "k < length (threads (step_at c i))"
    using Cons.prems(1) by simp
  show ?case
  proof (cases "is_done (threads c ! k)")
    case True
    then show ?thesis using exec_done_stays [OF True, of "i # sched"] by simp
  next
    case False
    show ?thesis
    proof (cases "i = k")
      case True
      then show ?thesis
        using Cons.IH [OF len] Cons.prems potential_self [OF Cons.prems(1) False] by simp
    next
      case other: False
      then show ?thesis
        using Cons.IH [OF len] Cons.prems potential_other [OF other, of c] by simp
    qed
  qed
qed

text \<open>A thread that the scheduler runs alone reaches what \<open>finish\<close> computes.\<close>

lemma exec_finish_at:
  "k < length (threads c) \<Longrightarrow> tsteps_left (cstore c) (threads c ! k) \<le> n \<Longrightarrow>
   exec c (replicate n k) =
     c\<lparr>cstore := snd (finish (cstore c) (threads c ! k)),
       threads := (threads c)[k := Done (fst (finish (cstore c) (threads c ! k)))]\<rparr>"
proof (induction n arbitrary: c)
  case 0
  then show ?case
    using list_update_id [of "threads c" k] by (cases "threads c ! k") simp_all
next
  case (Suc n)
  show ?case
  proof (cases "is_done (threads c ! k)")
    case True
    then obtain r where r: "threads c ! k = Done r" by (cases "threads c ! k") simp_all
    then have "step_at c k = c"
      using Suc.prems(1) list_update_id [of "threads c" k] by (simp add: step_at_def)
    moreover have "exec c (replicate n k) = c"
      using Suc.IH [OF Suc.prems(1)] r Suc.prems(1) list_update_id [of "threads c" k] by simp
    ultimately show ?thesis
      using r Suc.prems(1) list_update_id [of "threads c" k] by simp
  next
    case False
    let ?t = "threads c ! k" and ?s = "cstore c"
    have le: "tsteps_left (cstore (step_at c k)) (threads (step_at c k) ! k) \<le> n"
      using Suc.prems tstep_rank [OF False, of ?s] by (simp add: threads_step_at_self cstore_step_at)
    have "step_at c k = c\<lparr>cstore := snd (tstep ?s ?t), threads := (threads c)[k := fst (tstep ?s ?t)]\<rparr>"
      using Suc.prems(1) by (simp add: step_at_def split_def Let_def)
    then show ?thesis
      using Suc.IH [OF _ le] Suc.prems(1) finish_step [OF False, of ?s] by simp
  qed
qed

lemma exec_alone:
  assumes "k < length (threads c)" and "threads c ! k = Start r" and "tsteps_left (cstore c) (Start r) \<le> n"
  shows "exec c (replicate n k) =
           c\<lparr>cstore := snd (handle (cstore c) r), threads := (threads c)[k := Done (fst (handle (cstore c) r))]\<rparr>"
  using exec_finish_at [of k c n] assms by (simp add: finish_handle)

lemma exec_serial:
  "length (jobs s) + length rs + 5 \<le> m \<Longrightarrow>
   exec \<lparr>cstore = s, threads = map Done ds @ map Start rs\<rparr> (serial_schedule m (length ds) (length rs)) =
   \<lparr>cstore = snd (run s rs), threads = map Done ds @ map Done (fst (run s rs))\<rparr>"
proof (induction rs arbitrary: ds s)
  case Nil
  then show ?case by simp
next
  case (Cons r rs)
  let ?c = "\<lparr>cstore = s, threads = map Done ds @ map Start (r # rs)\<rparr>"
  have le: "tsteps_left s (Start r) \<le> m"
    using tsteps_left_le [of s "Start r"] Cons.prems by simp
  have alone: "exec ?c (replicate m (length ds)) =
      \<lparr>cstore = snd (handle s r), threads = map Done (ds @ [fst (handle s r)]) @ map Start rs\<rparr>"
    using le by (subst exec_alone) (simp_all add: nth_append list_update_append)
  have m': "length (jobs (snd (handle s r))) + length rs + 5 \<le> m"
    using handle_length [of s r] Cons.prems by simp
  show ?case
    using Cons.IH [OF m', where ds = "ds @ [fst (handle s r)]"]
    by (simp only: length_Cons serial_schedule.simps exec_append alone length_append_singleton)
       (simp add: split_def Let_def)
qed

section \<open>Properties\<close>

text \<open>
  Every handler terminates: from any point of any handler, with any store
  \<open>s\<close>, \<open>tsteps_left s t\<close> steps of the thread, at most five more than there
  are jobs, bring it to its answer, and that answer and the store it leaves are
  what the terminating function \<open>finish\<close> computes.
\<close>

theorem thread_terminates:
  "tsteps_left s t \<le> length (jobs s) + 5 \<and>
   exec \<lparr>cstore = s, threads = [t]\<rparr> (replicate (tsteps_left s t) 0) =
     \<lparr>cstore = snd (finish s t), threads = [Done (fst (finish s t))]\<rparr>"
  using exec_finish_at [of 0 "\<lparr>cstore = s, threads = [t]\<rparr>" "tsteps_left s t"] tsteps_left_le [of s t] by simp

text \<open>
  C24: no request starves and none blocks another: under every schedule, a
  thread has answered once the scheduler has let it move as many times as it
  had steps left plus the number of appends to \<open>jobs\<close> other requests may
  still make (each of which can lengthen a \<open>GET /jobs\<close> being serialised),
  whatever the other threads did between its steps.
\<close>

theorem exec_thread_done:
  "k < length (threads c) \<Longrightarrow> tsteps_left (cstore c) (threads c ! k) + appends_left c \<le> count_list sched k \<Longrightarrow>
   is_done (threads (exec c sched) ! k)"
  by (rule exec_progress)

theorem exec_thread_done_witness:
  "is_done (threads (exec (spawn initial_db [GetJobs, PostJobs (job_create_json \<lparr>jc_pickup_location = ''Kent'',
      jc_dropoff_location = ''Renton'', jc_load_description = ''Crates''\<rparr>)]) [0, 1, 0, 1, 0, 1, 0, 1, 0]) ! 0)"
  using exec_thread_done [of 0 "spawn initial_db [GetJobs, PostJobs (job_create_json \<lparr>jc_pickup_location = ''Kent'',
      jc_dropoff_location = ''Renton'', jc_load_description = ''Crates''\<rparr>)]" "[0, 1, 0, 1, 0, 1, 0, 1, 0]"]
  by (simp add: spawn_def appends_left_def initial_db_def seed_jobs_def)

text \<open>
  A request served with no other request in flight behaves exactly as the
  atomic handler of the router: after the steps its thread has left the store
  is the handler's new state and the thread holds the handler's response, on
  every route and every branch.
\<close>

theorem serve_alone:
  "exec (spawn s [r]) (replicate (tsteps_left s (Start r)) 0) =
     \<lparr>cstore = snd (handle s r), threads = [Done (fst (handle s r))]\<rparr>"
  by (subst exec_alone) (simp_all add: spawn_def)

text \<open>
  The fix the specification suggests, a single lock around each handler,
  gives back the sequential server: serving the requests one at a time in
  arrival order, each given steps enough for the longest handler on the
  longest list it can meet, yields the same responses and the same final state
  as \<open>run\<close>, so every property of sequential runs holds for locked dispatch.
\<close>

theorem serial_schedule_run:
  "exec (spawn s rs) (serial_schedule (length (jobs s) + length rs + 5) 0 (length rs)) =
     \<lparr>cstore = snd (run s rs), threads = map Done (fst (run s rs))\<rparr>"
  using exec_serial [where ds = "[]"] by (simp add: spawn_def)

end
