(* ===== verification/Locking.thy ===== *)
theory Locking
  imports Progress
begin

text \<open>
  The fix the specification proposes for the races: one global lock around each
  mutating handler. A thread holds the lock from its first step until its
  handler returns, so a thread may enter or continue a handler only while no
  other thread is inside one (\<open>busy\<close>). The lock is released when the
  handler returns: FastAPI serialises the returned job afterwards, outside it,
  so a thread that has returned (\<open>returned\<close>) moves whenever it is
  scheduled, lock held by another or not. The read-only handlers are modelled
  as taking the lock like the others (a single-writer discipline, the other
  form of the fix the specification names); their bodies are one step, so
  this only orders them between the steps of mutating handlers.
\<close>

fun busy :: "tstate \<Rightarrow> bool" where
  "busy (Start r) = False"
| "busy (SerializeJob i) = False"
| "busy (SerializeLegacy m i) = False"
| "busy (SerializeJobs i acc) = False"
| "busy (Done r) = False"
| "busy _ = True"

text \<open>A thread whose handler has returned: its result is being serialised, or it has answered.\<close>

fun returned :: "tstate \<Rightarrow> bool" where
  "returned (SerializeJob i) = True"
| "returned (SerializeLegacy m i) = True"
| "returned (SerializeJobs i acc) = True"
| "returned (Done a) = True"
| "returned _ = False"

inductive locked_reach :: "conc \<Rightarrow> bool" where
  init: "locked_reach \<lparr>cstore = initial_db, threads = []\<rparr>"
| arrive: "locked_reach c \<Longrightarrow> locked_reach (c\<lparr>threads := threads c @ [Start r]\<rparr>)"
| move: "locked_reach c \<Longrightarrow>
         returned (threads c ! i) \<or> (\<forall>j<length (threads c). j \<noteq> i \<longrightarrow> \<not> busy (threads c ! j)) \<Longrightarrow>
         locked_reach (step_at c i)"

text \<open>
  What the store looks like while the one thread inside a handler is between
  two of its steps: the handler's partial effect on a well-formed store.
\<close>

fun pending_ok :: "db \<Rightarrow> tstate \<Rightarrow> bool" where
  "pending_ok s (AcceptWriteStatus i did) =
     (wf_db s \<and> i < length (jobs s) \<and> status (jobs s ! i) = ''available'')"
| "pending_ok s (AcceptWriteDriver i did) =
     (wf_db s \<and> i < length (jobs s) \<and> status (jobs s ! i) \<noteq> ''available'')"
| "pending_ok s (AssignWriteStatus i did) = (wf_db s \<and> i < length (jobs s))"
| "pending_ok s (AssignWriteDriver i did) =
     (wf_db s \<and> i < length (jobs s) \<and> status (jobs s ! i) \<noteq> ''available'')"
| "pending_ok s (CompleteWrite i) = (wf_db s \<and> i < length (jobs s))"
| "pending_ok s (CreateAppend j) = (wf_db s \<and> job_id j = next_job_id s \<and> job_ok j)"
| "pending_ok s (CreateIncRead i) = wf_db (s\<lparr>next_job_id := next_job_id s + 1\<rparr>)"
| "pending_ok s (CreateIncWrite i v) =
     (v = next_job_id s \<and> wf_db (s\<lparr>next_job_id := v + 1\<rparr>))"
| "pending_ok s _ = wf_db s"

definition locked_inv :: "conc \<Rightarrow> bool" where
  "locked_inv c \<longleftrightarrow>
     (\<forall>i<length (threads c). busy (threads c ! i) \<longrightarrow>
        pending_ok (cstore c) (threads c ! i) \<and> (\<forall>j<length (threads c). j \<noteq> i \<longrightarrow> \<not> busy (threads c ! j))) \<and>
     ((\<forall>i<length (threads c). \<not> busy (threads c ! i)) \<longrightarrow> wf_db (cstore c))"

lemma returned_not_busy: "returned t \<Longrightarrow> \<not> busy t"
  by (cases t) simp_all

text \<open>Serialisation reads the store and never writes it, and a returned thread stays returned.\<close>

lemma returned_tstep_store: "returned t \<Longrightarrow> snd (tstep s t) = s \<and> returned (fst (tstep s t))"
  by (cases t) simp_all

lemma wf_db_update_nth:
  assumes "wf_db s" and "job_id (f (jobs s ! i)) = job_id (jobs s ! i)" and "job_ok (f (jobs s ! i))"
    and "i < length (jobs s)"
  shows "wf_db (s\<lparr>jobs := (jobs s)[i := f (jobs s ! i)]\<rparr>)"
proof -
  have "map job_id ((jobs s)[i := f (jobs s ! i)]) = map job_id (jobs s)"
    using assms(2,4) by (simp add: map_update) (metis list_update_id nth_map)
  moreover have "list_all (\<lambda>j. job_id j < next_job_id s) ((jobs s)[i := f (jobs s ! i)])"
    using assms(1,2) by (intro list_all_update_nth) (auto simp: wf_db_def ids_fresh_def list_all_length)
  moreover have "list_all job_ok ((jobs s)[i := f (jobs s ! i)])"
    using assms(1,3) by (intro list_all_update_nth) (auto simp: wf_db_def)
  ultimately show ?thesis
    using assms(1) by (simp add: wf_db_def ids_fresh_def)
qed

lemma wf_db_set_status:
  "wf_db s \<Longrightarrow> i < length (jobs s) \<Longrightarrow> job_ok ((jobs s ! i)\<lparr>status := st\<rparr>) \<Longrightarrow>
   wf_db (s\<lparr>jobs := (jobs s)[i := (jobs s ! i)\<lparr>status := st\<rparr>]\<rparr>)"
  by (rule wf_db_update_nth) simp_all

lemma wf_db_set_driver:
  "wf_db s \<Longrightarrow> i < length (jobs s) \<Longrightarrow> job_ok ((jobs s ! i)\<lparr>driver_id := d\<rparr>) \<Longrightarrow>
   wf_db (s\<lparr>jobs := (jobs s)[i := (jobs s ! i)\<lparr>driver_id := d\<rparr>]\<rparr>)"
  by (rule wf_db_update_nth) simp_all

lemma wf_db_append_fresh:
  "wf_db s \<Longrightarrow> job_id j = next_job_id s \<Longrightarrow> job_ok j \<Longrightarrow>
   wf_db (s\<lparr>jobs := jobs s @ [j], next_job_id := next_job_id s + 1\<rparr>)"
  by (auto simp: wf_db_def ids_fresh_def list_all_iff)

lemma wf_db_nth_ok: "wf_db s \<Longrightarrow> i < length (jobs s) \<Longrightarrow> job_ok (jobs s ! i)"
  by (simp add: wf_db_def list_all_length)

lemma job_ok_new [simp]:
  "job_ok \<lparr>job_id = i, pickup_location = p, dropoff_location = d, load_description = l,
           status = ''available'', driver_id = None\<rparr>"
  by (simp add: job_ok_def valid_status_def)

lemma pending_wf_ids: "pending_ok s t \<Longrightarrow> distinct (map job_id (jobs s)) \<and> list_all job_ok (jobs s)"
  by (cases "(s, t)" rule: pending_ok.cases) (auto simp: wf_db_def ids_fresh_def)

lemma tstep_pending:
  assumes "pending_ok s t" and "tstep s t = (t', s')"
  shows "if busy t' then pending_ok s' t' else wf_db s'"
  using assms
  by (cases "(s, t)" rule: tstep.cases)
     (auto simp: Let_def nth_update_in wf_db_nth_ok
           simp del: first_index_None_iff dest: first_index_Some
           intro!: wf_db_set_status wf_db_set_driver wf_db_append_fresh split: option.splits if_splits)
lemma tstep_start:
  assumes "wf_db s" and "tstep s (Start r) = (t', s')"
  shows "if busy t' then pending_ok s' t' else wf_db s'"
  using assms
  by (cases r)
     (auto simp: split: option.splits if_splits simp del: first_index_None_iff dest: first_index_Some)

lemma locked_step_key:
  assumes inv: "locked_inv c" and i: "i < length (threads c)"
    and others: "\<forall>j<length (threads c). j \<noteq> i \<longrightarrow> \<not> busy (threads c ! j)"
    and st: "tstep (cstore c) (threads c ! i) = (t', s')"
  shows "if busy t' then pending_ok s' t' else wf_db s'"
proof (cases "busy (threads c ! i)")
  case True
  with inv i have "pending_ok (cstore c) (threads c ! i)"
    by (simp add: locked_inv_def)
  then show ?thesis using st by (rule tstep_pending)
next
  case False
  with others inv have wf: "wf_db (cstore c)"
    by (auto simp: locked_inv_def)
  show ?thesis
  proof (cases "threads c ! i")
    case (Start r)
    with wf st show ?thesis by (simp add: tstep_start)
  next
    case (Done r)
    with st have "t' = Done r" and "s' = cstore c" by auto
    with wf show ?thesis by simp
  qed (use False st wf in \<open>auto split: if_splits\<close>)
qed

lemma locked_step_inv:
  assumes inv: "locked_inv c" and others: "\<forall>j<length (threads c). j \<noteq> i \<longrightarrow> \<not> busy (threads c ! j)"
  shows "locked_inv (step_at c i)"
proof (cases "i < length (threads c)")
  case True
  obtain t' s' where st: "tstep (cstore c) (threads c ! i) = (t', s')"
    by (cases "tstep (cstore c) (threads c ! i)")
  have key: "if busy t' then pending_ok s' t' else wf_db s'"
    using inv True others st by (rule locked_step_key)
  have "step_at c i = c\<lparr>cstore := s', threads := (threads c)[i := t']\<rparr>"
    using True st by (simp add: step_at_def)
  then show ?thesis
    using key others True
    by (auto simp: locked_inv_def nth_list_update split: if_splits)
next
  case False
  with inv show ?thesis by (simp add: step_at_def)
qed

lemma locked_step_inv_returned:
  assumes inv: "locked_inv c" and ret: "returned (threads c ! i)"
  shows "locked_inv (step_at c i)"
proof (cases "i < length (threads c)")
  case True
  let ?t' = "fst (tstep (cstore c) (threads c ! i))"
  have st: "snd (tstep (cstore c) (threads c ! i)) = cstore c" and ret': "returned ?t'"
    using returned_tstep_store [OF ret] by simp_all
  have step: "step_at c i = c\<lparr>threads := (threads c)[i := ?t']\<rparr>"
    using True st by (simp add: step_at_def split_def)
  have other: "(threads c)[i := ?t'] ! k = threads c ! k" if "busy (threads c ! k)" for k
    using that ret by (cases "k = i") (simp_all add: returned_not_busy)
  have "busy ((threads c)[i := ?t'] ! k) \<longleftrightarrow> busy (threads c ! k)" if "k < length (threads c)" for k
    using that ret ret' by (cases "k = i") (simp_all add: returned_not_busy)
  then show ?thesis
    using inv step other by (simp add: locked_inv_def)
next
  case False
  with inv show ?thesis by (simp add: step_at_def)
qed

lemma locked_reach_inv: "locked_reach c \<Longrightarrow> locked_inv c"
proof (induction rule: locked_reach.induct)
  case init
  show ?case by (simp add: locked_inv_def initial_db_def seed_jobs_def wf_db_def ids_fresh_def)
next
  case (arrive c r)
  then show ?case by (auto simp: locked_inv_def nth_append less_Suc_eq)
next
  case (move c i)
  then show ?case by (auto intro: locked_step_inv locked_step_inv_returned)
qed

lemma locked_inv_ids: "locked_inv c \<Longrightarrow> distinct (map job_id (jobs (cstore c))) \<and> list_all job_ok (jobs (cstore c))"
  by (auto simp: locked_inv_def wf_db_def ids_fresh_def dest: pending_wf_ids)

lemma locked_reach_single: "locked_reach c \<Longrightarrow> length (threads c) = 1 \<Longrightarrow> locked_reach (exec c is)"
proof (induction "is" arbitrary: c)
  case Nil
  then show ?case by simp
next
  case (Cons i "is")
  have "locked_reach (step_at c i)"
  proof (cases "i < length (threads c)")
    case True
    with Cons.prems show ?thesis by (intro locked_reach.move) auto
  next
    case False
    with Cons.prems show ?thesis by (simp add: step_at_def)
  qed
  with Cons.prems show ?case by (simp add: Cons.IH)
qed

lemma locked_reach_spawn: "locked_reach (spawn initial_db rs)"
proof (induction rs rule: rev_induct)
  case Nil
  then show ?case by (simp add: spawn_def locked_reach.init)
next
  case (snoc r rs)
  then have "locked_reach ((spawn initial_db rs)\<lparr>threads := threads (spawn initial_db rs) @ [Start r]\<rparr>)"
    by (rule locked_reach.arrive)
  then show ?case by (simp add: spawn_def)
qed

section \<open>Properties of locked dispatch\<close>

text \<open>
  C22: with a global lock around each handler, job ids are distinct in every
  state, even while a \<open>create_job\<close> is between its append and its increment,
  and every job stays well-formed: the duplicate ids of \<open>conc_duplicate_ids\<close> cannot happen.
\<close>

theorem locked_ids_distinct:
  "locked_reach c \<Longrightarrow> distinct (map job_id (jobs (cstore c))) \<and> list_all job_ok (jobs (cstore c))"
  by (simp add: locked_reach_inv locked_inv_ids)

theorem locked_ids_distinct_witness:
  "locked_reach (exec (spawn initial_db [PostJobs (job_create_json
       \<lparr>jc_pickup_location = ''A'', jc_dropoff_location = ''B'', jc_load_description = ''C''\<rparr>)]) [0, 0]) \<and>
   distinct (map job_id (jobs (cstore (exec (spawn initial_db [PostJobs (job_create_json
       \<lparr>jc_pickup_location = ''A'', jc_dropoff_location = ''B'', jc_load_description = ''C''\<rparr>)]) [0, 0])))) \<and>
   list_all job_ok (jobs (cstore (exec (spawn initial_db [PostJobs (job_create_json
       \<lparr>jc_pickup_location = ''A'', jc_dropoff_location = ''B'', jc_load_description = ''C''\<rparr>)]) [0, 0])))"
proof -
  have r: "locked_reach (exec (spawn initial_db [PostJobs (job_create_json
       \<lparr>jc_pickup_location = ''A'', jc_dropoff_location = ''B'', jc_load_description = ''C''\<rparr>)]) [0, 0])"
    by (rule locked_reach_single [OF locked_reach_spawn]) (simp add: spawn_def)
  show ?thesis using r locked_ids_distinct [OF r] by blast
qed

text \<open>
  C23: with the lock, whenever no handler is in progress the database satisfies
  the full invariant of the sequential server (C1), the id counter's freshness
  included.
\<close>

theorem locked_quiescent_wf:
  "locked_reach c \<Longrightarrow> list_all (\<lambda>t. \<not> busy t) (threads c) \<Longrightarrow> wf_db (cstore c)"
  by (drule locked_reach_inv) (simp add: locked_inv_def list_all_length)

theorem locked_quiescent_wf_witness:
  "locked_reach (exec (spawn initial_db [AcceptJob 1 (Some 2)]) [0, 0, 0]) \<and>
   list_all (\<lambda>t. \<not> busy t) (threads (exec (spawn initial_db [AcceptJob 1 (Some 2)]) [0, 0, 0])) \<and>
   wf_db (cstore (exec (spawn initial_db [AcceptJob 1 (Some 2)]) [0, 0, 0]))"
proof -
  have r: "locked_reach (exec (spawn initial_db [AcceptJob 1 (Some 2)]) [0, 0, 0])"
    by (rule locked_reach_single [OF locked_reach_spawn]) (simp add: spawn_def)
  have q: "list_all (\<lambda>t. \<not> busy t) (threads (exec (spawn initial_db [AcceptJob 1 (Some 2)]) [0, 0, 0]))"
    by (simp add: spawn_def step_at_def initial_db_def seed_jobs_def Job_def)
  show ?thesis using r q locked_quiescent_wf [OF r q] by blast
qed

end
