(* ===== verification/Linearizable.thy ===== *)
theory Linearizable
  imports Locking
begin

text \<open>
  Linearizability of locked dispatch. \<open>locked_hist\<close> is the locked server of
  \<open>Locking\<close> (the same initial state, arrivals and lock-respecting moves)
  with two ghost components: the request each thread was started with, and the
  history of returned requests (thread, request, response) in the order the
  handlers returned. A handler returns when it hands its result to FastAPI
  (\<open>returned\<close>: a \<open>Serialize\<close> state or \<open>Done\<close>); the history records the
  response as it would be serialised at that moment. The invariant
  \<open>lin_inv\<close> says that the history, replayed by the sequential router \<open>run\<close>
  from the seed data, gives exactly those responses, that every returned
  client's status code is the one of its history entry, and that the thread
  holding the lock will, run to its answer (\<open>finish\<close>), do what \<open>handle\<close>
  does on the replayed state. The body a client finally receives is read
  later, outside the lock: \<open>locked_stale_response\<close> shows it can differ.
\<close>

section \<open>Locked dispatch with its history\<close>

definition record_return :: "nat \<Rightarrow> request \<Rightarrow> db \<Rightarrow> tstate \<Rightarrow> tstate \<Rightarrow> (nat \<times> request \<times> response) list" where
  "record_return k r s' t t' = (if \<not> returned t \<and> returned t' then [(k, r, fst (finish s' t'))] else [])"

inductive locked_hist :: "conc \<Rightarrow> request list \<Rightarrow> (nat \<times> request \<times> response) list \<Rightarrow> bool" where
  init: "locked_hist \<lparr>cstore = initial_db, threads = []\<rparr> [] []"
| arrive: "locked_hist c rq h \<Longrightarrow> locked_hist (c\<lparr>threads := threads c @ [Start r]\<rparr>) (rq @ [r]) h"
| move: "locked_hist c rq h \<Longrightarrow> i < length (threads c) \<Longrightarrow>
         returned (threads c ! i) \<or> (\<forall>j<length (threads c). j \<noteq> i \<longrightarrow> \<not> busy (threads c ! j)) \<Longrightarrow>
         locked_hist (step_at c i) rq
           (h @ record_return i (rq ! i) (cstore (step_at c i)) (threads c ! i) (threads (step_at c i) ! i))"

definition hist_reqs :: "(nat \<times> request \<times> response) list \<Rightarrow> request list" where
  "hist_reqs h = map (\<lambda>(k, r, a). r) h"

definition hist_resps :: "(nat \<times> request \<times> response) list \<Rightarrow> response list" where
  "hist_resps h = map (\<lambda>(k, r, a). a) h"

text \<open>A schedule the lock admits, and the history it records: the executable form of \<open>locked_hist\<close> along one schedule.\<close>

fun lock_admits :: "conc \<Rightarrow> nat list \<Rightarrow> bool" where
  "lock_admits c [] = True"
| "lock_admits c (i # is) =
     (i < length (threads c) \<and>
      (returned (threads c ! i) \<or> list_all (\<lambda>j. j = i \<or> \<not> busy (threads c ! j)) [0..<length (threads c)]) \<and>
      lock_admits (step_at c i) is)"

fun exec_hist :: "conc \<Rightarrow> request list \<Rightarrow> nat list \<Rightarrow> (nat \<times> request \<times> response) list" where
  "exec_hist c rq [] = []"
| "exec_hist c rq (i # is) =
     record_return i (rq ! i) (cstore (step_at c i)) (threads c ! i) (threads (step_at c i) ! i) @
     exec_hist (step_at c i) rq is"

section \<open>The invariant\<close>

text \<open>What a history says about one thread: it is in the history iff its handler has returned, with its own request and a response of the status code the client gets; the thread inside a handler will return what the handler returns on the replayed state.\<close>

definition thread_ok :: "request list \<Rightarrow> (nat \<times> request \<times> response) list \<Rightarrow> db \<Rightarrow> db \<Rightarrow> nat \<Rightarrow> tstate \<Rightarrow> bool" where
  "thread_ok rq h s0 s k t \<longleftrightarrow>
     (k \<in> fst ` set h \<longleftrightarrow> returned t) \<and>
     (\<forall>r. t = Start r \<longrightarrow> r = rq ! k) \<and>
     (returned t \<longrightarrow> (\<exists>a. (k, rq ! k, a) \<in> set h \<and> status_code_of a = status_code_of (fst (finish s t)))) \<and>
     (busy t \<longrightarrow> finish s t = handle s0 (rq ! k))"

definition lin_inv :: "conc \<Rightarrow> request list \<Rightarrow> (nat \<times> request \<times> response) list \<Rightarrow> bool" where
  "lin_inv c rq h \<longleftrightarrow>
     length rq = length (threads c) \<and> distinct (map fst h) \<and>
     fst (run initial_db (hist_reqs h)) = hist_resps h \<and>
     (\<forall>e\<in>set h. fst e < length (threads c)) \<and>
     (\<forall>k<length (threads c). thread_ok rq h (snd (run initial_db (hist_reqs h))) (cstore c) k (threads c ! k)) \<and>
     ((\<forall>k<length (threads c). \<not> busy (threads c ! k)) \<longrightarrow> snd (run initial_db (hist_reqs h)) = cstore c)"

section \<open>At most one successful accept per job, sequentially\<close>

text \<open>A job with the id exists and has left \<open>available\<close>; once true, no request makes it false.\<close>

definition taken :: "int \<Rightarrow> db \<Rightarrow> bool" where
  "taken jid s \<longleftrightarrow> (\<exists>j\<in>set (jobs s). job_id j = jid \<and> status j \<noteq> ''available'')"

fun accept_ok :: "int \<Rightarrow> request \<times> response \<Rightarrow> bool" where
  "accept_ok jid (AcceptJob j d, a) = (j = jid \<and> status_code_of a = 200)"
| "accept_ok jid _ = False"

section \<open>Lemmas\<close>

text \<open>Serialisation reads the store and does not write it; its status code is fixed at return.\<close>

lemma finish_serialise [simp]:
  "finish s (SerializeJob i) = (Response 200 (job_json (jobs s ! i)), s)"
  "finish s (SerializeLegacy m i) = (Response 200 (legacy_json (LegacyMessage m (jobs s ! i))), s)"
  by (simp_all add: finish_step)

lemma returned_tstep:
  "returned t \<Longrightarrow> snd (tstep s t) = s \<and> returned (fst (tstep s t)) \<and> finish s (fst (tstep s t)) = finish s t"
  by (cases t) (auto simp: finish_serialize_jobs simp flip: Cons_nth_drop_Suc)


lemma returned_finish:
  "returned t \<Longrightarrow> snd (finish s t) = s \<and> status_code_of (fst (finish s t)) = status_code_of (fst (finish s' t))"
  by (cases t) (simp_all add: finish_serialize_jobs)

lemma returned_not_start: "returned t \<Longrightarrow> t \<noteq> Start r"
  by (cases t) simp_all

lemma busy_not_returned: "busy t \<Longrightarrow> \<not> returned t"
  by (cases t) simp_all

lemma not_returned_not_done: "\<not> returned t \<Longrightarrow> \<not> is_done t"
  by (cases t) simp_all

lemma not_busy_not_returned: "\<not> busy t \<Longrightarrow> \<not> returned t \<Longrightarrow> \<exists>r. t = Start r"
  by (cases t) simp_all

lemma tstep_busy_or_returned: "busy (fst (tstep s t)) \<or> returned (fst (tstep s t))"
proof (cases t)
  case (Start r)
  then show ?thesis by (cases r) (auto simp: Let_def split: option.splits if_splits)
qed (simp_all add: Let_def)

lemma thread_ok_idle:
  "thread_ok rq h s0 s k t \<Longrightarrow> \<not> busy t \<Longrightarrow> thread_ok rq h s0' s' k t"
  unfolding thread_ok_def by (metis returned_finish)

lemma thread_ok_snoc:
  "thread_ok rq h s0 s k t \<Longrightarrow> \<not> busy t \<Longrightarrow> k \<noteq> i \<Longrightarrow> thread_ok rq (h @ [(i, r, a)]) s0' s' k t"
  using returned_finish [of t s s'] unfolding thread_ok_def by auto

lemma all_nth_update:
  "\<forall>k<length xs. k \<noteq> i \<longrightarrow> P k (xs ! k) \<Longrightarrow> P i x \<Longrightarrow> \<forall>k<length (xs[i := x]). P k (xs[i := x] ! k)"
  by (auto simp: nth_update_in)

lemma run_snoc:
  "run s (rs @ [r]) = (fst (run s rs) @ [fst (handle (snd (run s rs)) r)], snd (handle (snd (run s rs)) r))"
  by (induction rs arbitrary: s) (simp_all add: split_def Let_def)

lemma lin_inv_init: "lin_inv \<lparr>cstore = initial_db, threads = []\<rparr> [] []"
  by (simp add: lin_inv_def hist_reqs_def hist_resps_def)

lemma lin_inv_arrive: "lin_inv c rq h \<Longrightarrow> lin_inv (c\<lparr>threads := threads c @ [Start r]\<rparr>) (rq @ [r]) h"
  by (auto simp: lin_inv_def thread_ok_def nth_append less_Suc_eq)

lemma lin_inv_finish:
  assumes inv: "lin_inv c rq h" and i: "i < length (threads c)"
    and others: "\<forall>j<length (threads c). j \<noteq> i \<longrightarrow> \<not> busy (threads c ! j)"
    and notret: "\<not> returned (threads c ! i)" and st: "tstep (cstore c) (threads c ! i) = (t', s')"
  shows "finish s' t' = handle (snd (run initial_db (hist_reqs h))) (rq ! i)"
proof -
  have notdone: "\<not> is_done (threads c ! i)"
    using notret by (rule not_returned_not_done)
  show ?thesis
  proof (cases "busy (threads c ! i)")
    case True
    then have "finish (cstore c) (threads c ! i) = handle (snd (run initial_db (hist_reqs h))) (rq ! i)"
      using inv i by (simp add: lin_inv_def thread_ok_def)
    then show ?thesis using finish_step [OF notdone, of "cstore c"] st by simp
  next
    case False
    then obtain r where r: "threads c ! i = Start r"
      using not_busy_not_returned notret by blast
    have "r = rq ! i" and "snd (run initial_db (hist_reqs h)) = cstore c"
      using inv i r others by (auto simp: lin_inv_def thread_ok_def)
    then show ?thesis
      using finish_step [OF notdone, of "cstore c"] st r by (simp add: finish_handle)
  qed
qed

text \<open>The moving thread returns from its handler: its request and response join the history.\<close>

lemma lin_inv_answer:
  assumes inv: "lin_inv c rq h" and i: "i < length (threads c)"
    and others: "\<forall>j<length (threads c). j \<noteq> i \<longrightarrow> \<not> busy (threads c ! j)"
    and notret: "\<not> returned (threads c ! i)" and ret: "returned t'"
    and fin: "finish s' t' = handle (snd (run initial_db (hist_reqs h))) (rq ! i)"
  shows "lin_inv (c\<lparr>cstore := s', threads := (threads c)[i := t']\<rparr>) rq (h @ [(i, rq ! i, fst (finish s' t'))])"
proof -
  let ?a = "fst (finish s' t')"
  have h: "handle (snd (run initial_db (hist_reqs h))) (rq ! i) = (?a, s')"
    using fin returned_finish [OF ret, of s'] by (metis prod.collapse)
  have i_new: "i \<notin> fst ` set h"
    using inv i notret by (simp add: lin_inv_def thread_ok_def)
  have run': "run initial_db (hist_reqs (h @ [(i, rq ! i, ?a)])) = (hist_resps h @ [?a], s')"
    using inv h by (simp add: run_snoc hist_reqs_def hist_resps_def lin_inv_def)
  have self: "thread_ok rq (h @ [(i, rq ! i, ?a)]) s' s' i t'"
    using ret by (auto simp: thread_ok_def returned_not_busy returned_not_start)
  have threads': "\<forall>k<length ((threads c)[i := t']).
      thread_ok rq (h @ [(i, rq ! i, ?a)]) s' s' k ((threads c)[i := t'] ! k)"
    using inv others self by (intro all_nth_update) (auto simp: lin_inv_def intro: thread_ok_snoc)
  have "\<forall>k<length ((threads c)[i := t']). \<not> busy ((threads c)[i := t'] ! k)"
    using others ret by (intro all_nth_update) (simp_all add: returned_not_busy)
  then show ?thesis
    using inv i i_new run' threads'
    by (simp add: lin_inv_def) (auto simp: hist_reqs_def hist_resps_def)
qed

text \<open>The moving thread has returned and is being serialised: the store and the history do not change.\<close>

lemma lin_inv_serialise:
  assumes inv: "lin_inv c rq h" and i: "i < length (threads c)" and ret: "returned (threads c ! i)"
  shows "lin_inv (step_at c i) rq h"
proof -
  let ?t = "threads c ! i" and ?t' = "fst (tstep (cstore c) (threads c ! i))"
  have st: "snd (tstep (cstore c) ?t) = cstore c" and ret': "returned ?t'"
    and fin: "finish (cstore c) ?t' = finish (cstore c) ?t"
    using returned_tstep [OF ret] by simp_all
  have step: "step_at c i = c\<lparr>threads := (threads c)[i := ?t']\<rparr>"
    using i st by (simp add: step_at_def split_def)
  have self: "thread_ok rq h (snd (run initial_db (hist_reqs h))) (cstore c) i ?t'"
    using inv i ret ret' fin by (simp add: lin_inv_def thread_ok_def returned_not_busy returned_not_start)
  have "\<forall>k<length ((threads c)[i := ?t']).
      thread_ok rq h (snd (run initial_db (hist_reqs h))) (cstore c) k ((threads c)[i := ?t'] ! k)"
    using inv self by (intro all_nth_update) (simp_all add: lin_inv_def)
  moreover have "\<not> busy ((threads c)[i := ?t'] ! k) \<longleftrightarrow> \<not> busy (threads c ! k)" if "k < length (threads c)" for k
    using that ret ret' by (cases "k = i") (simp_all add: returned_not_busy)
  ultimately show ?thesis
    using inv step by (simp add: lin_inv_def)
qed

text \<open>The moving thread is still inside its handler: the history does not change.\<close>

lemma lin_inv_busy:
  assumes inv: "lin_inv c rq h" and i: "i < length (threads c)"
    and others: "\<forall>j<length (threads c). j \<noteq> i \<longrightarrow> \<not> busy (threads c ! j)"
    and notret: "\<not> returned (threads c ! i)" and b: "busy t'"
    and fin: "finish s' t' = handle (snd (run initial_db (hist_reqs h))) (rq ! i)"
  shows "lin_inv (c\<lparr>cstore := s', threads := (threads c)[i := t']\<rparr>) rq h"
proof -
  have i_new: "i \<notin> fst ` set h"
    using inv i notret by (simp add: lin_inv_def thread_ok_def)
  have self: "thread_ok rq h (snd (run initial_db (hist_reqs h))) s' i t'"
    using i_new b fin by (auto simp: thread_ok_def busy_not_returned)
  have threads': "\<forall>k<length ((threads c)[i := t']).
      thread_ok rq h (snd (run initial_db (hist_reqs h))) s' k ((threads c)[i := t'] ! k)"
    using inv others self by (intro all_nth_update) (auto simp: lin_inv_def intro: thread_ok_idle)
  have "busy ((threads c)[i := t'] ! i)"
    using i b by simp
  then show ?thesis
    using inv i threads' by (auto simp: lin_inv_def)
qed

lemma lin_inv_move:
  assumes inv: "lin_inv c rq h" and i: "i < length (threads c)"
    and lock: "returned (threads c ! i) \<or> (\<forall>j<length (threads c). j \<noteq> i \<longrightarrow> \<not> busy (threads c ! j))"
  shows "lin_inv (step_at c i) rq
           (h @ record_return i (rq ! i) (cstore (step_at c i)) (threads c ! i) (threads (step_at c i) ! i))"
proof (cases "returned (threads c ! i)")
  case True
  then show ?thesis
    using lin_inv_serialise [OF inv i True] by (simp add: record_return_def)
next
  case notret: False
  then have others: "\<forall>j<length (threads c). j \<noteq> i \<longrightarrow> \<not> busy (threads c ! j)"
    using lock by simp
  obtain t' s' where st: "tstep (cstore c) (threads c ! i) = (t', s')"
    by (cases "tstep (cstore c) (threads c ! i)")
  have step: "step_at c i = c\<lparr>cstore := s', threads := (threads c)[i := t']\<rparr>"
    using i st by (simp add: step_at_def)
  have fin: "finish s' t' = handle (snd (run initial_db (hist_reqs h))) (rq ! i)"
    using inv i others notret st by (rule lin_inv_finish)
  consider (r) "returned t'" | (b) "busy t'"
    using tstep_busy_or_returned [of "cstore c" "threads c ! i"] st by auto
  then show ?thesis
  proof cases
    case r
    then show ?thesis
      using lin_inv_answer [OF inv i others notret r fin] step i notret
      by (simp add: record_return_def)
  next
    case b
    then show ?thesis
      using lin_inv_busy [OF inv i others notret b fin] step i
      by (simp add: record_return_def busy_not_returned)
  qed
qed

lemma locked_hist_inv: "locked_hist c rq h \<Longrightarrow> lin_inv c rq h"
  by (induction rule: locked_hist.induct) (simp_all add: lin_inv_init lin_inv_arrive lin_inv_move)

lemma taken_map_first:
  assumes "taken jid s" and "\<And>j. job_id (f j) = job_id j" and "\<And>j. status (f j) \<noteq> ''available''"
  shows "taken jid (s\<lparr>jobs := map_first P f (jobs s)\<rparr>)"
proof -
  obtain j where j: "j \<in> set (jobs s)" "job_id j = jid" "status j \<noteq> ''available''"
    using assms(1) by (auto simp: taken_def)
  then show ?thesis
    using map_first_keeps [OF j(1), of P f] assms(2,3) by (auto simp: taken_def)
qed

lemma taken_append: "taken jid s \<Longrightarrow> taken jid (s\<lparr>jobs := jobs s @ js, next_job_id := n\<rparr>)"
  by (auto simp: taken_def)

lemma handle_taken: "taken jid s \<Longrightarrow> taken jid (snd (handle s r))"
  by (auto simp: handle_state handler_eqs create_job_eq Let_def
           intro: taken_map_first taken_append split: request.split option.split if_splits)

lemma handle_accept_ok:
  assumes wf: "wf_db s" and ok: "accept_ok jid (r, fst (handle s r))"
  shows "\<not> taken jid s \<and> taken jid (snd (handle s r))"
proof -
  obtain d where r: "r = AcceptJob jid d"
    using ok by (cases "(jid, (r, fst (handle s r)))" rule: accept_ok.cases) auto
  obtain j0 where found: "find (has_id jid) (jobs s) = Some j0" and avail: "status j0 = ''available''"
    using ok unfolding r by (auto simp: accept_job_eq split: option.splits if_splits)
  have dist: "distinct (map job_id (jobs s))"
    using wf by (simp add: wf_db_def ids_fresh_def)
  have "j = j0" if "j \<in> set (jobs s)" and "job_id j = jid" for j
    using find_key_distinct [OF dist that(1)] found that(2) by simp
  then have "\<not> taken jid s"
    using avail by (auto simp: taken_def)
  moreover have "find (has_id jid) (jobs (snd (handle s r))) = Some (j0\<lparr>status := ''assigned'', driver_id := d\<rparr>)"
    using found avail by (simp add: r accept_job_eq find_map_first)
  then have "taken jid (snd (handle s r))"
    by (auto simp: taken_def dest!: find_Some_mem)
  ultimately show ?thesis ..
qed

lemma run_accept_once:
  "reachable s \<Longrightarrow> length (filter (accept_ok jid) (zip rs (fst (run s rs)))) \<le> (if taken jid s then 0 else 1)"
proof (induction rs arbitrary: s)
  case Nil
  then show ?case by simp
next
  case (Cons r rs)
  have wf: "wf_db s"
    using Cons.prems by (simp add: reachable_inv)
  have IH: "length (filter (accept_ok jid) (zip rs (fst (run (snd (handle s r)) rs)))) \<le>
            (if taken jid (snd (handle s r)) then 0 else 1)"
    using Cons.IH [OF reachable.step [OF Cons.prems]] .
  show ?case
  proof (cases "accept_ok jid (r, fst (handle s r))")
    case True
    then show ?thesis
      using handle_accept_ok [OF wf True] IH by (simp add: split_def Let_def)
  next
    case False
    then show ?thesis
      using IH handle_taken [of jid s r] by (auto simp: split_def Let_def split: if_splits)
  qed
qed

section \<open>Histories and locked states\<close>

lemma zip_hist: "zip (hist_reqs h) (hist_resps h) = map snd h"
  by (induction h) (auto simp: hist_reqs_def hist_resps_def)

lemma locked_hist_reach: "locked_hist c rq h \<Longrightarrow> locked_reach c"
  by (induction rule: locked_hist.induct) (auto intro: locked_reach.intros)

lemma locked_reach_hist: "locked_reach c \<Longrightarrow> \<exists>rq h. locked_hist c rq h"
proof (induction rule: locked_reach.induct)
  case init
  then show ?case by (blast intro: locked_hist.init)
next
  case (arrive c r)
  then show ?case by (blast intro: locked_hist.arrive)
next
  case (move c i)
  then obtain rq h where h: "locked_hist c rq h" by blast
  show ?case
  proof (cases "i < length (threads c)")
    case True
    with h move.hyps(2) show ?thesis by (blast intro: locked_hist.move)
  next
    case False
    then have "step_at c i = c" by (simp add: step_at_def)
    with h show ?thesis by auto
  qed
qed

lemma locked_hist_step:
  "locked_hist c rq h \<Longrightarrow> i < length (threads c) \<Longrightarrow>
   returned (threads c ! i) \<or> list_all (\<lambda>j. j = i \<or> \<not> busy (threads c ! j)) [0..<length (threads c)] \<Longrightarrow>
   locked_hist (step_at c i) rq (h @ record_return i (rq ! i) (cstore (step_at c i)) (threads c ! i) (threads (step_at c i) ! i))"
  by (rule locked_hist.move) (auto simp: list_all_iff)

lemma locked_hist_exec:
  "locked_hist c rq h \<Longrightarrow> lock_admits c sched \<Longrightarrow> locked_hist (exec c sched) rq (h @ exec_hist c rq sched)"
proof (induction sched arbitrary: c h)
  case Nil
  then show ?case by simp
next
  case (Cons i sched)
  then have "locked_hist (step_at c i) rq
               (h @ record_return i (rq ! i) (cstore (step_at c i)) (threads c ! i) (threads (step_at c i) ! i))"
    by (auto intro: locked_hist_step)
  then show ?case
    using Cons.IH Cons.prems(2) by fastforce
qed

lemma locked_hist_spawn: "locked_hist (spawn initial_db rs) rs []"
proof (induction rs rule: rev_induct)
  case Nil
  then show ?case by (simp add: spawn_def locked_hist.init)
next
  case (snoc r rs)
  then have "locked_hist ((spawn initial_db rs)\<lparr>threads := threads (spawn initial_db rs) @ [Start r]\<rparr>) (rs @ [r]) []"
    by (rule locked_hist.arrive)
  then show ?case by (simp add: spawn_def)
qed

section \<open>Properties\<close>

text \<open>
  C25: with a global lock around each handler, concurrent dispatch is
  linearizable in the store and in the status codes: whenever no handler is in
  progress, serving the returned requests one after the other, in the order
  their handlers returned, from the seed data gives the responses the handlers
  returned and the current store, and every answered client receives the
  status code of its entry in that history. The lost update (\<open>conc_lost_update\<close>) and the
  undone completion (\<open>conc_complete_undone\<close>) are therefore impossible under the lock.
\<close>

theorem locked_linearizable:
  assumes "locked_hist c rq h" and "list_all (\<lambda>t. \<not> busy t) (threads c)"
  shows "run initial_db (hist_reqs h) = (hist_resps h, cstore c) \<and>
         (\<forall>k<length (threads c). \<forall>a. threads c ! k = Done a \<longrightarrow>
            (\<exists>a'. (k, rq ! k, a') \<in> set h \<and> status_code_of a' = status_code_of a))"
proof -
  have inv: "lin_inv c rq h"
    using assms(1) by (rule locked_hist_inv)
  have "thread_ok rq h (snd (run initial_db (hist_reqs h))) (cstore c) k (Done a)"
    if "k < length (threads c)" and "threads c ! k = Done a" for k a
    using inv that by (auto simp: lin_inv_def)
  then show ?thesis
    using inv assms(2) by (auto simp: lin_inv_def thread_ok_def list_all_length prod_eq_iff)
qed

text \<open>
  C26: with the lock, no two clients are both told they accepted the same job:
  if two threads asked to accept job \<open>jid\<close> and both were answered 200, they
  are the same thread. This is the outcome the specification's tests require
  and the one \<open>conc_lost_update\<close> shows lost without the lock.
\<close>

theorem locked_single_accept:
  assumes "locked_hist c rq h" and "k1 < length (threads c)" and "k2 < length (threads c)"
    and "rq ! k1 = AcceptJob jid d1" and "rq ! k2 = AcceptJob jid d2"
    and "threads c ! k1 = Done (Response 200 b1)" and "threads c ! k2 = Done (Response 200 b2)"
  shows "k1 = k2"
proof (rule ccontr)
  assume ne: "k1 \<noteq> k2"
  have inv: "lin_inv c rq h"
    using assms(1) by (rule locked_hist_inv)
  obtain a1 where in1: "(k1, AcceptJob jid d1, a1) \<in> set (filter (accept_ok jid \<circ> snd) h)"
    using inv assms(2,4,6) by (fastforce simp: lin_inv_def thread_ok_def)
  obtain a2 where in2: "(k2, AcceptJob jid d2, a2) \<in> set (filter (accept_ok jid \<circ> snd) h)"
    using inv assms(3,5,7) by (fastforce simp: lin_inv_def thread_ok_def)
  have "2 \<le> card (set (filter (accept_ok jid \<circ> snd) h))"
    using in1 in2 ne card_mono [of "set (filter (accept_ok jid \<circ> snd) h)"
        "{(k1, AcceptJob jid d1, a1), (k2, AcceptJob jid d2, a2)}"] by auto
  also have "\<dots> \<le> length (filter (accept_ok jid) (map snd h))"
    by (simp only: filter_map length_map card_length)
  also have "\<dots> \<le> 1"
    using run_accept_once [OF reachable.init, of jid "hist_reqs h"] inv
    by (simp add: lin_inv_def zip_hist split: if_splits)
  finally show False by simp
qed

text \<open>
  The lock does not make the bodies consistent. A handler returns the job
  object of the store and FastAPI serialises it after the handler has returned,
  outside the lock. An accept of job 1 returns (its history entry: status
  \<open>assigned\<close>), a completion of job 1 then runs in full, and only then is the
  accept's job serialised: the client that accepted is answered 200 with the job
  already \<open>completed\<close>, a body no sequential order of the two requests gives.
\<close>

theorem locked_stale_response:
  "locked_hist (exec (spawn initial_db [AcceptJob 1 (Some 2), CompleteJob 1]) [0, 0, 0, 1, 1, 1, 0])
     [AcceptJob 1 (Some 2), CompleteJob 1]
     [(0, AcceptJob 1 (Some 2), Response 200 (job_json ((hd seed_jobs)\<lparr>status := ''assigned'', driver_id := Some 2\<rparr>))),
      (1, CompleteJob 1, Response 200 (legacy_json (LegacyMessage ''Job completed''
         ((hd seed_jobs)\<lparr>status := ''completed'', driver_id := Some 2\<rparr>))))] \<and>
   threads (exec (spawn initial_db [AcceptJob 1 (Some 2), CompleteJob 1]) [0, 0, 0, 1, 1, 1, 0]) ! 0 =
     Done (Response 200 (job_json ((hd seed_jobs)\<lparr>status := ''completed'', driver_id := Some 2\<rparr>))) \<and>
   fst (handle initial_db (AcceptJob 1 (Some 2))) =
     Response 200 (job_json ((hd seed_jobs)\<lparr>status := ''assigned'', driver_id := Some 2\<rparr>)) \<and>
   fst (handle (snd (handle initial_db (CompleteJob 1))) (AcceptJob 1 (Some 2))) =
     http_exception_response (HTTPException 400 ''Job already assigned or completed'')"
proof -
  let ?rq = "[AcceptJob 1 (Some 2), CompleteJob 1]" and ?sched = "[0, 0, 0, 1, 1, 1, 0]"
  have adm: "lock_admits (spawn initial_db ?rq) ?sched"
    by code_simp
  have eh: "exec_hist (spawn initial_db ?rq) ?rq ?sched =
     [(0, AcceptJob 1 (Some 2), Response 200 (job_json ((hd seed_jobs)\<lparr>status := ''assigned'', driver_id := Some 2\<rparr>))),
      (1, CompleteJob 1, Response 200 (legacy_json (LegacyMessage ''Job completed''
         ((hd seed_jobs)\<lparr>status := ''completed'', driver_id := Some 2\<rparr>))))]"
    by code_simp
  have rest: "threads (exec (spawn initial_db ?rq) ?sched) ! 0 =
       Done (Response 200 (job_json ((hd seed_jobs)\<lparr>status := ''completed'', driver_id := Some 2\<rparr>))) \<and>
     fst (handle initial_db (AcceptJob 1 (Some 2))) =
       Response 200 (job_json ((hd seed_jobs)\<lparr>status := ''assigned'', driver_id := Some 2\<rparr>)) \<and>
     fst (handle (snd (handle initial_db (CompleteJob 1))) (AcceptJob 1 (Some 2))) =
       http_exception_response (HTTPException 400 ''Job already assigned or completed'')"
    by code_simp
  have "locked_hist (exec (spawn initial_db ?rq) ?sched) ?rq (exec_hist (spawn initial_db ?rq) ?rq ?sched)"
    using locked_hist_exec [OF locked_hist_spawn adm] by (simp only: append_Nil)
  from this [unfolded eh] rest show ?thesis by (rule conjI)
qed

text \<open>
  Under the lock, \<open>GET /jobs\<close> can answer a list that was never the
  state of the server. Its serialisation reads the shared list one job at a
  time after \<open>get_jobs\<close> has returned. It reads job 1 while it is still
  \<open>available\<close>; an accept of job 1 for driver 1 then runs to its answer, and
  only after that an accept of job 2 for driver 2; then it reads job 2. The
  client gets job 1 \<open>available\<close> and job 2 \<open>assigned\<close>, while job 2 was
  taken after job 1: served one at a time with the first accept before the
  second, wherever the listing comes, it never answers that list.
\<close>

theorem locked_torn_list:
  "locked_reach (exec (spawn initial_db [GetJobs, AcceptJob 1 (Some 1), AcceptJob 2 (Some 2)])
                      [0, 0, 1, 1, 1, 1, 2, 2, 2, 2, 0, 0]) \<and>
   threads (exec (spawn initial_db [GetJobs, AcceptJob 1 (Some 1), AcceptJob 2 (Some 2)])
                 [0, 0, 1, 1, 1, 1, 2, 2, 2, 2, 0, 0]) =
     [Done (Response 200 (JArr [job_json (seed_jobs ! 0),
                               job_json ((seed_jobs ! 1)\<lparr>status := ''assigned'', driver_id := Some 2\<rparr>)])),
      Done (Response 200 (job_json ((seed_jobs ! 0)\<lparr>status := ''assigned'', driver_id := Some 1\<rparr>))),
      Done (Response 200 (job_json ((seed_jobs ! 1)\<lparr>status := ''assigned'', driver_id := Some 2\<rparr>)))] \<and>
   fst (run initial_db [GetJobs, AcceptJob 1 (Some 1), AcceptJob 2 (Some 2)]) ! 0 \<noteq>
     Response 200 (JArr [job_json (seed_jobs ! 0), job_json ((seed_jobs ! 1)\<lparr>status := ''assigned'', driver_id := Some 2\<rparr>)]) \<and>
   fst (run initial_db [AcceptJob 1 (Some 1), GetJobs, AcceptJob 2 (Some 2)]) ! 1 \<noteq>
     Response 200 (JArr [job_json (seed_jobs ! 0), job_json ((seed_jobs ! 1)\<lparr>status := ''assigned'', driver_id := Some 2\<rparr>)]) \<and>
   fst (run initial_db [AcceptJob 1 (Some 1), AcceptJob 2 (Some 2), GetJobs]) ! 2 \<noteq>
     Response 200 (JArr [job_json (seed_jobs ! 0), job_json ((seed_jobs ! 1)\<lparr>status := ''assigned'', driver_id := Some 2\<rparr>)])"
proof -
  let ?rq = "[GetJobs, AcceptJob 1 (Some 1), AcceptJob 2 (Some 2)]" and ?sched = "[0, 0, 1, 1, 1, 1, 2, 2, 2, 2, 0, 0]"
  have adm: "lock_admits (spawn initial_db ?rq) ?sched"
    by code_simp
  have "locked_reach (exec (spawn initial_db ?rq) ?sched)"
    using locked_hist_reach [OF locked_hist_exec [OF locked_hist_spawn adm]] .
  moreover have "threads (exec (spawn initial_db ?rq) ?sched) =
     [Done (Response 200 (JArr [job_json (seed_jobs ! 0),
                               job_json ((seed_jobs ! 1)\<lparr>status := ''assigned'', driver_id := Some 2\<rparr>)])),
      Done (Response 200 (job_json ((seed_jobs ! 0)\<lparr>status := ''assigned'', driver_id := Some 1\<rparr>))),
      Done (Response 200 (job_json ((seed_jobs ! 1)\<lparr>status := ''assigned'', driver_id := Some 2\<rparr>)))] \<and>
   fst (run initial_db [GetJobs, AcceptJob 1 (Some 1), AcceptJob 2 (Some 2)]) ! 0 \<noteq>
     Response 200 (JArr [job_json (seed_jobs ! 0), job_json ((seed_jobs ! 1)\<lparr>status := ''assigned'', driver_id := Some 2\<rparr>)]) \<and>
   fst (run initial_db [AcceptJob 1 (Some 1), GetJobs, AcceptJob 2 (Some 2)]) ! 1 \<noteq>
     Response 200 (JArr [job_json (seed_jobs ! 0), job_json ((seed_jobs ! 1)\<lparr>status := ''assigned'', driver_id := Some 2\<rparr>)]) \<and>
   fst (run initial_db [AcceptJob 1 (Some 1), AcceptJob 2 (Some 2), GetJobs]) ! 2 \<noteq>
     Response 200 (JArr [job_json (seed_jobs ! 0), job_json ((seed_jobs ! 1)\<lparr>status := ''assigned'', driver_id := Some 2\<rparr>)])"
    by code_simp
  ultimately show ?thesis by (rule conjI)
qed

lemma two_accepts_locked:
  "locked_hist (exec (spawn initial_db [AcceptJob 1 (Some 1), AcceptJob 1 (Some 2)]) [0, 0, 0, 0, 1])
     [AcceptJob 1 (Some 1), AcceptJob 1 (Some 2)]
     [(0, AcceptJob 1 (Some 1), Response 200 (job_json ((hd seed_jobs)\<lparr>status := ''assigned'', driver_id := Some 1\<rparr>))),
      (1, AcceptJob 1 (Some 2), http_exception_response (HTTPException 400 ''Job already assigned or completed''))]"
proof -
  let ?rq = "[AcceptJob 1 (Some 1), AcceptJob 1 (Some 2)]" and ?sched = "[0, 0, 0, 0, 1]"
  have adm: "lock_admits (spawn initial_db ?rq) ?sched"
    by code_simp
  have eh: "exec_hist (spawn initial_db ?rq) ?rq ?sched =
     [(0, AcceptJob 1 (Some 1), Response 200 (job_json ((hd seed_jobs)\<lparr>status := ''assigned'', driver_id := Some 1\<rparr>))),
      (1, AcceptJob 1 (Some 2), http_exception_response (HTTPException 400 ''Job already assigned or completed''))]"
    by code_simp
  show ?thesis
    using locked_hist_exec [OF locked_hist_spawn adm] unfolding eh by (simp only: append_Nil)
qed

theorem locked_linearizable_witness:
  "list_all (\<lambda>t. \<not> busy t) (threads (exec (spawn initial_db [AcceptJob 1 (Some 1), AcceptJob 1 (Some 2)]) [0, 0, 0, 0, 1])) \<and>
   run initial_db [AcceptJob 1 (Some 1), AcceptJob 1 (Some 2)] =
     ([Response 200 (job_json ((hd seed_jobs)\<lparr>status := ''assigned'', driver_id := Some 1\<rparr>)),
       http_exception_response (HTTPException 400 ''Job already assigned or completed'')],
      cstore (exec (spawn initial_db [AcceptJob 1 (Some 1), AcceptJob 1 (Some 2)]) [0, 0, 0, 0, 1]))"
proof -
  have q: "list_all (\<lambda>t. \<not> busy t) (threads (exec (spawn initial_db [AcceptJob 1 (Some 1), AcceptJob 1 (Some 2)]) [0, 0, 0, 0, 1]))"
    by (simp add: spawn_def step_at_def initial_db_def seed_jobs_def Job_def)
  show ?thesis
    using q locked_linearizable [OF two_accepts_locked q] by (simp add: hist_reqs_def hist_resps_def)
qed

theorem locked_single_accept_witness:
  "threads (exec (spawn initial_db [AcceptJob 1 (Some 1), AcceptJob 1 (Some 2)]) [0, 0, 0, 0, 1]) ! 0 =
     Done (Response 200 (job_json ((hd seed_jobs)\<lparr>status := ''assigned'', driver_id := Some 1\<rparr>))) \<and>
   threads (exec (spawn initial_db [AcceptJob 1 (Some 1), AcceptJob 1 (Some 2)]) [0, 0, 0, 0, 1]) ! 1 =
     Done (http_exception_response (HTTPException 400 ''Job already assigned or completed''))"
proof -
  have t0: "threads (exec (spawn initial_db [AcceptJob 1 (Some 1), AcceptJob 1 (Some 2)]) [0, 0, 0, 0, 1]) ! 0 =
     Done (Response 200 (job_json ((hd seed_jobs)\<lparr>status := ''assigned'', driver_id := Some 1\<rparr>)))"
    by (simp add: spawn_def step_at_def initial_db_def seed_jobs_def Job_def)
  have t1: "threads (exec (spawn initial_db [AcceptJob 1 (Some 1), AcceptJob 1 (Some 2)]) [0, 0, 0, 0, 1]) ! 1 =
     Done (http_exception_response (HTTPException 400 ''Job already assigned or completed''))"
    by (simp add: spawn_def step_at_def initial_db_def seed_jobs_def Job_def)
  have "(0::nat) = 0"
    by (rule locked_single_accept [OF two_accepts_locked _ _ _ _ t0 t0]) (simp_all add: spawn_def)
  with t0 t1 show ?thesis by simp
qed

end
