(* ===== verification/Http.thy ===== *)
theory Http
  imports Router
begin

text \<open>
  The HTTP layer FastAPI puts in front of the handlers of \<open>src/main.py\<close>. The
  four documentation routes FastAPI adds and the seven decorators form a route
  table, tried in order: a route whose path pattern and method both match is
  taken; if only paths match, the answer is 405, and if nothing matches, 404
  (Starlette's router). A \<open>{param}\<close> of a pattern matches one non-empty path
  segment; FastAPI then converts the path parameters, and the scalar parameter
  \<open>driver_id\<close> of \<open>accept_job\<close>, which it reads from the query string, to
  \<open>int\<close>, answering 422 when one does not convert. Numbers are decimal with an
  optional minus sign (pydantic's other lax forms, such as surrounding spaces or
  underscores, are not modelled). When no route matches, Starlette redirects to
  the path with its trailing slash toggled if that path matches a route. Paths
  are the percent-decoded paths the ASGI server passes to the application.
\<close>

section \<open>Decimal integers in paths and queries\<close>

definition digit_char :: "nat \<Rightarrow> char" where
  "digit_char d = char_of (48 + d)"

definition is_digit :: "char \<Rightarrow> bool" where
  "is_digit c \<longleftrightarrow> 48 \<le> (of_char c :: nat) \<and> (of_char c :: nat) \<le> 57"

definition digit_value :: "char \<Rightarrow> nat" where
  "digit_value c = of_char c - 48"

fun show_nat :: "nat \<Rightarrow> string" where
  "show_nat n = (if n < 10 then [digit_char n] else show_nat (n div 10) @ [digit_char (n mod 10)])"

definition show_int :: "int \<Rightarrow> string" where
  "show_int i = (if i < 0 then CHR ''-'' # show_nat (nat (- i)) else show_nat (nat i))"

definition parse_nat :: "string \<Rightarrow> nat option" where
  "parse_nat cs =
     (if cs \<noteq> [] \<and> list_all is_digit cs
      then Some (foldl (\<lambda>acc c. 10 * acc + digit_value c) 0 cs) else None)"

fun parse_int :: "string \<Rightarrow> int option" where
  "parse_int [] = None"
| "parse_int (c # cs) =
     (if c = CHR ''-'' then map_option (\<lambda>n. - int n) (parse_nat cs)
      else map_option int (parse_nat (c # cs)))"

declare show_nat.simps [simp del]

section \<open>Requests on the wire\<close>

datatype http_method = GET | HEAD | POST | PUT | DELETE | PATCH | OPTIONS

record http_request =
  meth :: http_method
  path :: string
  query :: "(string \<times> string) list"
  body :: "json option"

text \<open>A path split at every \<open>/\<close>; a path that does not start with \<open>/\<close> has no segments.\<close>

fun split_segments :: "string \<Rightarrow> string list" where
  "split_segments [] = [[]]"
| "split_segments (c # cs) =
     (if c = CHR ''/'' then [] # split_segments cs
      else (case split_segments cs of s # ss \<Rightarrow> (c # s) # ss | [] \<Rightarrow> [[c]]))"

fun path_segments :: "string \<Rightarrow> string list option" where
  "path_segments (c # cs) = (if c = CHR ''/'' then Some (split_segments cs) else None)"
| "path_segments [] = None"

datatype seg = Lit string | Param

datatype endpoint =
    EDocs docs_page
  | EHome | EGetJobs | ECreateJob | EAcceptJob | EAssignDriver | ECompleteJob | EGetDrivers

text \<open>The metadata \<open>app = FastAPI(...)\<close> is created with.\<close>

definition app_metadata :: app_info where
  "app_metadata =
     \<lparr>app_title = ''Last-Mile Logistics API'',
      app_description = ''Backend API for connecting autonomous trucking companies with local truckers.'',
      app_version = ''1.0.0''\<rparr>"

text \<open>
  The routes of the application in their order: first the four documentation
  routes that \<open>FastAPI.__init__\<close> adds (Starlette routes, so \<open>GET\<close> and
  \<open>HEAD\<close>), then the decorators of \<open>src/main.py\<close> (FastAPI routes: only the
  declared method).
\<close>

definition route_table :: "(http_method \<times> seg list \<times> endpoint) list" where
  "route_table =
     [(GET, [Lit ''openapi.json''], EDocs OpenApiJson),
      (HEAD, [Lit ''openapi.json''], EDocs OpenApiJson),
      (GET, [Lit ''docs''], EDocs SwaggerUI),
      (HEAD, [Lit ''docs''], EDocs SwaggerUI),
      (GET, [Lit ''docs'', Lit ''oauth2-redirect''], EDocs SwaggerUIOAuth2Redirect),
      (HEAD, [Lit ''docs'', Lit ''oauth2-redirect''], EDocs SwaggerUIOAuth2Redirect),
      (GET, [Lit ''redoc''], EDocs ReDoc),
      (HEAD, [Lit ''redoc''], EDocs ReDoc),
      (GET, [Lit []], EHome),
      (GET, [Lit ''jobs''], EGetJobs),
      (POST, [Lit ''jobs''], ECreateJob),
      (POST, [Lit ''jobs'', Param, Lit ''accept''], EAcceptJob),
      (POST, [Lit ''assign'', Param, Param], EAssignDriver),
      (POST, [Lit ''complete'', Param], ECompleteJob),
      (GET, [Lit ''drivers''], EGetDrivers)]"

text \<open>Matching a pattern against the segments gives the captured parameters.\<close>

fun match_segs :: "seg list \<Rightarrow> string list \<Rightarrow> string list option" where
  "match_segs [] [] = Some []"
| "match_segs (Lit l # ps) (x # xs) = (if l = x then match_segs ps xs else None)"
| "match_segs (Param # ps) (x # xs) = (if x \<noteq> [] then map_option ((#) x) (match_segs ps xs) else None)"
| "match_segs _ _ = None"

datatype route_match = Full endpoint "string list" | Partial | NoMatch

text \<open>
  Starlette's loop over the routes: the first full match wins; a route whose
  path matches under another method is remembered as a partial match.
\<close>

fun find_route :: "http_method \<Rightarrow> string list \<Rightarrow> (http_method \<times> seg list \<times> endpoint) list \<Rightarrow> route_match" where
  "find_route m segs [] = NoMatch"
| "find_route m segs ((m', pat, e) # rs) =
     (case match_segs pat segs of
        None \<Rightarrow> find_route m segs rs
      | Some ps \<Rightarrow>
          if m' = m then Full e ps
          else (case find_route m segs rs of Full e' ps' \<Rightarrow> Full e' ps' | _ \<Rightarrow> Partial))"

text \<open>
  The last value of a repeated query key is the one FastAPI reads for a scalar
  parameter.
\<close>

definition query_param :: "(string \<times> string) list \<Rightarrow> string \<Rightarrow> string option" where
  "query_param q k = map_of (rev q) k"

text \<open>
  FastAPI's binding of an endpoint's parameters: path parameters and the query
  parameter \<open>driver_id\<close> converted to \<open>int\<close>, the \<open>POST /jobs\<close> body required.
  \<open>None\<close> is a 422. The body of \<open>POST /jobs/{job_id}/accept\<close> is not read:
  \<open>driver_id\<close> is a scalar parameter, so it comes from the query only.
\<close>

fun bind_params :: "endpoint \<Rightarrow> string list \<Rightarrow> (string \<times> string) list \<Rightarrow> json option \<Rightarrow> request option" where
  "bind_params EHome ps q b = Some Home"
| "bind_params EGetJobs ps q b = Some GetJobs"
| "bind_params ECreateJob ps q b = map_option PostJobs b"
| "bind_params EAcceptJob [x] q b =
     do { jid \<leftarrow> parse_int x;
          did \<leftarrow> (case query_param q ''driver_id'' of
                    None \<Rightarrow> Some None
                  | Some v \<Rightarrow> map_option Some (parse_int v));
          Some (AcceptJob jid did) }"
| "bind_params EAssignDriver [x, y] q b =
     do { jid \<leftarrow> parse_int x; did \<leftarrow> parse_int y; Some (AssignDriver jid did) }"
| "bind_params ECompleteJob [x] q b = map_option CompleteJob (parse_int x)"
| "bind_params EGetDrivers ps q b = Some GetDrivers"
| "bind_params _ _ q b = None"

definition not_found :: response where
  "not_found = Response 404 (JObj [(''detail'', JStr ''Not Found'')])"

definition method_not_allowed :: response where
  "method_not_allowed = Response 405 (JObj [(''detail'', JStr ''Method Not Allowed'')])"

text \<open>
  Starlette's \<open>redirect_slashes\<close>: when no route matches a path other than
  \<open>/\<close>, the path with its trailing slashes removed (or with one added, when
  it has none) is tried against every route, under any method; if one matches,
  the answer is a redirect to it.
\<close>

definition toggle_slash :: "string \<Rightarrow> string" where
  "toggle_slash p =
     (if p \<noteq> [] \<and> last p = CHR ''/'' then rev (dropWhile (\<lambda>c. c = CHR ''/'') (rev p)) else p @ ''/'')"

definition slash_redirect :: "string \<Rightarrow> string option" where
  "slash_redirect p =
     (if p = ''/'' then None
      else (case path_segments (toggle_slash p) of
              None \<Rightarrow> None
            | Some segs \<Rightarrow>
                if list_ex (\<lambda>(m, pat, e). match_segs pat segs \<noteq> None) route_table
                then Some (toggle_slash p) else None))"

text \<open>
  What a matched route does: a documentation route answers with its generated
  page; a route of \<open>src/main.py\<close> binds its parameters (422 when they do not
  bind), runs its handler and serialises what it returns against its
  \<open>response_model\<close> (\<open>serialize_response\<close>).
\<close>

fun endpoint_response ::
  "db \<Rightarrow> endpoint \<Rightarrow> string list \<Rightarrow> (string \<times> string) list \<Rightarrow> json option \<Rightarrow> response \<times> db" where
  "endpoint_response s (EDocs p) ps q b = (DocsPage p app_metadata, s)"
| "endpoint_response s e ps q b =
     (case bind_params e ps q b of
        None \<Rightarrow> (UnprocessableEntity, s)
      | Some r \<Rightarrow> serialize_response r (handle s r))"

text \<open>The server as a client sees it: an HTTP request in, a response out.\<close>

definition serve :: "db \<Rightarrow> http_request \<Rightarrow> response \<times> db" where
  "serve s req =
     (case path_segments (path req) of
        None \<Rightarrow> (not_found, s)
      | Some segs \<Rightarrow>
          (case find_route (meth req) segs route_table of
             NoMatch \<Rightarrow>
               (case slash_redirect (path req) of
                  None \<Rightarrow> (not_found, s)
                | Some p \<Rightarrow> (RedirectResponse p (query req), s))
           | Partial \<Rightarrow> (method_not_allowed, s)
           | Full e ps \<Rightarrow> endpoint_response s e ps (query req) (body req)))"

text \<open>How a client writes each request of the API on the wire.\<close>

fun render_request :: "request \<Rightarrow> http_request" where
  "render_request Home = \<lparr>meth = GET, path = ''/'', query = [], body = None\<rparr>"
| "render_request GetJobs = \<lparr>meth = GET, path = ''/jobs'', query = [], body = None\<rparr>"
| "render_request (PostJobs b) = \<lparr>meth = POST, path = ''/jobs'', query = [], body = Some b\<rparr>"
| "render_request (AcceptJob jid did) =
     \<lparr>meth = POST, path = ''/jobs/'' @ show_int jid @ ''/accept'',
      query = (case did of None \<Rightarrow> [] | Some d \<Rightarrow> [(''driver_id'', show_int d)]), body = None\<rparr>"
| "render_request (AssignDriver jid did) =
     \<lparr>meth = POST, path = ''/assign/'' @ show_int jid @ ''/'' @ show_int did, query = [], body = None\<rparr>"
| "render_request (CompleteJob jid) =
     \<lparr>meth = POST, path = ''/complete/'' @ show_int jid, query = [], body = None\<rparr>"
| "render_request GetDrivers = \<lparr>meth = GET, path = ''/drivers'', query = [], body = None\<rparr>"

section \<open>Decimal numbers and path segments\<close>

text \<open>
  Printing an \<open>int\<close> in decimal and parsing it back gives the same \<open>int\<close>;
  the printed form has no \<open>/\<close>, so it is one path segment.
\<close>

lemma of_char_digit_char: "d < 10 \<Longrightarrow> (of_char (digit_char d) :: nat) = 48 + d"
  by (simp add: digit_char_def)

lemma digit_char_props:
  assumes "d < 10"
  shows "is_digit (digit_char d)" and "digit_value (digit_char d) = d"
    and "CHR ''-'' \<noteq> digit_char d" and "CHR ''/'' \<noteq> digit_char d"
proof -
  have c: "(of_char (digit_char d) :: nat) = 48 + d"
    using assms by (rule of_char_digit_char)
  show "is_digit (digit_char d)" and "digit_value (digit_char d) = d"
    using c assms by (simp_all add: is_digit_def digit_value_def)
  show "CHR ''-'' \<noteq> digit_char d" and "CHR ''/'' \<noteq> digit_char d"
    using c by (auto dest: arg_cong [where f = "of_char :: char \<Rightarrow> nat"])
qed

lemma show_nat_digits: "set (show_nat n) \<subseteq> digit_char ` {..<10}"
  by (induction n rule: show_nat.induct) (subst show_nat.simps, auto)

lemma show_nat_ne: "show_nat n \<noteq> []"
  by (subst show_nat.simps) simp

lemma foldl_show_nat: "foldl (\<lambda>acc c. 10 * acc + digit_value c) 0 (show_nat n) = n"
proof (induction n rule: show_nat.induct)
  case (1 n)
  show ?case
  proof (cases "n < 10")
    case True
    then show ?thesis by (subst show_nat.simps) (simp add: digit_char_props)
  next
    case False
    with "1.IH" show ?thesis by (subst show_nat.simps) (simp add: digit_char_props)
  qed
qed

lemma parse_nat_show_nat: "parse_nat (show_nat n) = Some n"
  using show_nat_digits [of n]
  by (auto simp: parse_nat_def show_nat_ne foldl_show_nat list_all_iff digit_char_props(1))

lemma parse_int_show_int: "parse_int (show_int i) = Some i"
proof (cases "i < 0")
  case True
  then show ?thesis by (simp add: show_int_def parse_nat_show_nat)
next
  case False
  obtain c cs where cs: "show_nat (nat i) = c # cs"
    using show_nat_ne by (cases "show_nat (nat i)") auto
  then have "c \<in> digit_char ` {..<10}"
    using show_nat_digits [of "nat i"] by auto
  then have "c \<noteq> CHR ''-''"
    using digit_char_props(3) by (metis imageE lessThan_iff)
  with False cs show ?thesis
    using parse_nat_show_nat [of "nat i"] by (simp add: show_int_def)
qed

lemma show_int_no_slash: "CHR ''/'' \<notin> set (show_int i)"
  using show_nat_digits [of "nat (- i)"] show_nat_digits [of "nat i"]
  by (auto simp: show_int_def digit_char_props(4))

lemma show_int_ne: "show_int i \<noteq> []"
  by (simp add: show_int_def show_nat_ne)

lemma show_int_last: "last (''/jobs/'' @ show_int i) \<noteq> CHR ''/''"
proof -
  have l: "last (show_int i) \<in> set (show_int i)"
    by (rule last_in_set [OF show_int_ne])
  have "last (show_int i) \<noteq> CHR ''/''"
  proof
    assume "last (show_int i) = CHR ''/''"
    with l have "CHR ''/'' \<in> set (show_int i)" by simp
    with show_int_no_slash show False by blast
  qed
  then show ?thesis by (simp add: last_append show_int_ne)
qed

lemma split_segments_no_slash: "CHR ''/'' \<notin> set xs \<Longrightarrow> split_segments xs = [xs]"
  by (induction xs) auto

lemma split_segments_slash:
  "CHR ''/'' \<notin> set xs \<Longrightarrow> split_segments (xs @ CHR ''/'' # ys) = xs # split_segments ys"
  by (induction xs) auto

lemma endpoint_response_cases:
  "(\<exists>r. endpoint_response s e ps q b = handle s r) \<or> (\<exists>p. endpoint_response s e ps q b = (DocsPage p app_metadata, s)) \<or>
   endpoint_response s e ps q b = (UnprocessableEntity, s)"
  by (cases e) (auto split: option.split simp del: handle.simps)

text \<open>What the HTTP layer leaves behind: the state of one handler or the state it found, and a status among those of the handlers and the router.\<close>

lemma find_route_Full: "find_route m segs tbl = Full e ps \<Longrightarrow> \<exists>pat. (m, pat, e) \<in> set tbl"
  by (induction m segs tbl rule: find_route.induct) (auto split: option.splits if_splits route_match.splits)

lemma serialize_response_state: "snd (serialize_response r x) = snd x"
  by (simp add: serialize_response_def split: prod.split response.split)

lemma endpoint_response_state:
  "snd (endpoint_response s e ps q b) = s \<or> (\<exists>r. snd (endpoint_response s e ps q b) = snd (handle s r))"
  using endpoint_response_cases [of s e ps q b] by auto

lemma serve_state: "snd (serve s req) = s \<or> (\<exists>r. snd (serve s req) = snd (handle s r))"
  using endpoint_response_state [of s]
  by (simp add: serve_def split: option.split route_match.split)

lemma serve_status: "status_code_of (fst (serve s req)) \<in> {200, 307, 400, 404, 405, 422}"
proof -
  have "status_code_of (fst (endpoint_response s e ps q b)) \<in> {200, 400, 404, 422}" for e ps q b
    using endpoint_response_cases [of s e ps q b]
  proof (elim disjE exE)
    fix r
    assume "endpoint_response s e ps q b = handle s r"
    then show ?thesis using handle_status [of s r] by simp
  qed auto
  then show ?thesis
    by (auto simp: serve_def not_found_def method_not_allowed_def split: option.split route_match.split)
qed

lemma serve_not_server_error [simp]: "fst (serve s req) \<noteq> InternalServerError"
  using serve_status [of s req] by auto

section \<open>Properties of the HTTP layer\<close>

text \<open>
  C18: the route table and the parameter conversion are inverse to the way a
  client writes requests: every request of the API, written on the wire with its
  ids in decimal, reaches its own handler with the same arguments, and the
  server answers exactly as the handler does.
\<close>

theorem serve_render: "serve s (render_request r) = handle s r"
  by (cases r)
     (auto simp: serve_def route_table_def query_param_def split_segments_slash split_segments_no_slash
                 show_int_no_slash show_int_ne parse_int_show_int split: option.split simp del: handle.simps)

text \<open>
  C19: \<open>accept_job\<close> reads \<open>driver_id\<close> from the query string only. A request
  that sends the driver in a JSON body, as the specification allows ("optional
  query/body \<open>driver_id\<close>"), is served as an accept with no driver, whatever
  the body says.
\<close>

theorem serve_accept_body_ignored:
  "serve s \<lparr>meth = POST, path = ''/jobs/'' @ show_int jid @ ''/accept'', query = [], body = b\<rparr> =
   handle s (AcceptJob jid None)"
  by (simp add: serve_def route_table_def query_param_def split_segments_slash
                show_int_no_slash show_int_ne parse_int_show_int del: handle.simps)

text \<open>
  A path parameter that is not a decimal integer (for example
  \<open>/complete/abc\<close>) is refused with 422 before any handler runs: the state
  does not change.
\<close>

theorem serve_bad_path_param:
  "x \<noteq> [] \<Longrightarrow> CHR ''/'' \<notin> set x \<Longrightarrow> parse_int x = None \<Longrightarrow>
   serve s \<lparr>meth = POST, path = ''/complete/'' @ x, query = q, body = b\<rparr> = (UnprocessableEntity, s)"
  by (simp add: serve_def route_table_def split_segments_no_slash)

theorem serve_bad_path_param_witness:
  "''abc'' \<noteq> [] \<and> CHR ''/'' \<notin> set ''abc'' \<and> parse_int ''abc'' = None \<and>
   serve initial_db \<lparr>meth = POST, path = ''/complete/abc'', query = [], body = None\<rparr> =
     (UnprocessableEntity, initial_db)"
proof -
  have h: "''abc'' \<noteq> []" "CHR ''/'' \<notin> set ''abc''" "parse_int ''abc'' = None"
    by (simp_all add: parse_nat_def is_digit_def)
  show ?thesis using h serve_bad_path_param [OF h, of initial_db "[]" None] by simp
qed

text \<open>
  C20: routing errors leave the state alone: a known path under the wrong
  method is answered 405 (the legacy \<open>POST\<close> routes under \<open>GET\<close>,
  \<open>/drivers\<close> under \<open>POST\<close>), a path of no route 404 (\<open>/jobs/{id}\<close> without
  \<open>/accept\<close>), and a known path written with a trailing slash is redirected
  (307) to the path without it, under any method and keeping the query.
\<close>

theorem serve_routing_errors:
  "serve s \<lparr>meth = GET, path = ''/complete/'' @ show_int jid, query = q, body = b\<rparr> = (method_not_allowed, s) \<and>
   serve s \<lparr>meth = GET, path = ''/assign/'' @ show_int jid @ ''/'' @ show_int did, query = q, body = b\<rparr> =
     (method_not_allowed, s) \<and>
   serve s \<lparr>meth = POST, path = ''/drivers'', query = q, body = b\<rparr> = (method_not_allowed, s) \<and>
   serve s \<lparr>meth = m, path = ''/jobs/'' @ show_int jid, query = q, body = b\<rparr> = (not_found, s) \<and>
   serve s \<lparr>meth = m, path = ''/jobs/'', query = q, body = b\<rparr> = (RedirectResponse ''/jobs'' q, s)"
  using show_int_last [of jid]
  by (cases m)
     (simp_all add: serve_def route_table_def split_segments_slash split_segments_no_slash
                    show_int_no_slash show_int_ne slash_redirect_def toggle_slash_def)

text \<open>
  C21: the only requests that change the state are \<open>POST\<close> requests. A
  request under any other method (\<open>GET\<close>, \<open>HEAD\<close>, \<open>OPTIONS\<close>,
  \<open>PUT\<close>, \<open>DELETE\<close>, \<open>PATCH\<close>), whatever its path, query and body,
  reaches at most a documentation page or one of the read-only routes
  \<open>GET /\<close>, \<open>GET /jobs\<close>, \<open>GET /drivers\<close>, or is refused: the
  decorators declare every mutating route with \<open>@app.post\<close>.
\<close>

theorem serve_safe_methods: "meth req \<noteq> POST \<Longrightarrow> snd (serve s req) = s"
proof -
  assume m: "meth req \<noteq> POST"
  have "snd (endpoint_response s e ps q b) = s" if "(meth req, pat, e) \<in> set route_table" for pat e ps q b
    using that m by (auto simp: route_table_def serialize_response_state read_handler_defs split: option.split)
  then show ?thesis
    by (auto simp: serve_def split: option.split route_match.split dest!: find_route_Full)
qed

theorem serve_safe_methods_witness:
  "GET \<noteq> POST \<and> snd (serve initial_db \<lparr>meth = GET, path = ''/jobs'', query = [], body = None\<rparr>) = initial_db"
  using serve_safe_methods [of "\<lparr>meth = GET, path = ''/jobs'', query = [], body = None\<rparr>" initial_db] by simp

end
