(* ===== verification/Cors.thy ===== *)
theory Cors
  imports Http "HOL-Library.AList" "HOL-Library.Char_ord" "HOL-Library.List_Lexorder"
begin

text \<open>
  The CORS middleware that \<open>src/main.py\<close> installs (lines 15 to 21):
  Starlette's \<open>CORSMiddleware\<close> with \<open>allow_origins=["*"]\<close>,
  \<open>allow_credentials=True\<close>, \<open>allow_methods=["*"]\<close>,
  \<open>allow_headers=["*"]\<close> and the defaults for the other options. It sits
  outside the router and FastAPI's exception handlers, so it sees every request
  and every response, errors included. A request without an \<open>Origin\<close> header
  passes through untouched. An \<open>OPTIONS\<close> request with \<open>Origin\<close> and
  \<open>Access-Control-Request-Method\<close> is a preflight, answered by the middleware
  itself with a plain-text 200 or 400. Any other request with an \<open>Origin\<close>
  goes to the application, and the middleware adds its headers to the answer.
  Header names are lower case, as Starlette stores them; the headers the
  application itself sets (content type and length) are not modelled, nor the
  option \<open>allow_origin_regex\<close>, which the source does not use.
\<close>

section \<open>Configuration\<close>

text \<open>The options of \<open>CORSMiddleware\<close>, and the values \<open>app.add_middleware\<close> passes.\<close>

record cors_config =
  allow_origins :: "string list"
  allow_methods :: "string list"
  allow_headers :: "string list"
  allow_credentials :: bool
  expose_headers :: "string list"
  max_age :: nat

definition app_cors :: cors_config where
  "app_cors =
     \<lparr>allow_origins = [''*''], allow_methods = [''*''], allow_headers = [''*''],
      allow_credentials = True, expose_headers = [], max_age = 600\<rparr>"

section \<open>Strings\<close>

text \<open>Python's \<open>", ".join\<close>, \<open>str.split(",")\<close>, \<open>str.lower\<close> (on ASCII) and \<open>str.strip\<close> (ASCII white space).\<close>

fun join_str :: "string \<Rightarrow> string list \<Rightarrow> string" where
  "join_str sep [] = []"
| "join_str sep [x] = x"
| "join_str sep (x # xs) = x @ sep @ join_str sep xs"

fun split_on :: "char \<Rightarrow> string \<Rightarrow> string list" where
  "split_on d [] = [[]]"
| "split_on d (c # cs) =
     (if c = d then [] # split_on d cs
      else (case split_on d cs of s # ss \<Rightarrow> (c # s) # ss | [] \<Rightarrow> [[c]]))"

definition lower_char :: "char \<Rightarrow> char" where
  "lower_char c = (if CHR ''A'' \<le> c \<and> c \<le> CHR ''Z'' then char_of (of_char c + (32::nat)) else c)"

definition is_space :: "char \<Rightarrow> bool" where
  "is_space c \<longleftrightarrow> c \<in> set [CHR '' '', CHR 0x09, CHR 0x0A, CHR 0x0B, CHR 0x0C, CHR 0x0D]"

definition strip :: "string \<Rightarrow> string" where
  "strip s = rev (dropWhile is_space (rev (dropWhile is_space s)))"

section \<open>The middleware's tables\<close>

text \<open>
  What \<open>CORSMiddleware.__init__\<close> computes from its options: \<open>"*"\<close> among the
  methods stands for Starlette's seven methods; the origin is named explicitly in
  preflight answers unless all origins are allowed without credentials; the
  headers every simple answer gets, and the headers every preflight answer starts
  from.
\<close>

definition all_methods :: "string list" where
  "all_methods = [''DELETE'', ''GET'', ''HEAD'', ''OPTIONS'', ''PATCH'', ''POST'', ''PUT'']"

definition safelisted_headers :: "string list" where
  "safelisted_headers = [''Accept'', ''Accept-Language'', ''Content-Language'', ''Content-Type'']"

definition cors_methods :: "cors_config \<Rightarrow> string list" where
  "cors_methods cfg = (if ''*'' \<in> set (allow_methods cfg) then all_methods else allow_methods cfg)"

definition allow_all_origins :: "cors_config \<Rightarrow> bool" where
  "allow_all_origins cfg \<longleftrightarrow> ''*'' \<in> set (allow_origins cfg)"

definition allow_all_headers :: "cors_config \<Rightarrow> bool" where
  "allow_all_headers cfg \<longleftrightarrow> ''*'' \<in> set (allow_headers cfg)"

definition explicit_origin :: "cors_config \<Rightarrow> bool" where
  "explicit_origin cfg \<longleftrightarrow> \<not> allow_all_origins cfg \<or> allow_credentials cfg"

definition header_list :: "cors_config \<Rightarrow> string list" where
  "header_list cfg = sort (remdups (safelisted_headers @ allow_headers cfg))"

definition simple_headers :: "cors_config \<Rightarrow> (string \<times> string) list" where
  "simple_headers cfg =
     (if allow_all_origins cfg then [(''access-control-allow-origin'', ''*'')] else []) @
     (if allow_credentials cfg then [(''access-control-allow-credentials'', ''true'')] else []) @
     (if expose_headers cfg \<noteq> [] then [(''access-control-expose-headers'', join_str '', '' (expose_headers cfg))] else [])"

definition preflight_headers :: "cors_config \<Rightarrow> (string \<times> string) list" where
  "preflight_headers cfg =
     (if explicit_origin cfg then [(''vary'', ''Origin'')] else [(''access-control-allow-origin'', ''*'')]) @
     [(''access-control-allow-methods'', join_str '', '' (cors_methods cfg)),
      (''access-control-max-age'', show_nat (max_age cfg))] @
     (if header_list cfg \<noteq> [] \<and> \<not> allow_all_headers cfg
      then [(''access-control-allow-headers'', join_str '', '' (header_list cfg))] else []) @
     (if allow_credentials cfg then [(''access-control-allow-credentials'', ''true'')] else [])"

definition is_allowed_origin :: "cors_config \<Rightarrow> string \<Rightarrow> bool" where
  "is_allowed_origin cfg origin \<longleftrightarrow> allow_all_origins cfg \<or> origin \<in> set (allow_origins cfg)"

section \<open>Requests and responses\<close>

record cors_request =
  request_line :: http_request
  req_headers :: "(string \<times> string) list"

datatype cors_response =
    AppResponse response "(string \<times> string) list"
  | PlainTextResponse nat string "(string \<times> string) list"

fun resp_status :: "cors_response \<Rightarrow> nat" where
  "resp_status (AppResponse r hs) = status_code_of r"
| "resp_status (PlainTextResponse c t hs) = c"

fun resp_headers :: "cors_response \<Rightarrow> (string \<times> string) list" where
  "resp_headers (AppResponse r hs) = hs"
| "resp_headers (PlainTextResponse c t hs) = hs"

section \<open>The middleware\<close>

text \<open>
  \<open>preflight_response\<close>: the preflight's headers and its failures (origin,
  method, headers); header lists are Python dictionaries, so setting a key
  replaces its value in place or appends it (\<open>AList.update\<close>).
  \<open>simple_response_headers\<close>: what \<open>CORSMiddleware.send\<close> adds to the
  application's answer. \<open>cors_middleware\<close> is \<open>CORSMiddleware.__call__\<close>,
  over any inner application. \<open>render_server_error\<close> is Starlette's
  outermost \<open>ServerErrorMiddleware\<close>: an exception the application raises
  (FastAPI's \<open>ResponseValidationError\<close>, the model's
  \<open>InternalServerError\<close>) passes through \<open>CORSMiddleware\<close> before any header
  is sent, and is answered with a plain-text 500 that carries none of its
  headers. \<open>app\<close> is the application of \<open>src/main.py\<close>: the two
  middlewares around \<open>serve\<close>.
\<close>

definition preflight_response :: "cors_config \<Rightarrow> string \<Rightarrow> string \<Rightarrow> string option \<Rightarrow> cors_response" where
  "preflight_response cfg origin rmethod rheaders =
     (let hs0 = preflight_headers cfg;
          (hs1, f1) = (if is_allowed_origin cfg origin
                       then (if explicit_origin cfg
                             then AList.update ''access-control-allow-origin'' origin hs0 else hs0, [])
                       else (hs0, [''origin'']));
          f2 = (if rmethod \<in> set (cors_methods cfg) then [] else [''method'']);
          (hs3, f3) = (case rheaders of
                         None \<Rightarrow> (hs1, [])
                       | Some rh \<Rightarrow>
                           if allow_all_headers cfg
                           then (AList.update ''access-control-allow-headers'' rh hs1, [])
                           else (hs1, if list_all (\<lambda>h. strip (map lower_char h) \<in> set (map (map lower_char) (header_list cfg)))
                                                  (split_on CHR '','' rh)
                                      then [] else [''headers'']));
          failures = f1 @ f2 @ f3
      in if failures \<noteq> []
         then PlainTextResponse 400 (''Disallowed CORS '' @ join_str '', '' failures) hs3
         else PlainTextResponse 200 ''OK'' hs3)"

definition add_vary_header :: "string \<Rightarrow> (string \<times> string) list \<Rightarrow> (string \<times> string) list" where
  "add_vary_header v hs =
     AList.update ''vary'' (case map_of hs ''vary'' of None \<Rightarrow> v | Some e \<Rightarrow> e @ '', '' @ v) hs"

definition allow_explicit_origin :: "string \<Rightarrow> (string \<times> string) list \<Rightarrow> (string \<times> string) list" where
  "allow_explicit_origin origin hs = add_vary_header ''Origin'' (AList.update ''access-control-allow-origin'' origin hs)"

definition simple_response_headers :: "cors_config \<Rightarrow> (string \<times> string) list \<Rightarrow> string \<Rightarrow> (string \<times> string) list" where
  "simple_response_headers cfg rhs origin =
     (let hs = simple_headers cfg;
          has_cookie = map_of rhs ''cookie'' \<noteq> None
      in if allow_all_origins cfg \<and> has_cookie then allow_explicit_origin origin hs
         else if \<not> allow_all_origins cfg \<and> is_allowed_origin cfg origin then allow_explicit_origin origin hs
         else hs)"

definition cors_middleware ::
  "cors_config \<Rightarrow> ('s \<Rightarrow> http_request \<Rightarrow> response \<times> 's) \<Rightarrow> 's \<Rightarrow> cors_request \<Rightarrow> cors_response \<times> 's" where
  "cors_middleware cfg inner s req =
     (case map_of (req_headers req) ''origin'' of
        None \<Rightarrow> (let (a, s') = inner s (request_line req) in (AppResponse a [], s'))
      | Some origin \<Rightarrow>
          (case map_of (req_headers req) ''access-control-request-method'' of
             Some rmethod \<Rightarrow>
               if meth (request_line req) = OPTIONS
               then (preflight_response cfg origin rmethod (map_of (req_headers req) ''access-control-request-headers''), s)
               else (let (a, s') = inner s (request_line req)
                     in (AppResponse a (simple_response_headers cfg (req_headers req) origin), s'))
           | None \<Rightarrow>
               (let (a, s') = inner s (request_line req)
                in (AppResponse a (simple_response_headers cfg (req_headers req) origin), s'))))"

fun render_server_error :: "cors_response \<Rightarrow> cors_response" where
  "render_server_error (AppResponse InternalServerError hs) = PlainTextResponse 500 ''Internal Server Error'' []"
| "render_server_error r = r"

definition app :: "db \<Rightarrow> cors_request \<Rightarrow> cors_response \<times> db" where
  "app s req = (let (a, s') = cors_middleware app_cors serve s req in (render_server_error a, s'))"

section \<open>The configured policy\<close>

lemma app_cors_tables [simp]:
  "cors_methods app_cors = all_methods"
  "allow_all_origins app_cors"
  "allow_all_headers app_cors"
  "explicit_origin app_cors"
  "allow_credentials app_cors"
  "is_allowed_origin app_cors origin"
  "simple_headers app_cors = [(''access-control-allow-origin'', ''*''), (''access-control-allow-credentials'', ''true'')]"
  by (simp_all add: app_cors_def cors_methods_def allow_all_origins_def allow_all_headers_def
                    explicit_origin_def is_allowed_origin_def simple_headers_def)

lemma render_server_error_app [simp]:
  "a \<noteq> InternalServerError \<Longrightarrow> render_server_error (AppResponse a hs) = AppResponse a hs"
  by (cases a) simp_all

lemma app_preflight_headers:
  "map_of (preflight_headers app_cors) ''access-control-allow-credentials'' = Some ''true''"
  by (simp add: preflight_headers_def)

lemma app_no_origin:
  "map_of hs ''origin'' = None \<Longrightarrow>
   app s \<lparr>request_line = rl, req_headers = hs\<rparr> = (AppResponse (fst (serve s rl)) [], snd (serve s rl))"
  by (simp add: app_def cors_middleware_def split_def Let_def)

text \<open>
  C28: a CORS preflight (an \<open>OPTIONS\<close> request with an \<open>Origin\<close> and an
  \<open>Access-Control-Request-Method\<close> header) is answered by the middleware
  itself: no handler runs and the state does not change. The answer is 200 for
  any origin when the requested method is one of the seven methods Starlette
  expands \<open>allow_methods=["*"]\<close> to, and 400 otherwise; either way it allows
  that very origin, with credentials.
\<close>

theorem cors_preflight:
  assumes "meth rl = OPTIONS" and "map_of hs ''origin'' = Some origin"
    and "map_of hs ''access-control-request-method'' = Some m"
  shows "snd (app s \<lparr>request_line = rl, req_headers = hs\<rparr>) = s \<and>
         resp_status (fst (app s \<lparr>request_line = rl, req_headers = hs\<rparr>)) = (if m \<in> set all_methods then 200 else 400) \<and>
         map_of (resp_headers (fst (app s \<lparr>request_line = rl, req_headers = hs\<rparr>))) ''access-control-allow-origin'' = Some origin \<and>
         map_of (resp_headers (fst (app s \<lparr>request_line = rl, req_headers = hs\<rparr>))) ''access-control-allow-credentials'' = Some ''true''"
  using assms app_preflight_headers
  by (auto simp: app_def cors_middleware_def preflight_response_def update_conv' Let_def split: option.splits)

text \<open>
  C29: every other request with an \<open>Origin\<close> header reaches the application
  unchanged, which answers and changes the state exactly as \<open>serve\<close> does;
  the middleware only adds headers. It allows credentials, but names the
  origin only when the request carries a \<open>Cookie\<close> header: otherwise the
  allowed origin is the wildcard \<open>*\<close>, which browsers refuse for a
  credentialed request.
\<close>

theorem cors_simple:
  assumes "map_of hs ''origin'' = Some origin"
    and "meth rl \<noteq> OPTIONS \<or> map_of hs ''access-control-request-method'' = None"
  shows "app s \<lparr>request_line = rl, req_headers = hs\<rparr> =
           (AppResponse (fst (serve s rl))
              (if map_of hs ''cookie'' = None
               then [(''access-control-allow-origin'', ''*''), (''access-control-allow-credentials'', ''true'')]
               else [(''access-control-allow-origin'', origin), (''access-control-allow-credentials'', ''true''),
                     (''vary'', ''Origin'')]),
            snd (serve s rl))"
  using assms
  by (auto simp: app_def cors_middleware_def simple_response_headers_def allow_explicit_origin_def
                 add_vary_header_def split_def Let_def split: option.split)

theorem cors_preflight_witness:
  "snd (app initial_db \<lparr>request_line = \<lparr>meth = OPTIONS, path = ''/jobs'', query = [], body = None\<rparr>,
                         req_headers = [(''origin'', ''https://app.example''), (''access-control-request-method'', ''POST'')]\<rparr>) = initial_db \<and>
   resp_status (fst (app initial_db \<lparr>request_line = \<lparr>meth = OPTIONS, path = ''/jobs'', query = [], body = None\<rparr>,
                         req_headers = [(''origin'', ''https://app.example''), (''access-control-request-method'', ''POST'')]\<rparr>)) = 200"
  using cors_preflight [of "\<lparr>meth = OPTIONS, path = ''/jobs'', query = [], body = None\<rparr>"
                           "[(''origin'', ''https://app.example''), (''access-control-request-method'', ''POST'')]"
                           "''https://app.example''" "''POST''" initial_db]
  by (simp add: all_methods_def)

theorem cors_simple_witness:
  "app initial_db \<lparr>request_line = render_request GetDrivers, req_headers = [(''origin'', ''https://app.example'')]\<rparr> =
     (AppResponse (fst (serve initial_db (render_request GetDrivers)))
        [(''access-control-allow-origin'', ''*''), (''access-control-allow-credentials'', ''true'')],
      initial_db)"
  using cors_simple [of "[(''origin'', ''https://app.example'')]" "''https://app.example''" "render_request GetDrivers" initial_db]
  by (simp add: serve_def route_table_def get_drivers_def serialize_response_def)

end
