(* ===== verification/Deployment.thy ===== *)
theory Deployment
  imports Cors
begin

text \<open>
  The deployed application of \<open>src/main.py\<close> as one component: Starlette's
  \<open>ServerErrorMiddleware\<close> and the \<open>CORSMiddleware\<close> of lines 15 to 21
  around FastAPI's routing, parameter binding, the handlers and the
  serialisation of their results (\<open>app\<close>), serving HTTP requests one after
  the other (\<open>app_run\<close>). The layers are composed by simulation: every step of
  \<open>app\<close> is a step of the router \<open>handle\<close> or leaves the state alone, so the
  states the deployed server reaches are reachable states of the router, and
  everything proved of those holds of it.
\<close>

section \<open>Serving a sequence of HTTP requests\<close>

fun app_run :: "db \<Rightarrow> cors_request list \<Rightarrow> cors_response list \<times> db" where
  "app_run s [] = ([], s)"
| "app_run s (r # rs) = (let (a, s') = app s r; (as, s'') = app_run s' rs in (a # as, s''))"

text \<open>
  A session of the iOS client of the comment on line 13, from the seed data: a
  preflight for \<open>POST /jobs\<close>, a job created, accepted for driver 1, accepted
  again for driver 2, a path of no route, and \<open>/drivers/\<close> with a trailing slash.
\<close>

definition ios_session :: "cors_request list" where
  "ios_session =
     [\<lparr>request_line = \<lparr>meth = OPTIONS, path = ''/jobs'', query = [], body = None\<rparr>,
       req_headers = [(''origin'', ''https://ios.example''), (''access-control-request-method'', ''POST'')]\<rparr>,
      \<lparr>request_line = \<lparr>meth = POST, path = ''/jobs'', query = [],
         body = Some (JObj [(''pickup_location'', JStr ''Kent''), (''dropoff_location'', JStr ''Renton''),
                            (''load_description'', JStr ''Crates'')])\<rparr>,
       req_headers = [(''origin'', ''https://ios.example'')]\<rparr>,
      \<lparr>request_line = \<lparr>meth = POST, path = ''/jobs/3/accept'', query = [(''driver_id'', ''1'')], body = None\<rparr>,
       req_headers = [(''origin'', ''https://ios.example'')]\<rparr>,
      \<lparr>request_line = \<lparr>meth = POST, path = ''/jobs/3/accept'', query = [(''driver_id'', ''2'')], body = None\<rparr>,
       req_headers = []\<rparr>,
      \<lparr>request_line = \<lparr>meth = GET, path = ''/jobs/3'', query = [], body = None\<rparr>, req_headers = []\<rparr>,
      \<lparr>request_line = \<lparr>meth = GET, path = ''/drivers/'', query = [], body = None\<rparr>, req_headers = []\<rparr>]"

section \<open>Each layer is a step of the router or none\<close>

lemma app_state: "snd (app s req) = s \<or> snd (app s req) = snd (serve s (request_line req))"
  by (auto simp: app_def cors_middleware_def split_def Let_def split: option.splits)

lemma app_reachable: "reachable s \<Longrightarrow> reachable (snd (app s req))"
  using app_state [of s req] serve_state [of s "request_line req"]
  by (auto intro: reachable.step)

lemma app_run_reachable: "reachable s \<Longrightarrow> reachable (snd (app_run s rs))"
  by (induction rs arbitrary: s) (simp_all add: split_def Let_def app_reachable)

lemma preflight_status:
  "render_server_error (preflight_response cfg origin m hs) = preflight_response cfg origin m hs \<and>
   resp_status (preflight_response cfg origin m hs) \<in> {200, 400}"
  by (simp add: preflight_response_def Let_def split_def)

lemma app_status: "resp_status (fst (app s req)) \<in> {200, 307, 400, 404, 405, 422}"
  using serve_status [of s "request_line req"] preflight_status
  by (auto simp: app_def cors_middleware_def split_def Let_def split: option.splits)

section \<open>Properties of the deployed application\<close>

text \<open>
  C14: the deployed application never answers 500. Whatever HTTP requests it
  serves, from any state, every answer is 200 (a handler, a documentation
  page or a preflight), 307 (a trailing-slash redirect), 400 (an accept of a
  taken job, a refused preflight), 404, 405 or 422: FastAPI's validation of
  each route's return value against its \<open>response_model\<close> never fails, so
  \<open>ServerErrorMiddleware\<close> is never reached.
\<close>

theorem app_status_codes:
  "list_all (\<lambda>a. resp_status a \<in> {200, 307, 400, 404, 405, 422}) (fst (app_run s rs))"
proof (induction rs arbitrary: s)
  case Nil
  then show ?case by simp
next
  case (Cons r rs)
  then show ?case
    using app_status [of s r] Cons.IH [of "snd (app s r)"] by (simp add: split_def Let_def)
qed

text \<open>
  C16: the invariants of the router hold of the deployed application. After
  any sequence of HTTP requests from the seed data, whatever their methods,
  paths, queries, bodies and CORS headers, the store is well-formed (ids
  distinct and below the counter, statuses among the three literals, drivers
  only on jobs that left \<open>available\<close>), the job ids are exactly
  \<open>1, ..., next_job_id - 1\<close> in order, and the drivers are the seed drivers.
\<close>

theorem app_run_invariant:
  "wf_db (snd (app_run initial_db rs)) \<and>
   map job_id (jobs (snd (app_run initial_db rs))) = [1..next_job_id (snd (app_run initial_db rs)) - 1] \<and>
   drivers (snd (app_run initial_db rs)) = seed_drivers"
  using reachable_inv [OF app_run_reachable [OF reachable.init, of rs]] by simp


text \<open>
  The session above, run through every layer: the statuses the client sees, and
  the store it leaves (job 3 created and assigned to driver 1, the second accept
  refused, the counter at 4).
\<close>

lemma ios_session_run:
  "map resp_status (fst (app_run initial_db ios_session)) = [200, 200, 200, 400, 404, 307] \<and>
   map (\<lambda>j. (job_id j, status j, driver_id j)) (jobs (snd (app_run initial_db ios_session))) =
     [(1, ''available'', None), (2, ''available'', None), (3, ''assigned'', Some 1)] \<and>
   next_job_id (snd (app_run initial_db ios_session)) = 4"
  by code_simp

end
