(* ===== verification/Spec2Isabelle.thy ===== *)
theory Spec2Isabelle
  imports Linearizable Deployment
begin

text \<open>
  \<^bold>\<open>Verification of the last-mile job board, \<open>src/main.py\<close>.\<close>

  \<^emph>\<open>The program.\<close> A FastAPI service with two in-memory collections, the
  module globals \<open>jobs\<close> and \<open>drivers\<close>, and an id counter
  \<open>next_job_id\<close>. Seven routes: \<open>GET /\<close> (\<open>home\<close>), \<open>GET /jobs\<close>
  (\<open>get_jobs\<close>), \<open>POST /jobs\<close> (\<open>create_job\<close>), \<open>POST /jobs/{job_id}/accept\<close>
  (\<open>accept_job\<close>), \<open>POST /assign/{job_id}/{driver_id}\<close> (\<open>assign_driver\<close>),
  \<open>POST /complete/{job_id}\<close> (\<open>complete_job\<close>) and \<open>GET /drivers\<close>
  (\<open>get_drivers\<close>). The mutating handlers scan \<open>jobs\<close> for the first job with
  the id and mutate it in place; \<open>accept_job\<close> raises \<open>HTTPException\<close> 400/404,
  the two older routes answer \<open>{"error": ...}\<close> with status 200. FastAPI runs
  these plain \<open>def\<close> handlers in a thread pool, with no lock.

  \<^emph>\<open>The theories.\<close>
  \<^item> \<open>Prelude\<close>: the shape every scan shares (\<open>first_index\<close>, \<open>map_first\<close>:
    the first match and the list with it replaced; \<open>keyed\<close>: a list of records
    read as a map, first record winning) and their lemmas, with the
    \<open>named_theorems\<close> collections \<open>read_handler_defs\<close> (the read-only
    handlers) and \<open>frame_simps\<close> (what each handler leaves alone).
  \<^item> \<open>Store\<close>: the pydantic models \<open>Job\<close>, \<open>JobCreate\<close>, \<open>Driver\<close> as
    records (\<open>job\<close>, \<open>job_create\<close>, \<open>driver\<close>; \<open>id\<close> is \<open>job_id\<close> and
    \<open>drv_id\<close>), the globals as the record \<open>db\<close>, the seed \<open>initial_db\<close>,
    \<open>home\<close>, \<open>get_jobs\<close>, \<open>get_drivers\<close>, and the invariant \<open>wf_db\<close>: ids
    distinct and below the counter (\<open>ids_fresh\<close>), status one of the three
    literals, a driver only on a job that left \<open>available\<close> (\<open>job_ok\<close>).
    \<open>status\<close> is a string, as in the source.
  \<^item> \<open>Jobs\<close>: \<open>create_job\<close>, \<open>accept_job\<close>, \<open>assign_driver\<close>,
    \<open>complete_job\<close>, each \<open>db \<Rightarrow> args \<Rightarrow> result \<times> db\<close>, the loops as the
    structural recursions \<open>accept_loop\<close>, \<open>assign_loop\<close>, \<open>complete_loop\<close>.
    Lemmas: each loop equals \<open>find\<close> followed by \<open>map_first\<close>
    (\<open>accept_loop_eq\<close> and kin); each handler on every branch, errors
    included (C3 to C9); each handler keeps \<open>wf_db\<close>; each refines a
    specification over the finite map \<open>int \<rightharpoonup> job\<close> under \<open>abs_db\<close>
    (C10 to C13; creation needs a fresh counter).
  \<^item> \<open>Router\<close>: the routes as the datatype \<open>request\<close>, the JSON encodings of
    the models and their validation (\<open>parse_job_create\<close> for the \<open>POST /jobs\<close>
    body, 422 when it fails; \<open>parse_job\<close>, \<open>parse_driver\<close> for the
    \<open>response_model\<close> checks), the dispatcher \<open>handle\<close> with the status codes,
    sequential runs \<open>run\<close>, and the states \<open>reachable\<close> from the seed. Lemmas:
    the invariant in every reachable state (C1), ids exactly \<open>1..next_job_id-1\<close>
    (C15), and every 200 answer valid for its route's \<open>response_model\<close>
    (C27), which rests on the encoders and parsers agreeing
    (\<open>parse_job_json\<close>, \<open>parse_driver_json\<close>); \<open>serialize_response\<close> is FastAPI's
    validation of a route's return value against that model (500 when it
    fails), and \<open>serialize_handle\<close> shows it passes every handler's result on.
  \<^item> \<open>Interleaving\<close>: concurrent dispatch. Each handler is split into the atomic
    steps it performs on shared state (\<open>tstep\<close> over thread states
    \<open>tstate\<close>): a scan with its check, each field write,
    \<open>next_job_id += 1\<close> as a load and a store, and, after the handler has
    returned, FastAPI's serialisation of the returned job (\<open>SerializeJob\<close>,
    \<open>SerializeLegacy\<close>), which reads the job object of the store as it is
    then: handlers return references to the dicts in \<open>jobs\<close>. \<open>get_jobs\<close>
    returns the list \<open>jobs\<close> itself, and FastAPI serialises it one job per
    step (\<open>SerializeJobs\<close>), up to the list's length at that moment. A
    schedule of thread indices drives \<open>exec\<close>;
    \<open>conc_reach\<close> is every state with requests arriving at any time. The
    claim: statuses and drivers stay well-formed under any interleaving
    (C17). Example runs, kept as lemmas beside the findings they illustrate:
    the lost update of two accepts (\<open>conc_lost_update\<close>), duplicate ids
    from two creates (\<open>conc_duplicate_ids\<close>) and a completion undone by an
    accept (\<open>conc_complete_undone\<close>). The serialisation of \<open>GET /jobs\<close>
    one job per step is the finer of the two granularities FastAPI has
    (iterating the list in Python, as with pydantic 1; pydantic 2 dumps it in
    one call): every run of the coarser one is a run of this model in which
    the steps come together, so the invariants and the linearizability
    proved here hold for both.
  \<^item> \<open>Progress\<close>: termination and liveness. \<open>tsteps_left s t\<close> is what
    a thread has left to do in store \<open>s\<close> (at most five steps, and for
    \<open>GET /jobs\<close> one per job plus two) and falls with each of its steps;
    \<open>finish\<close> runs a thread to its answer, by well-founded recursion on that
    measure, and equals \<open>handle\<close> from a fresh request. Other threads raise
    it only by appending under a listing; \<open>appends_left\<close> counts the
    creations still to append, and the sum is a variant (\<open>potential_other\<close>,
    \<open>potential_self\<close>). The claim: under every schedule a thread scheduled
    as often as its steps left plus the appends to come has answered (C24).
    Checks of the step model against the router, kept as lemmas: a thread
    alone ends as \<open>handle\<close> (\<open>serve_alone\<close>), one-at-a-time service is
    \<open>run\<close> (\<open>serial_schedule_run\<close>), and a thread alone finishes in its
    count of steps (\<open>thread_terminates\<close>).
  \<^item> \<open>Locking\<close>: the fix the specification proposes, one global lock around
    each handler, as the relation \<open>locked_reach\<close>: a thread enters or
    continues a handler only while no other thread is inside one
    (\<open>busy\<close>); the lock is released when the handler returns, and a thread
    whose handler has returned (\<open>returned\<close>) is serialised whenever it is
    scheduled, whoever holds the lock. Read-only handlers take the lock too
    (the single-writer form of the fix). The invariant
    \<open>locked_inv\<close> says what the store looks like between two steps of the one
    busy thread (\<open>pending_ok\<close>). Lemmas: ids stay distinct in every locked
    state (C22), and the full invariant holds whenever no handler is in
    progress (C23).
  \<^item> \<open>Linearizable\<close>: the locked server with ghost state, \<open>locked_hist\<close>:
    each thread's request and the history of returned requests in the
    order the handlers returned (\<open>record_return\<close>) (it has the same states as \<open>locked_reach\<close>:
    \<open>locked_hist_reach\<close>, \<open>locked_reach_hist\<close>). The invariant
    \<open>lin_inv\<close> relates every thread to the sequential replay of the history.
    Lemmas: whenever no handler is in progress, replaying the history with
    \<open>run\<close> from the seed gives the handlers' results and the store, and
    every client gets the status code of its history entry (C25), so the
    lock excludes the lost update and the undone completion; no two clients
    are both told they accepted the same job (C26). The bodies are not
    covered: a body is serialised after the lock is released and can show a
    later state. Two example runs, kept as lemmas beside the findings: an
    accept answered 200 with the job already \<open>completed\<close>
    (\<open>locked_stale_response\<close>), and a listing read one job at a time that
    shows job 2 taken and job 1, taken before it, still available
    (\<open>locked_torn_list\<close>, which needs the per-job serialisation).
  \<^item> \<open>Http\<close>: what FastAPI and Starlette put in front of \<open>handle\<close>. The
    routes as \<open>route_table\<close>: the four documentation routes FastAPI adds,
    which answer a page generated from the metadata \<open>app_metadata\<close> of lines
    6 to 10, then the decorators; tried in order (\<open>find_route\<close>: first full
    match, else 405 if a path matched under another method, else a 307
    redirect if the path with its trailing slash toggled matches, else 404), the
    handlers' signatures as \<open>bind_params\<close> (ids converted by \<open>parse_int\<close>,
    422 when they do not convert, \<open>driver_id\<close> from the query only), and
    \<open>serve\<close>, an HTTP request in and a response out. Lemmas: every request
    written on the wire reaches its own handler (C18); a driver in the accept
    body is ignored (C19); wrong methods, unknown paths and trailing slashes
    give 405, 404 and 307 (C20); no request but a \<open>POST\<close> changes the
    state (C21); bad path parameters give 422 (\<open>serve_bad_path_param\<close>).
  \<^item> \<open>Cors\<close>: the \<open>CORSMiddleware\<close> of lines 15 to 21 around \<open>serve\<close>,
    as \<open>app\<close>: its options (\<open>app_cors\<close>), Starlette's middleware over any
    inner application (\<open>cors_middleware\<close>, \<open>preflight_response\<close>,
    \<open>simple_response_headers\<close>), inside Starlette's
    \<open>ServerErrorMiddleware\<close> (\<open>render_server_error\<close>: a 500 without CORS
    headers). Lemmas: a preflight never reaches a handler and allows any
    origin with credentials, 400 for a method outside Starlette's seven (C28);
    every other request is served as \<open>serve\<close> does, with the wildcard origin
    unless the request carries a cookie (C29).
  \<^item> \<open>Deployment\<close>: the whole stack serving HTTP requests one after the
    other (\<open>app_run\<close>), composed by simulation: each step of \<open>app\<close> is one
    step of \<open>handle\<close> or none (\<open>app_state\<close>, \<open>serve_state\<close>), so its
    stores are reachable stores of the router. Lemmas: the deployed server
    never answers 500, every status is 200, 307, 400, 404, 405 or 422 (C14);
    the router's invariants, ids \<open>1..next_job_id-1\<close> and the seed drivers
    hold after any sequence of HTTP requests (C16); an example session of
    the iOS client, evaluated through every layer (\<open>ios_session_run\<close>).
  \<^item> This theory: properties across handlers, the double accept (C2), and the
    specification's scenario from the seed data as an example
    (\<open>seed_scenario\<close>).

  The claims are properties of every input, state or schedule. Runs on one
  fixed input are kept as lemmas, named in the findings they illustrate, and
  are not claims.

  \<^emph>\<open>Bounds.\<close> There are no loops without a structural measure: every scan
  recurses on the job list. In the concurrent model a thread has at most five
  steps (the longest handler, \<open>create_job\<close>, builds, appends, loads and
  stores the counter, then its job is serialised), except \<open>GET /jobs\<close>,
  whose serialisation takes one step per job of the list as it grows;
  \<open>tsteps_left\<close> is that count in the current store, \<open>serve_alone\<close> uses
  exactly it, \<open>serial_schedule\<close> gives each of \<open>n\<close> requests
  \<open>length jobs + n + 5\<close> steps (each request appends at most one job), and
  \<open>finish\<close> needs no fuel: it recurses on \<open>tsteps_left\<close>.
  Python's \<open>int\<close> is unbounded and is \<open>int\<close> here; nothing wraps.

  \<^emph>\<open>Further work.\<close> Pydantic's lax number and string coercions.

  \<^emph>\<open>Not modelled.\<close> The content of the documentation FastAPI generates from
  the metadata of lines 6 to 10 (the OpenAPI document and the HTML pages: the
  routes are modelled, their bodies are the constructor \<open>DocsPage\<close>). Also
  not modelled: the detail list of FastAPI's 422 body;
  pydantic's lax coercions (only canonical JSON types and plain decimal numbers
  validate: the rules by which pydantic also accepts, say, \<open>" 7"\<close> or
  \<open>"7.0"\<close> for an \<open>int\<close> are pydantic's code, which is not in this
  repository, and the repository pins no version of it (pydantic 1 and 2
  differ exactly here), so they are left out rather than guessed; this is why the router and
  the HTTP binding are only partly modelled); the raw bytes of a request body
  before \<open>json.loads\<close> (a body is a JSON value or absent); the headers the application itself sets (content type and
  length); the event loop itself (each serialisation step is atomic with
  respect to the other threads: one per job object, one per job of a
  listing).
\<close>

section \<open>Properties across the handlers\<close>

text \<open>
  C2: accepting the same job twice in a row fails the second time with the
  client error 400, whatever driver the second call names, and the second call
  leaves the database, and so the first assignment, as it was. No hypothesis on
  the ids is needed: both scans stop at the same first job with the id.
\<close>

theorem accept_twice_fails:
  assumes "accept_job s jid did = (Inr j, s')"
  shows "accept_job s' jid did' = (Inl (HTTPException 400 ''Job already assigned or completed''), s') \<and>
         find (has_id jid) (jobs s') = Some j \<and> status j = ''assigned'' \<and> driver_id j = did"
proof -
  obtain j0 where found: "find (has_id jid) (jobs s) = Some j0" and avail: "status j0 = ''available''"
    and j: "j = j0\<lparr>status := ''assigned'', driver_id := did\<rparr>"
    and s': "s' = s\<lparr>jobs := map_first (has_id jid) (\<lambda>j. j\<lparr>status := ''assigned'', driver_id := did\<rparr>) (jobs s)\<rparr>"
    using assms by (auto simp: accept_job_eq split: option.splits if_splits)
  have "find (has_id jid) (jobs s') = Some j"
    using found by (simp add: s' j find_map_first)
  then show ?thesis
    by (simp add: accept_job_eq j)
qed

theorem accept_twice_fails_witness:
  "accept_job initial_db 1 (Some 2) =
     (Inr ((hd seed_jobs)\<lparr>status := ''assigned'', driver_id := Some 2\<rparr>),
      initial_db\<lparr>jobs := [(hd seed_jobs)\<lparr>status := ''assigned'', driver_id := Some 2\<rparr>, seed_jobs ! 1]\<rparr>) \<and>
   accept_job (initial_db\<lparr>jobs := [(hd seed_jobs)\<lparr>status := ''assigned'', driver_id := Some 2\<rparr>, seed_jobs ! 1]\<rparr>) 1 (Some 1) =
     (Inl (HTTPException 400 ''Job already assigned or completed''),
      initial_db\<lparr>jobs := [(hd seed_jobs)\<lparr>status := ''assigned'', driver_id := Some 2\<rparr>, seed_jobs ! 1]\<rparr>)"
proof -
  have first: "accept_job initial_db 1 (Some 2) =
     (Inr ((hd seed_jobs)\<lparr>status := ''assigned'', driver_id := Some 2\<rparr>),
      initial_db\<lparr>jobs := [(hd seed_jobs)\<lparr>status := ''assigned'', driver_id := Some 2\<rparr>, seed_jobs ! 1]\<rparr>)"
    by (simp add: accept_job_def initial_db_def seed_jobs_def Let_def)
  show ?thesis
    using first accept_twice_fails [OF first, of "Some 1"] by simp
qed

text \<open>
  The scenario of the specification, served one request after the other
  from the seed data: \<open>POST /jobs/1/accept?driver_id=2\<close> answers 200 with job 1
  assigned to driver 2, the same call again answers 400, \<open>POST /complete/1\<close>
  answers 200, and \<open>POST /jobs/9/accept\<close> answers 404; at the end job 1 is
  \<open>completed\<close> with driver 2 and job 2 is untouched.
\<close>

theorem seed_scenario:
  "map status_code_of (fst (run initial_db [AcceptJob 1 (Some 2), AcceptJob 1 (Some 2), CompleteJob 1, AcceptJob 9 None]))
     = [200, 400, 200, 404] \<and>
   map (\<lambda>j. (job_id j, status j, driver_id j))
       (jobs (snd (run initial_db [AcceptJob 1 (Some 2), AcceptJob 1 (Some 2), CompleteJob 1, AcceptJob 9 None])))
     = [(1, ''completed'', Some 2), (2, ''available'', None)]"
  by (simp add: initial_db_def seed_jobs_def Job_def accept_job_def complete_job_def Let_def)

end
